theory Spec2Isabelle
  imports Main "HOL-Library.AList"
begin

section \<open>Values shared by the cache and the shipping component\<close>

text \<open>
  A line item id is \<^verbatim>\<open>string | number\<close> in the source. The code compares ids
  sometimes with \<^verbatim>\<open>===\<close> (no coercion) and sometimes through \<^verbatim>\<open>toString()\<close>, so both
  shapes are kept. A number id is kept as the text \<^verbatim>\<open>Number.prototype.toString\<close> gives
  for it (\<^verbatim>\<open>"7"\<close>, \<^verbatim>\<open>"-1.5"\<close>, \<^verbatim>\<open>"1e+21"\<close>): two finite numbers are \<^verbatim>\<open>===\<close> exactly
  when their texts are equal, the same text is what a property key, a template literal
  and \<^verbatim>\<open>JSON.stringify\<close> make of the number, and \<^verbatim>\<open>NaN\<close> and the infinities are no ids.
  A string of the model is a sequence of code units below 256. Quantities are
  JavaScript numbers that hold whole numbers.
\<close>

datatype item_id = IdStr string | IdNum string

fun toString :: "item_id \<Rightarrow> string" where
  "toString (IdStr s) = s"
| "toString (IdNum n) = n"

text \<open>An address is an object (\<^verbatim>\<open>any\<close> in the source): its own keys with their values.\<close>

type_synonym address = "(string \<times> string) list"

record shipping_option =
  option_id :: string
  description :: string

record delivery_date =
  display :: string
  iso :: string
  date_value :: int

text \<open>Exceptions of the JavaScript run time, and \<^verbatim>\<open>new Error(message)\<close>.\<close>

datatype js_error =
    TypeError | SyntaxError | DOMException | NetworkError | RequestError
  | InvalidAddressError | Error string

definition bnd :: "js_error + 'a \<Rightarrow> ('a \<Rightarrow> js_error + 'b) \<Rightarrow> js_error + 'b" where
  "bnd m f = (case m of Inl e \<Rightarrow> Inl e | Inr x \<Rightarrow> f x)"

section \<open>consignment-persistence.ts: the session cache\<close>

record stored_consignment =
  consignmentId :: string
  lineItemId :: item_id
  quantity :: int
  shippingAddress :: "address option"
  selectedShippingOptionId :: string
  selectedDeliveryDate :: "delivery_date option"

text \<open>
  What \<^verbatim>\<open>sessionStorage.getItem('storedConsignments')\<close> holds. The text is kept by what
  \<^verbatim>\<open>JSON.parse\<close> makes of it: the empty string, a text that is not JSON, JSON that is
  not an array (\<^verbatim>\<open>null\<close>, a number, an object), or an array. An element of the array
  is a record as this module writes it, or \<^verbatim>\<open>null\<close>. Both accessors of the storage can
  throw (storage disabled, quota exceeded).
\<close>

datatype stored_elem = Rec stored_consignment | Null_elem

datatype json_text = Empty_text | Unparseable | Json_other | Json_array "stored_elem list"

datatype stored_value = Arr "stored_elem list" | Non_array

record session_storage =
  item :: "json_text option"
  getItem_throws :: bool
  setItem_throws :: bool

definition getItem :: "session_storage \<Rightarrow> js_error + json_text option" where
  "getItem s = (if getItem_throws s then Inl DOMException else Inr (item s))"

definition setItem :: "stored_elem list \<Rightarrow> session_storage \<Rightarrow> js_error + session_storage" where
  "setItem xs s = (if setItem_throws s then Inl DOMException else Inr (s\<lparr>item := Some (Json_array xs)\<rparr>))"

fun JSON_parse :: "json_text \<Rightarrow> js_error + stored_value" where
  "JSON_parse Empty_text = Inl SyntaxError"
| "JSON_parse Unparseable = Inl SyntaxError"
| "JSON_parse Json_other = Inr Non_array"
| "JSON_parse (Json_array xs) = Inr (Arr xs)"

text \<open>\<^verbatim>\<open>str ? JSON.parse(str) : []\<close>: \<^verbatim>\<open>null\<close> and the empty string are falsy.\<close>

fun parse_or_empty :: "json_text option \<Rightarrow> js_error + stored_value" where
  "parse_or_empty None = Inr (Arr [])"
| "parse_or_empty (Some Empty_text) = Inr (Arr [])"
| "parse_or_empty (Some t) = JSON_parse t"

text \<open>
  \<^verbatim>\<open>Array.prototype.find\<close>, \<^verbatim>\<open>findIndex\<close> and \<^verbatim>\<open>filter\<close> with a callback that reads a
  property of the element: on a \<^verbatim>\<open>null\<close> element the read throws a TypeError, and a
  value that is not an array has none of the three methods.
\<close>

fun find_elem :: "(stored_consignment \<Rightarrow> bool) \<Rightarrow> stored_elem list \<Rightarrow> js_error + stored_consignment option" where
  "find_elem P [] = Inr None"
| "find_elem P (Null_elem # xs) = Inl TypeError"
| "find_elem P (Rec c # xs) = (if P c then Inr (Some c) else find_elem P xs)"

fun findIndex_elem :: "(stored_consignment \<Rightarrow> bool) \<Rightarrow> stored_elem list \<Rightarrow> js_error + nat option" where
  "findIndex_elem P [] = Inr None"
| "findIndex_elem P (Null_elem # xs) = Inl TypeError"
| "findIndex_elem P (Rec c # xs) =
     (if P c then Inr (Some 0)
      else bnd (findIndex_elem P xs) (\<lambda>r. Inr (map_option Suc r)))"

fun filter_elem :: "(stored_consignment \<Rightarrow> bool) \<Rightarrow> stored_elem list \<Rightarrow> js_error + stored_elem list" where
  "filter_elem P [] = Inr []"
| "filter_elem P (Null_elem # xs) = Inl TypeError"
| "filter_elem P (Rec c # xs) =
     bnd (filter_elem P xs) (\<lambda>ys. Inr (if P c then Rec c # ys else ys))"

fun array_find :: "(stored_consignment \<Rightarrow> bool) \<Rightarrow> stored_value \<Rightarrow> js_error + stored_consignment option" where
  "array_find P Non_array = Inl TypeError"
| "array_find P (Arr xs) = find_elem P xs"

definition getStoredConsignments :: "session_storage \<Rightarrow> stored_value" where
  "getStoredConsignments s =
     (case bnd (getItem s) parse_or_empty of Inl e \<Rightarrow> Arr [] | Inr v \<Rightarrow> v)"

definition findStoredConsignmentByLineItemId ::
  "item_id \<Rightarrow> int \<Rightarrow> session_storage \<Rightarrow> js_error + stored_consignment option" where
  "findStoredConsignmentByLineItemId lid q s =
     array_find (\<lambda>c. toString (lineItemId c) = toString lid \<and> quantity c = q)
       (getStoredConsignments s)"

definition findStoredConsignmentById ::
  "string \<Rightarrow> session_storage \<Rightarrow> js_error + stored_consignment option" where
  "findStoredConsignmentById cid s =
     array_find (\<lambda>c. consignmentId c = cid) (getStoredConsignments s)"

text \<open>The body of the \<^verbatim>\<open>try\<close> block of \<^verbatim>\<open>saveConsignmentToSession\<close>.\<close>

definition save_try :: "stored_consignment \<Rightarrow> session_storage \<Rightarrow> js_error + session_storage" where
  "save_try d s =
     bnd (getItem s) (\<lambda>str.
     bnd (parse_or_empty str) (\<lambda>v.
       case v of
         Non_array \<Rightarrow> Inl TypeError
       | Arr xs \<Rightarrow>
           bnd (findIndex_elem (\<lambda>c. consignmentId c = consignmentId d) xs) (\<lambda>existingIndex.
             setItem (case existingIndex of
                        Some k \<Rightarrow> xs[k := Rec d]
                      | None \<Rightarrow> xs @ [Rec d]) s)))"

text \<open>The \<^verbatim>\<open>catch\<close> logs the error and returns: the storage stays as it was.\<close>

definition saveConsignmentToSession ::
  "string \<Rightarrow> item_id \<Rightarrow> int \<Rightarrow> address option \<Rightarrow> string \<Rightarrow> delivery_date option
     \<Rightarrow> session_storage \<Rightarrow> session_storage" where
  "saveConsignmentToSession cid lid q addr oid dd s =
     (case save_try \<lparr>consignmentId = cid, lineItemId = lid, quantity = q, shippingAddress = addr,
                      selectedShippingOptionId = oid, selectedDeliveryDate = dd\<rparr> s of
        Inl e \<Rightarrow> s
      | Inr s' \<Rightarrow> s')"

definition updateStoredConsignment ::
  "string \<Rightarrow> item_id \<Rightarrow> int \<Rightarrow> address option \<Rightarrow> string \<Rightarrow> delivery_date option
     \<Rightarrow> session_storage \<Rightarrow> session_storage" where
  "updateStoredConsignment cid lid q addr oid dd s = saveConsignmentToSession cid lid q addr oid dd s"

definition remove_try :: "string \<Rightarrow> session_storage \<Rightarrow> js_error + session_storage" where
  "remove_try cid s =
     (case getStoredConsignments s of
        Non_array \<Rightarrow> Inl TypeError
      | Arr xs \<Rightarrow> bnd (filter_elem (\<lambda>c. consignmentId c \<noteq> cid) xs) (\<lambda>ys. setItem ys s))"

definition removeStoredConsignment :: "string \<Rightarrow> session_storage \<Rightarrow> session_storage" where
  "removeStoredConsignment cid s = (case remove_try cid s of Inl e \<Rightarrow> s | Inr s' \<Rightarrow> s')"


section \<open>CustomShipping.tsx: data\<close>

record line_item =
  li_id :: item_id
  li_name :: string
  li_quantity :: int

text \<open>A consignment as the Remote Checkout Gateway and the checkout SDK report it.\<close>

record consignment =
  c_id :: string
  c_lineItemIds :: "string list"
  c_shippingAddress :: "address option"
  c_selectedShippingOption :: "shipping_option option"
  c_availableShippingOptions :: "shipping_option list"

text \<open>\<^verbatim>\<open>ConsignmentWithItem\<close>: the component's entry for one line item.\<close>

record consignment_with_item =
  e_id :: "string option"
  e_lineItemId :: item_id
  e_shippingAddress :: "address option"
  e_selectedShippingOption :: "shipping_option option"
  e_availableShippingOptions :: "shipping_option list"

text \<open>
  The props the modelled handlers read. \<^verbatim>\<open>getFields\<close> is optional: \<open>validator\<close> is
  \<open>None\<close> when it is absent, and otherwise the verdict of the external
  \<^verbatim>\<open>isValidAddress(address, getFields(address.countryCode))\<close>.
\<close>

record props =
  physicalItems :: "line_item list"
  consignments :: "consignment list"
  validator :: "(address \<Rightarrow> bool) option"
  deleteConsignments_given :: bool

text \<open>The component's React state (\<^verbatim>\<open>useState\<close>), one field per state variable.\<close>

record ui_state =
  isLoading :: bool
  isEditing :: bool
  currentItemIndex :: int
  error :: "string option"
  selectedAddress :: "address option"
  selectedShippingOption :: "shipping_option option"
  itemConsignments :: "consignment_with_item list"
  configuredItems :: "(string \<times> bool) list"
  originalItemOrder :: "string list"

section \<open>The environment: gateway, checkout SDK, storage, console\<close>

record consignment_request =
  rq_address :: address
  rq_itemId :: item_id
  rq_quantity :: int

datatype request =
    GetCheckout
  | PutCheckout
  | PostConsignments "consignment_request list"
  | PutConsignment string consignment_request
  | PutShippingOption string string
  | DeleteConsignment string
  | LoadCheckout
  | DeleteConsignments

text \<open>
  How a request ends: a 2xx response, a response that is not \<^verbatim>\<open>ok\<close> (with the
  \<^verbatim>\<open>title\<close> of its body, possibly empty), or a rejected promise.
\<close>

datatype outcome = Ok | NotOk string | Rejected

text \<open>
  The Remote Checkout Gateway is an external collaborator. The environment holds the
  consignments the platform has (\<open>remote\<close>), the checkout the SDK's \<^verbatim>\<open>getCheckout()\<close>
  returns (\<open>sdk\<close>, \<open>None\<close> when there is no checkout), the session storage, the list of
  requests issued so far, the console and the \<^verbatim>\<open>onUnhandledError\<close> sink. How each
  request ends is a parameter (\<open>plan\<close>, by the number of requests issued before it and
  the request), and so is what the platform makes of a request that creates consignments
  or changes an address (\<open>assign\<close>).
\<close>

record world =
  remote :: "consignment list"
  sdk :: "consignment list option"
  storage :: session_storage
  calls :: "request list"
  console :: "string list"
  unhandled :: "js_error list"
  plan :: "nat \<Rightarrow> request \<Rightarrow> outcome"
  assign :: "request \<Rightarrow> consignment list \<Rightarrow> consignment list"

text \<open>
  Modelled from the spec: the gateway's \<^verbatim>\<open>setShippingOption(consignmentId, optionId)\<close>
  and \<^verbatim>\<open>deleteConsignment(consignmentId)\<close> and the \<^verbatim>\<open>deleteConsignments\<close> the component is
  given are not code of this repository. An accepted set-shipping-option makes the
  option with that id the selected one of the consignment with that id; an accepted
  delete removes the consignment with that id; and, in the spec's words, "consignments
  whose \<^verbatim>\<open>lineItemIds\<close> contains more than one id are treated as must-split: deleted
  wholesale", which is what an accepted \<^verbatim>\<open>deleteConsignments()\<close> does here.
\<close>

definition set_option :: "string \<Rightarrow> string \<Rightarrow> consignment \<Rightarrow> consignment" where
  "set_option cid oid c =
     (if c_id c = cid
      then c\<lparr>c_selectedShippingOption :=
               Some (case find (\<lambda>opt. option_id opt = oid) (c_availableShippingOptions c) of
                       Some opt \<Rightarrow> opt
                     | None \<Rightarrow> \<lparr>option_id = oid, description = []\<rparr>)\<rparr>
      else c)"

fun gateway_effect :: "request \<Rightarrow> world \<Rightarrow> consignment list" where
  "gateway_effect (PutShippingOption cid oid) w = map (set_option cid oid) (remote w)"
| "gateway_effect (DeleteConsignment cid) w = filter (\<lambda>c. c_id c \<noteq> cid) (remote w)"
| "gateway_effect DeleteConsignments w = filter (\<lambda>c. length (c_lineItemIds c) \<le> 1) (remote w)"
| "gateway_effect (PostConsignments body) w = assign w (PostConsignments body) (remote w)"
| "gateway_effect (PutConsignment cid body) w = assign w (PutConsignment cid body) (remote w)"
| "gateway_effect GetCheckout w = remote w"
| "gateway_effect PutCheckout w = remote w"
| "gateway_effect LoadCheckout w = remote w"

definition fetch :: "request \<Rightarrow> world \<Rightarrow> outcome \<times> world" where
  "fetch r w =
     (let out = plan w (length (calls w)) r in
      (out, w\<lparr>remote := (if out = Ok then gateway_effect r w else remote w),
              calls := calls w @ [r]\<rparr>))"

text \<open>The SDK's \<^verbatim>\<open>loadCheckout()\<close>: on success \<^verbatim>\<open>getCheckout()\<close> shows the platform's state.\<close>

definition loadCheckout :: "world \<Rightarrow> outcome \<times> world" where
  "loadCheckout w =
     (case fetch LoadCheckout w of
        (Ok, w1) \<Rightarrow> (Ok, w1\<lparr>sdk := Some (remote w1)\<rparr>)
      | (out, w1) \<Rightarrow> (out, w1))"

definition console_error :: "string \<Rightarrow> world \<Rightarrow> world" where
  "console_error msg w = w\<lparr>console := console w @ [msg]\<rparr>"

fun message :: "js_error \<Rightarrow> string" where
  "message (Error m) = m"
| "message InvalidAddressError = ''The address is invalid''"
| "message TypeError = ''TypeError''"
| "message SyntaxError = ''SyntaxError''"
| "message DOMException = ''DOMException''"
| "message NetworkError = ''Failed to fetch''"
| "message RequestError = ''RequestError''"

definition title_or :: "string \<Rightarrow> string \<Rightarrow> string" where
  "title_or title dflt = (if title = [] then dflt else title)"

section \<open>CustomShipping.tsx: helpers\<close>

text \<open>\<^verbatim>\<open>Array.prototype.findIndex\<close>: \<open>-1\<close> when no element satisfies the predicate.\<close>

fun findIndex :: "('a \<Rightarrow> bool) \<Rightarrow> 'a list \<Rightarrow> int" where
  "findIndex P [] = - 1"
| "findIndex P (x # xs) =
     (if P x then 0 else (let r = findIndex P xs in if r < 0 then - 1 else r + 1))"

text \<open>\<^verbatim>\<open>xs[i]\<close>: \<^verbatim>\<open>undefined\<close> out of range.\<close>

definition at_index :: "'a list \<Rightarrow> int \<Rightarrow> 'a option" where
  "at_index xs i = (if 0 \<le> i \<and> i < int (length xs) then Some (xs ! nat i) else None)"

text \<open>
  \<^verbatim>\<open>configuredItems\<close> is a plain object used as a dictionary: a key is the id as a
  string, and the list holds the object's own properties. A read \<^verbatim>\<open>obj[key]\<close> of a key
  the object does not own goes to \<^verbatim>\<open>Object.prototype\<close>, whose members (functions, and
  the prototype object under \<^verbatim>\<open>__proto__\<close>) are truthy; any other missing key reads as
  \<^verbatim>\<open>undefined\<close>, which is falsy.
\<close>

definition object_prototype_keys :: "string list" where
  "object_prototype_keys =
     [''constructor'', ''__defineGetter__'', ''__defineSetter__'', ''hasOwnProperty'',
      ''__lookupGetter__'', ''__lookupSetter__'', ''isPrototypeOf'', ''propertyIsEnumerable'',
      ''toString'', ''valueOf'', ''__proto__'', ''toLocaleString'']"

definition configured :: "(string \<times> bool) list \<Rightarrow> item_id \<Rightarrow> bool" where
  "configured m i =
     (case map_of m (toString i) of
        Some b \<Rightarrow> b
      | None \<Rightarrow> toString i \<in> set object_prototype_keys)"

text \<open>
  \<^verbatim>\<open>{ ...obj, [key]: b }\<close>: a computed key of an object literal always makes (or
  overwrites) an own property.
\<close>

definition set_configured :: "item_id \<Rightarrow> bool \<Rightarrow> (string \<times> bool) list \<Rightarrow> (string \<times> bool) list" where
  "set_configured i b m = AList.update (toString i) b m"

text \<open>
  The assignment \<^verbatim>\<open>obj[key] = b\<close> makes or overwrites an own property too, except for
  \<^verbatim>\<open>__proto__\<close> on an object that has no own property of that name: the setter
  inherited from \<^verbatim>\<open>Object.prototype\<close> runs, and it ignores a boolean.
\<close>

definition assign_configured :: "item_id \<Rightarrow> bool \<Rightarrow> (string \<times> bool) list \<Rightarrow> (string \<times> bool) list" where
  "assign_configured i b m =
     (if toString i = ''__proto__'' \<and> map_of m ''__proto__'' = None then m
      else AList.update (toString i) b m)"

definition getCurrentItem :: "props \<Rightarrow> ui_state \<Rightarrow> line_item option" where
  "getCurrentItem p st = at_index (physicalItems p) (currentItemIndex st)"

definition getCurrentConsignment :: "props \<Rightarrow> ui_state \<Rightarrow> consignment_with_item option" where
  "getCurrentConsignment p st =
     (case getCurrentItem p st of
        None \<Rightarrow> None
      | Some currentItem \<Rightarrow> find (\<lambda>c. e_lineItemId c = li_id currentItem) (itemConsignments st))"

definition fresh_entry :: "line_item \<Rightarrow> consignment_with_item" where
  "fresh_entry it =
     \<lparr>e_id = None, e_lineItemId = li_id it, e_shippingAddress = None,
      e_selectedShippingOption = None, e_availableShippingOptions = []\<rparr>"


definition has_id :: "consignment_with_item \<Rightarrow> bool" where
  "has_id c = (case e_id c of None \<Rightarrow> False | Some i \<Rightarrow> i \<noteq> [])"

text \<open>
  \<^verbatim>\<open>refreshCheckoutTotals\<close> and \<^verbatim>\<open>updateOrderSummaryDisplay\<close> catch and log every error.
  \<open>refresh_requests\<close> is the \<^verbatim>\<open>try\<close> block of the former; its \<^verbatim>\<open>finally\<close> clears \<^verbatim>\<open>isLoading\<close>.
\<close>

definition refresh_requests :: "world \<Rightarrow> world" where
  "refresh_requests w =
     (case sdk w of
        None \<Rightarrow> w
      | Some checkout \<Rightarrow>
          (case fetch GetCheckout w of
             (Rejected, w1) \<Rightarrow> console_error ''Error refreshing checkout totals:'' w1
           | (out, w1) \<Rightarrow>
               (case loadCheckout w1 of
                  (Ok, w2) \<Rightarrow> w2
                | (out2, w2) \<Rightarrow> console_error ''Error refreshing checkout totals:'' w2)))"

definition refreshCheckoutTotals :: "ui_state \<times> world \<Rightarrow> ui_state \<times> world" where
  "refreshCheckoutTotals sw =
     (case sw of (st, w) \<Rightarrow> (st\<lparr>isLoading := False\<rparr>, refresh_requests w))"

definition updateOrderSummaryDisplay :: "world \<Rightarrow> world" where
  "updateOrderSummaryDisplay w =
     (case sdk w of
        None \<Rightarrow> w
      | Some checkout \<Rightarrow>
          (case fetch PutCheckout w of
             (Rejected, w1) \<Rightarrow> console_error ''Error updating order summary display:'' w1
           | (out, w1) \<Rightarrow>
               (case loadCheckout w1 of
                  (Ok, w2) \<Rightarrow> w2
                | (out2, w2) \<Rightarrow> console_error ''Error updating order summary display:'' w2)))"

section \<open>CustomShipping.tsx: restoreConsignment and initConsignments\<close>

text \<open>The result is what the call throws (\<open>None\<close> when it returns) and the environment after it.\<close>

definition restoreConsignment :: "stored_consignment \<Rightarrow> world \<Rightarrow> js_error option \<times> world" where
  "restoreConsignment storedConsignment w =
     (case sdk w of
        None \<Rightarrow> (Some (Error ''Checkout not available''), w)
      | Some existingConsignments \<Rightarrow>
          (case find (\<lambda>c. toString (lineItemId storedConsignment) \<in> set (c_lineItemIds c))
                  existingConsignments of
             None \<Rightarrow> (None, w)
           | Some existingConsignment \<Rightarrow>
               (case fetch (PutShippingOption (c_id existingConsignment)
                              (selectedShippingOptionId storedConsignment)) w of
                  (Rejected, w1) \<Rightarrow>
                    (Some NetworkError, console_error ''Error restoring consignment:'' w1)
                | (NotOk title, w1) \<Rightarrow>
                    (Some (Error (title_or title ''Failed to restore consignment'')),
                     console_error ''Error restoring consignment:'' w1)
                | (Ok, w1) \<Rightarrow>
                    (case loadCheckout w1 of
                       (Ok, w2) \<Rightarrow> (None, w2)
                     | (out, w2) \<Rightarrow>
                         (Some RequestError, console_error ''Error restoring consignment:'' w2)))))"

text \<open>One round of the first loop of \<^verbatim>\<open>initConsignments\<close> (lines 186 to 217).\<close>

definition init_restore_item :: "props \<Rightarrow> line_item \<Rightarrow> world \<Rightarrow> js_error option \<times> world" where
  "init_restore_item p it w =
     (let physicalItem = find (\<lambda>physItem. toString (li_id physItem) = toString (li_id it)) (physicalItems p);
          itemQuantity = (case physicalItem of Some ph \<Rightarrow> li_quantity ph | None \<Rightarrow> 1);
          existingConsignment =
            find (\<lambda>c. length (c_lineItemIds c) = 1 \<and> hd (c_lineItemIds c) = toString (li_id it))
              (consignments p)
      in case existingConsignment of
           None \<Rightarrow> (None, w)
         | Some ec \<Rightarrow>
             if c_selectedShippingOption ec \<noteq> None then (None, w)
             else
               (case findStoredConsignmentByLineItemId (li_id it) itemQuantity (storage w) of
                  Inl e \<Rightarrow> (Some e, w)
                | Inr None \<Rightarrow> (None, w)
                | Inr (Some storedConsignment) \<Rightarrow>
                    if selectedShippingOptionId storedConsignment = [] then (None, w)
                    else
                      (case restoreConsignment storedConsignment w of
                         (None, w1) \<Rightarrow> (None, w1)
                       | (Some restoreError, w1) \<Rightarrow>
                           (None, console_error ''Error restoring consignment for item'' w1))))"

fun init_restore_loop :: "props \<Rightarrow> line_item list \<Rightarrow> world \<Rightarrow> js_error option \<times> world" where
  "init_restore_loop p [] w = (None, w)"
| "init_restore_loop p (it # its) w =
     (case init_restore_item p it w of
        (Some e, w1) \<Rightarrow> (Some e, w1)
      | (None, w1) \<Rightarrow> init_restore_loop p its w1)"

text \<open>
  The loop over \<^verbatim>\<open>consignmentsToRemove\<close> (lines 241 to 254): the response of the DELETE
  is not looked at, and the cache record goes whenever the consignment has an id.
\<close>

fun init_delete_loop :: "consignment list \<Rightarrow> world \<Rightarrow> js_error option \<times> world" where
  "init_delete_loop [] w = (None, w)"
| "init_delete_loop (c # cs) w =
     (case fetch (DeleteConsignment (c_id c)) w of
        (Rejected, w1) \<Rightarrow> (Some NetworkError, w1)
      | (out, w1) \<Rightarrow>
          init_delete_loop cs
            (if c_id c \<noteq> [] then w1\<lparr>storage := removeStoredConsignment (c_id c) (storage w1)\<rparr>
             else w1))"

definition configuredItemsMap :: "consignment_with_item list \<Rightarrow> (string \<times> bool) list" where
  "configuredItemsMap entries =
     fold (\<lambda>c m. assign_configured (e_lineItemId c)
                    (e_shippingAddress c \<noteq> None \<and> e_selectedShippingOption c \<noteq> None) m)
       entries []"

definition first_or_zero :: "int \<Rightarrow> int" where
  "first_or_zero firstUnconfiguredIndex =
     (if firstUnconfiguredIndex \<ge> 0 then firstUnconfiguredIndex else 0)"

text \<open>Lines 263 to 305: the entries after incomplete consignments were removed.\<close>

definition init_after_removal :: "props \<Rightarrow> consignment list \<Rightarrow> ui_state \<Rightarrow> ui_state" where
  "init_after_removal p remainingConsignments st =
     (let initialConsignments =
            map (\<lambda>it.
                  case find (\<lambda>c. toString (li_id it) \<in> set (c_lineItemIds c)) remainingConsignments of
                    None \<Rightarrow> fresh_entry it
                  | Some ec \<Rightarrow>
                      if c_selectedShippingOption ec \<noteq> None
                      then \<lparr>e_id = Some (c_id ec), e_lineItemId = li_id it,
                            e_shippingAddress = c_shippingAddress ec,
                            e_selectedShippingOption = c_selectedShippingOption ec,
                            e_availableShippingOptions = c_availableShippingOptions ec\<rparr>
                      else fresh_entry it)
              (physicalItems p);
          cmap = configuredItemsMap initialConsignments;
          firstUnconfiguredIndex = findIndex (\<lambda>it. \<not> configured cmap (li_id it)) (physicalItems p)
      in st\<lparr>itemConsignments := initialConsignments,
            configuredItems := cmap,
            currentItemIndex := first_or_zero firstUnconfiguredIndex\<rparr>)"

text \<open>Lines 336 to 395: the entries when nothing was removed and nothing is split.\<close>

definition init_mapped :: "props \<Rightarrow> consignment list \<Rightarrow> ui_state \<Rightarrow> ui_state" where
  "init_mapped p currentConsignments st =
     (let mapped0 =
            concat (map (\<lambda>c. map (\<lambda>lid.
                               \<lparr>e_id = Some (c_id c), e_lineItemId = IdStr lid,
                                e_shippingAddress = c_shippingAddress c,
                                e_selectedShippingOption = c_selectedShippingOption c,
                                e_availableShippingOptions = c_availableShippingOptions c\<rparr>)
                             (c_lineItemIds c))
                     currentConsignments);
          cmap0 = configuredItemsMap mapped0;
          configuredLineItemIds = map fst cmap0;
          missing = filter (\<lambda>it. toString (li_id it) \<notin> set configuredLineItemIds) (physicalItems p);
          mappedConsignments = mapped0 @ map fresh_entry missing;
          cmap = fold (\<lambda>it m. assign_configured (li_id it) False m) missing cmap0;
          firstUnconfiguredIndex = findIndex (\<lambda>it. \<not> configured cmap (li_id it)) (physicalItems p);
          st1 = st\<lparr>itemConsignments := mappedConsignments,
                   configuredItems := cmap,
                   currentItemIndex := first_or_zero firstUnconfiguredIndex\<rparr>
      in case at_index (physicalItems p) firstUnconfiguredIndex of
           None \<Rightarrow> st1
         | Some currentItem \<Rightarrow>
             (case find (\<lambda>c. e_lineItemId c = li_id currentItem) mappedConsignments of
                None \<Rightarrow> st1\<lparr>selectedAddress := None, selectedShippingOption := None\<rparr>
              | Some c \<Rightarrow>
                  if e_shippingAddress c \<noteq> None \<and> e_selectedShippingOption c \<noteq> None
                  then st1\<lparr>selectedAddress := e_shippingAddress c,
                           selectedShippingOption := e_selectedShippingOption c\<rparr>
                  else st1\<lparr>selectedAddress := None, selectedShippingOption := None\<rparr>))"

definition sdk_deleteConsignments :: "world \<Rightarrow> outcome \<times> world" where
  "sdk_deleteConsignments w =
     (case fetch DeleteConsignments w of
        (Ok, w1) \<Rightarrow> (Ok, w1\<lparr>sdk := Some (remote w1)\<rparr>)
      | (out, w1) \<Rightarrow> (out, w1))"

text \<open>The two \<^verbatim>\<open>await loadCheckout()\<close> that end the \<^verbatim>\<open>else\<close> branch (lines 399 and 405).\<close>

definition load_twice :: "ui_state \<Rightarrow> world \<Rightarrow> js_error option \<times> ui_state \<times> world" where
  "load_twice st w =
     (case loadCheckout w of
        (Ok, w1) \<Rightarrow>
          (case loadCheckout w1 of
             (Ok, w2) \<Rightarrow> (None, st, w2)
           | (out, w2) \<Rightarrow> (Some RequestError, st, w2))
      | (out, w1) \<Rightarrow> (Some RequestError, st, w1))"

definition init_remove ::
  "props \<Rightarrow> ui_state \<Rightarrow> consignment list \<Rightarrow> world \<Rightarrow> js_error option \<times> ui_state \<times> world" where
  "init_remove p st consignmentsToRemove w =
     (case init_delete_loop consignmentsToRemove w of
        (Some e, w1) \<Rightarrow> (Some e, st, w1)
      | (None, w1) \<Rightarrow>
          (case loadCheckout w1 of
             (Ok, w2) \<Rightarrow>
               (let remainingConsignments = (case sdk w2 of Some cs \<Rightarrow> cs | None \<Rightarrow> []);
                    st1 = init_after_removal p remainingConsignments st
                in case loadCheckout w2 of
                     (Ok, w3) \<Rightarrow> (None, st1, w3)
                   | (out, w3) \<Rightarrow> (Some RequestError, st1, w3))
           | (out, w2) \<Rightarrow> (Some RequestError, st, w2)))"

definition init_keep ::
  "props \<Rightarrow> ui_state \<Rightarrow> consignment list \<Rightarrow> world \<Rightarrow> js_error option \<times> ui_state \<times> world" where
  "init_keep p st currentConsignments w =
     (let consignmentsToSplit = filter (\<lambda>c. length (c_lineItemIds c) > 1) currentConsignments;
          st0 = st\<lparr>originalItemOrder := map (\<lambda>it. toString (li_id it)) (physicalItems p)\<rparr>
      in if length consignmentsToSplit > 0 \<and> deleteConsignments_given p then
           (case sdk_deleteConsignments w of
              (Ok, w1) \<Rightarrow>
                load_twice
                  (st0\<lparr>itemConsignments := map fresh_entry (physicalItems p),
                       configuredItems := [],
                       currentItemIndex := 0,
                       selectedAddress := None,
                       selectedShippingOption := None\<rparr>) w1
            | (out, w1) \<Rightarrow> (Some RequestError, st0, w1))
         else load_twice (init_mapped p currentConsignments st0) w)"

definition init_try :: "props \<Rightarrow> ui_state \<Rightarrow> world \<Rightarrow> js_error option \<times> ui_state \<times> world" where
  "init_try p st w =
     (case sdk w of
        None \<Rightarrow> (None, st, w)
      | Some checkout \<Rightarrow>
          (case init_restore_loop p (physicalItems p) w of
             (Some e, w1) \<Rightarrow> (Some e, st, w1)
           | (None, w1) \<Rightarrow>
               (case fetch GetCheckout w1 of
                  (Rejected, w2) \<Rightarrow> (Some NetworkError, st, w2)
                | (NotOk title, w2) \<Rightarrow> (Some (Error ''Failed to split line item''), st, w2)
                | (Ok, w2) \<Rightarrow>
                    (let currentConsignments = remote w2;
                         consignmentsToRemove =
                           filter (\<lambda>c. c_selectedShippingOption c = None) currentConsignments
                     in if length consignmentsToRemove > 0
                        then init_remove p st consignmentsToRemove w2
                        else init_keep p st currentConsignments w2))))"

definition initConsignments :: "props \<Rightarrow> ui_state \<Rightarrow> world \<Rightarrow> ui_state \<times> world" where
  "initConsignments p st w =
     (if length (physicalItems p) > 0 then
        (case init_try p
                (st\<lparr>isLoading := True,
                    originalItemOrder := map (\<lambda>it. toString (li_id it)) (physicalItems p)\<rparr>) w of
           (None, st1, w1) \<Rightarrow> (st1\<lparr>isLoading := False\<rparr>, w1)
         | (Some err, st1, w1) \<Rightarrow>
             (st1\<lparr>error := Some (''Error initializing: '' @ message err), isLoading := False\<rparr>, w1))
      else (st, w))"


section \<open>CustomShipping.tsx: the wizard's handlers\<close>

text \<open>
  A handler runs from the state of the render it was created in (\<open>st\<close>): every read of a
  state variable inside it sees that state. The \<^verbatim>\<open>catch\<close> of a handler sets the error
  message, leaves edit mode and reports to \<^verbatim>\<open>onUnhandledError\<close>.
\<close>

definition report :: "js_error \<Rightarrow> world \<Rightarrow> world" where
  "report err w = w\<lparr>unhandled := unhandled w @ [err]\<rparr>"

definition updateConsignmentShippingOption ::
  "string \<Rightarrow> string \<Rightarrow> world \<Rightarrow> (js_error + consignment list) \<times> world" where
  "updateConsignmentShippingOption cid shippingOptionId w =
     (case sdk w of
        None \<Rightarrow> (Inl (Error ''Checkout not available''), w)
      | Some checkout \<Rightarrow>
          (case fetch (PutShippingOption cid shippingOptionId) w of
             (Ok, w1) \<Rightarrow> (Inr (remote w1), w1)
           | (NotOk title, w1) \<Rightarrow> (Inl (Error (title_or title ''Error updating shipping option'')), w1)
           | (Rejected, w1) \<Rightarrow> (Inl NetworkError, w1)))"

definition handleShippingOptionSelect ::
  "props \<Rightarrow> shipping_option \<Rightarrow> ui_state \<Rightarrow> world \<Rightarrow> ui_state \<times> world" where
  "handleShippingOptionSelect p opt st w =
     (let st0 = st\<lparr>selectedShippingOption := Some opt, isLoading := True\<rparr>;
          currentIndex = findIndex (\<lambda>c. Some (e_lineItemId c) = map_option li_id (getCurrentItem p st))
                           (itemConsignments st);
          fallback =
            (None,
             (if currentIndex \<ge> 0 then
                st0\<lparr>itemConsignments :=
                      (itemConsignments st)[nat currentIndex :=
                        (itemConsignments st ! nat currentIndex)
                          \<lparr>e_selectedShippingOption := Some opt\<rparr>]\<rparr>
              else st0),
             updateOrderSummaryDisplay w);
          res =
            (case (getCurrentConsignment p st, getCurrentItem p st) of
               (Some currentConsignment, Some currentItem) \<Rightarrow>
                 (case e_id currentConsignment of
                    None \<Rightarrow> fallback
                  | Some currentId \<Rightarrow>
                      if currentId = [] then fallback
                      else
                        (case updateConsignmentShippingOption currentId (option_id opt) w of
                           (Inl err, w1) \<Rightarrow> (Some err, st0, w1)
                         | (Inr updatedConsignments, w1) \<Rightarrow>
                             (case find (\<lambda>c. toString (li_id currentItem) \<in> set (c_lineItemIds c))
                                     updatedConsignments of
                                None \<Rightarrow>
                                  (case refreshCheckoutTotals (st0, w1) of
                                     (st2, w2) \<Rightarrow> (None, st2, updateOrderSummaryDisplay w2))
                              | Some updatedConsignment \<Rightarrow>
                                  (let w2 = w1\<lparr>storage :=
                                              updateStoredConsignment (c_id updatedConsignment)
                                                (li_id currentItem) (li_quantity currentItem)
                                                (c_shippingAddress updatedConsignment) (option_id opt) None
                                                (storage w1)\<rparr>;
                                       st1 = (if currentIndex \<ge> 0 then
                                                st0\<lparr>itemConsignments :=
                                                      (itemConsignments st)[nat currentIndex :=
                                                        (itemConsignments st ! nat currentIndex)
                                                          \<lparr>e_id := Some (c_id updatedConsignment),
                                                           e_selectedShippingOption :=
                                                             c_selectedShippingOption updatedConsignment\<rparr>]\<rparr>
                                              else st0)
                                   in case refreshCheckoutTotals (st1, w2) of
                                        (st2, w3) \<Rightarrow> (None, st2, updateOrderSummaryDisplay w3)))))
             | other \<Rightarrow> fallback)
      in case res of
           (None, st1, w1) \<Rightarrow> (st1\<lparr>isLoading := False\<rparr>, w1)
         | (Some err, st1, w1) \<Rightarrow>
             (st1\<lparr>error := Some (message err), isEditing := False, isLoading := False\<rparr>,
              report err w1))"

definition createConsignment ::
  "props \<Rightarrow> address \<Rightarrow> item_id \<Rightarrow> int \<Rightarrow> world \<Rightarrow> (js_error + consignment list) \<times> world" where
  "createConsignment p address lid qty w =
     (case sdk w of
        None \<Rightarrow> (Inl (Error ''Checkout not available''), w)
      | Some checkout \<Rightarrow>
          (let body = \<lparr>rq_address = address, rq_itemId = lid, rq_quantity = qty\<rparr> in
           case find (\<lambda>c. length (c_lineItemIds c) = 1 \<and> hd (c_lineItemIds c) = toString lid)
                  (consignments p) of
             Some existingConsignment \<Rightarrow>
               (case fetch (PutConsignment (c_id existingConsignment) body) w of
                  (Ok, w1) \<Rightarrow> (Inr (remote w1), w1)
                | (NotOk title, w1) \<Rightarrow> (Inl (Error (title_or title ''Error updating consignment'')), w1)
                | (Rejected, w1) \<Rightarrow> (Inl NetworkError, w1))
           | None \<Rightarrow>
               (case fetch (PostConsignments [body]) w of
                  (Ok, w1) \<Rightarrow> (Inr (remote w1), w1)
                | (NotOk title, w1) \<Rightarrow> (Inl (Error (title_or title ''Error creating consignment'')), w1)
                | (Rejected, w1) \<Rightarrow> (Inl NetworkError, w1))))"

definition handleAddressSelect :: "props \<Rightarrow> address \<Rightarrow> ui_state \<Rightarrow> world \<Rightarrow> ui_state \<times> world" where
  "handleAddressSelect p address st w =
     (if (case validator p of None \<Rightarrow> False | Some isValid \<Rightarrow> \<not> isValid address) then
        (st\<lparr>error := Some ''Please provide a valid address with all required fields'',
            isEditing := False\<rparr>,
         report InvalidAddressError w)
      else
        (let st0 = st\<lparr>selectedAddress := Some address, isLoading := True\<rparr>;
             res =
               (case getCurrentItem p st of
                  None \<Rightarrow> (None, st0, w)
                | Some currentItem \<Rightarrow>
                    (case createConsignment p address (li_id currentItem) (li_quantity currentItem) w of
                       (Inl err, w1) \<Rightarrow> (Some err, st0, w1)
                     | (Inr updatedConsignments, w1) \<Rightarrow>
                         (case find (\<lambda>c. toString (li_id currentItem) \<in> set (c_lineItemIds c))
                                 updatedConsignments of
                            None \<Rightarrow> (None, st0, w1)
                          | Some newConsignment \<Rightarrow>
                              (let w2 = w1\<lparr>storage :=
                                          saveConsignmentToSession (c_id newConsignment)
                                            (li_id currentItem) (li_quantity currentItem) (Some address)
                                            (case c_selectedShippingOption newConsignment of
                                               Some so \<Rightarrow> option_id so | None \<Rightarrow> [])
                                            None (storage w1)\<rparr>;
                                   currentIndex = findIndex (\<lambda>c. e_lineItemId c = li_id currentItem)
                                                    (itemConsignments st)
                               in if currentIndex \<ge> 0 then
                                    (let st1 = st0\<lparr>itemConsignments :=
                                                   (itemConsignments st)[nat currentIndex :=
                                                     (itemConsignments st ! nat currentIndex)
                                                       \<lparr>e_id := Some (c_id newConsignment),
                                                        e_shippingAddress := Some address,
                                                        e_availableShippingOptions :=
                                                          c_availableShippingOptions newConsignment\<rparr>]\<rparr>
                                     in case loadCheckout w2 of
                                          (Ok, w3) \<Rightarrow> (None, st1, w3)
                                        | (out, w3) \<Rightarrow> (Some RequestError, st1, w3))
                                  else (None, st0, w2)))))
         in case res of
              (None, st1, w1) \<Rightarrow> (st1\<lparr>isLoading := False\<rparr>, w1)
            | (Some err, st1, w1) \<Rightarrow>
                (st1\<lparr>error := Some (message err), isEditing := False, isLoading := False\<rparr>,
                 report err w1)))"

text \<open>The \<^verbatim>\<open>while\<close> loop of \<^verbatim>\<open>handleContinue\<close> that skips configured items.\<close>

function skip_configured :: "line_item list \<Rightarrow> (string \<times> bool) list \<Rightarrow> nat \<Rightarrow> nat" where
  "skip_configured items m nextItemIndex =
     (if nextItemIndex < length items \<and> configured m (li_id (items ! nextItemIndex))
      then skip_configured items m (nextItemIndex + 1)
      else nextItemIndex)"
  by pat_completeness auto
termination
  by (relation "measure (\<lambda>(items, m, i). length items - i)") auto

declare skip_configured.simps [simp del]

text \<open>
  \<^verbatim>\<open>handleContinue\<close> has no \<^verbatim>\<open>try\<close>: a failing \<^verbatim>\<open>loadCheckout()\<close> rejects the handler's
  promise before any state is set. The first component of the result is what it throws.
\<close>

definition handleContinue :: "props \<Rightarrow> ui_state \<Rightarrow> world \<Rightarrow> js_error option \<times> ui_state \<times> world" where
  "handleContinue p st w =
     (if selectedAddress st = None then
        (None, st\<lparr>error := Some ''Please select a shipping address''\<rparr>, w)
      else
        (let hasShippingOptions =
               (case getCurrentConsignment p st of
                  None \<Rightarrow> False
                | Some c \<Rightarrow> length (e_availableShippingOptions c) > 0)
         in if hasShippingOptions \<and> selectedShippingOption st = None then
              (None, st\<lparr>error := Some ''Please select a shipping method''\<rparr>, w)
            else
              (case loadCheckout w of
                 (Ok, w1) \<Rightarrow>
                   (let w2 = updateOrderSummaryDisplay w1 in
                    case getCurrentItem p st of
                      None \<Rightarrow> (None, st, w2)
                    | Some currentItem \<Rightarrow>
                        (let updatedConfiguredItems =
                               set_configured (li_id currentItem) True (configuredItems st);
                             st1 = st\<lparr>configuredItems := updatedConfiguredItems, isEditing := False\<rparr>
                         in if currentItemIndex st < int (length (physicalItems p)) - 1 then
                              (case refreshCheckoutTotals (st1, w2) of
                                 (st2, w3) \<Rightarrow>
                                   (let nextItemIndex =
                                          skip_configured (physicalItems p) updatedConfiguredItems
                                            (nat (currentItemIndex st + 1))
                                    in if nextItemIndex < length (physicalItems p) then
                                         (let st3 = st2\<lparr>currentItemIndex := int nextItemIndex,
                                                        selectedAddress := None,
                                                        selectedShippingOption := None\<rparr>;
                                              nextItem = physicalItems p ! nextItemIndex
                                          in case find (\<lambda>c. e_lineItemId c = li_id nextItem)
                                                    (itemConsignments st) of
                                               None \<Rightarrow> (None, st3, w3)
                                             | Some nextConsignment \<Rightarrow>
                                                 if e_shippingAddress nextConsignment \<noteq> None
                                                    \<and> e_selectedShippingOption nextConsignment \<noteq> None
                                                    \<and> length (e_availableShippingOptions nextConsignment) > 0
                                                 then (None,
                                                       st3\<lparr>selectedAddress := e_shippingAddress nextConsignment,
                                                           selectedShippingOption :=
                                                             e_selectedShippingOption nextConsignment\<rparr>,
                                                       w3)
                                                 else (None, st3, w3))
                                       else (None, st2, w3)))
                            else (None, st1, w2)))
               | (out, w1) \<Rightarrow> (Some RequestError, st, w1))))"

section \<open>CustomShipping.tsx: handleSplitLineItem\<close>

definition baseAddress :: address where
  "baseAddress =
     [(''firstName'', []), (''lastName'', []), (''address1'', []), (''address2'', []),
      (''city'', ''Los Angeles''), (''stateOrProvince'', ''California''),
      (''stateOrProvinceCode'', ''CA''), (''countryCode'', ''US''), (''postalCode'', ''90017''),
      (''phone'', [])]"

text \<open>
  \<^verbatim>\<open>Array.from({ length: quantity }, ...)\<close>: one request per unit, each for one unit of
  the line item.
\<close>

definition splitConsignments :: "item_id \<Rightarrow> int \<Rightarrow> consignment_request list" where
  "splitConsignments lid qty =
     replicate (nat qty) \<lparr>rq_address = baseAddress, rq_itemId = IdStr (toString lid), rq_quantity = 1\<rparr>"

text \<open>
  One round of the loop over \<^verbatim>\<open>newItemConsignments\<close> (lines 1045 to 1081). An entry made
  from a consignment with no line item has \<^verbatim>\<open>undefined\<close> as its id, and
  \<^verbatim>\<open>item.lineItemId.toString()\<close> throws.
\<close>

definition split_restore_item ::
  "props \<Rightarrow> consignment list \<Rightarrow> consignment \<Rightarrow> world \<Rightarrow> js_error option \<times> world" where
  "split_restore_item p currentConsignments nc w =
     (case c_lineItemIds nc of
        [] \<Rightarrow> (Some TypeError, w)
      | lid # others \<Rightarrow>
          (let physicalItem = find (\<lambda>physItem. toString (li_id physItem) = lid) (physicalItems p);
               itemQuantity = (case physicalItem of Some ph \<Rightarrow> li_quantity ph | None \<Rightarrow> 1);
               existingConsignment =
                 find (\<lambda>c. length (c_lineItemIds c) = 1 \<and> hd (c_lineItemIds c) = lid) currentConsignments
           in case existingConsignment of
                None \<Rightarrow> (None, w)
              | Some ec \<Rightarrow>
                  if c_selectedShippingOption ec = None
                     \<or> (case c_shippingAddress ec of None \<Rightarrow> True | Some a \<Rightarrow> length a = 0)
                  then
                    (case findStoredConsignmentByLineItemId (IdStr lid) itemQuantity (storage w) of
                       Inl e \<Rightarrow> (Some e, w)
                     | Inr None \<Rightarrow> (None, w)
                     | Inr (Some storedConsignment) \<Rightarrow>
                         if selectedShippingOptionId storedConsignment = [] then (None, w)
                         else
                           (case restoreConsignment storedConsignment w of
                              (None, w1) \<Rightarrow> (None, w1)
                            | (Some restoreError, w1) \<Rightarrow>
                                (None, console_error ''Error restoring consignment for item'' w1)))
                  else (None, w)))"

fun split_restore_loop ::
  "props \<Rightarrow> consignment list \<Rightarrow> consignment list \<Rightarrow> world \<Rightarrow> js_error option \<times> world" where
  "split_restore_loop p currentConsignments [] w = (None, w)"
| "split_restore_loop p currentConsignments (nc # ncs) w =
     (case split_restore_item p currentConsignments nc w of
        (Some e, w1) \<Rightarrow> (Some e, w1)
      | (None, w1) \<Rightarrow> split_restore_loop p currentConsignments ncs w1)"

text \<open>Lines 1103 to 1119: every consignment of the re-read checkout is written to the cache.\<close>

fun split_save_loop ::
  "props \<Rightarrow> consignment list \<Rightarrow> session_storage \<Rightarrow> js_error option \<times> session_storage" where
  "split_save_loop p [] s = (None, s)"
| "split_save_loop p (c # cs) s =
     (case c_lineItemIds c of
        [] \<Rightarrow> (Some TypeError, s)
      | lid # others \<Rightarrow>
          (let physicalItem = find (\<lambda>physItem. toString (li_id physItem) = lid) (physicalItems p);
               itemQuantity = (case physicalItem of Some ph \<Rightarrow> li_quantity ph | None \<Rightarrow> 1)
           in split_save_loop p cs
                (saveConsignmentToSession (c_id c) (IdStr lid) itemQuantity
                   (Some (case c_shippingAddress c of Some a \<Rightarrow> a | None \<Rightarrow> baseAddress))
                   (case c_selectedShippingOption c of Some so \<Rightarrow> option_id so | None \<Rightarrow> [])
                   None s)))"

text \<open>
  \<^verbatim>\<open>mergeConsignments\<close> (lines 1157 to 1189) builds a \<^verbatim>\<open>Map\<close> keyed by line item id:
  \<^verbatim>\<open>set\<close> on a key the map has keeps the key's place, and on a new key appends it.
\<close>

fun map_set :: "consignment_with_item \<Rightarrow> consignment_with_item list \<Rightarrow> consignment_with_item list" where
  "map_set c [] = [c]"
| "map_set c (x # xs) = (if e_lineItemId x = e_lineItemId c then c # xs else x # map_set c xs)"

definition map_get :: "item_id \<Rightarrow> consignment_with_item list \<Rightarrow> consignment_with_item option" where
  "map_get k m = find (\<lambda>x. e_lineItemId x = k) m"

definition merge_existing :: "consignment_with_item \<Rightarrow> consignment_with_item list \<Rightarrow> consignment_with_item list" where
  "merge_existing c m = (if map_get (e_lineItemId c) m = None then map_set c m else m)"

definition newConsignmentObj :: "consignment \<Rightarrow> consignment_with_item" where
  "newConsignmentObj newConsignment =
     \<lparr>e_id = Some (c_id newConsignment),
      e_lineItemId = IdStr (hd (c_lineItemIds newConsignment)),
      e_shippingAddress = c_shippingAddress newConsignment,
      e_selectedShippingOption = c_selectedShippingOption newConsignment,
      e_availableShippingOptions = c_availableShippingOptions newConsignment\<rparr>"

definition merge_new :: "consignment \<Rightarrow> consignment_with_item list \<Rightarrow> consignment_with_item list" where
  "merge_new newConsignment m =
     (let lid = IdStr (hd (c_lineItemIds newConsignment));
          existingConsignment = map_get lid m
      in if existingConsignment = None
            \<or> (e_shippingAddress (newConsignmentObj newConsignment) \<noteq> None
                \<and> e_selectedShippingOption (newConsignmentObj newConsignment) \<noteq> None)
         then map_set (newConsignmentObj newConsignment) m
         else m)"

definition mergeConsignments ::
  "consignment_with_item list \<Rightarrow> consignment list \<Rightarrow> consignment_with_item list" where
  "mergeConsignments existingConsignments newConsignments =
     fold merge_new newConsignments (fold merge_existing existingConsignments [])"

text \<open>Lines 1201 to 1221, over the entries of the render the handler was created in.\<close>

definition split_configured :: "consignment_with_item list \<Rightarrow> (string \<times> bool) list \<Rightarrow> (string \<times> bool) list" where
  "split_configured entries m0 =
     fold (\<lambda>c m.
            let isFullyConfigured =
                  ((case e_shippingAddress c of None \<Rightarrow> False | Some a \<Rightarrow> length a > 0)
                   \<and> e_selectedShippingOption c \<noteq> None)
            in if \<not> isFullyConfigured \<or> \<not> configured m (e_lineItemId c)
               then assign_configured (e_lineItemId c) False m
               else m)
       entries m0"

definition split_try ::
  "props \<Rightarrow> item_id \<Rightarrow> int \<Rightarrow> ui_state \<Rightarrow> world \<Rightarrow> js_error option \<times> ui_state \<times> world" where
  "split_try p lid qty st w =
     (case sdk w of
        None \<Rightarrow> (Some (Error ''Checkout not available''), st, w)
      | Some checkout \<Rightarrow>
          (case find (\<lambda>it. li_id it = lid) (physicalItems p) of
             None \<Rightarrow> (Some (Error ''Item not found''), st, w)
           | Some currentItem \<Rightarrow>
               (case fetch (PostConsignments (splitConsignments lid qty)) w of
                  (Rejected, w1) \<Rightarrow> (Some NetworkError, st, w1)
                | (NotOk title, w1) \<Rightarrow> (Some (Error ''Failed to split line item''), st, w1)
                | (Ok, w1) \<Rightarrow>
                    (let updatedConsignments = remote w1 in
                     case split_restore_loop p updatedConsignments updatedConsignments w1 of
                       (Some e, w2) \<Rightarrow> (Some e, st, w2)
                     | (None, w2) \<Rightarrow>
                         (case fetch GetCheckout w2 of
                            (Rejected, w3) \<Rightarrow> (Some NetworkError, st, w3)
                          | (out, w3) \<Rightarrow>
                              (let newConsignments = (if out = Ok then remote w3 else []) in
                               case loadCheckout w3 of
                                 (Ok, w4) \<Rightarrow>
                                   (case split_save_loop p newConsignments (storage w4) of
                                      (Some e, s5) \<Rightarrow> (Some e, st, w4\<lparr>storage := s5\<rparr>)
                                    | (None, s5) \<Rightarrow>
                                        (case refreshCheckoutTotals
                                                (st\<lparr>itemConsignments :=
                                                      mergeConsignments (itemConsignments st) newConsignments,
                                                    configuredItems :=
                                                      split_configured (itemConsignments st) (configuredItems st),
                                                    currentItemIndex :=
                                                      findIndex (\<lambda>it. li_id it = lid) (physicalItems p),
                                                    isEditing := True,
                                                    selectedAddress := None,
                                                    selectedShippingOption := None\<rparr>,
                                                 w4\<lparr>storage := s5\<rparr>) of
                                           (st6, w6) \<Rightarrow> (None, st6, w6)))
                               | (out2, w4) \<Rightarrow> (Some RequestError, st, w4)))))))"

definition handleSplitLineItem :: "props \<Rightarrow> item_id \<Rightarrow> int \<Rightarrow> ui_state \<Rightarrow> world \<Rightarrow> ui_state \<times> world" where
  "handleSplitLineItem p lid qty st w =
     (if qty \<le> 1 then (st, w)
      else
        (case split_try p lid qty (st\<lparr>isLoading := True\<rparr>) w of
           (None, st1, w1) \<Rightarrow> (st1\<lparr>isLoading := False\<rparr>, w1)
         | (Some err, st1, w1) \<Rightarrow>
             (st1\<lparr>error := Some (''Error splitting line item: '' @ message err), isLoading := False\<rparr>,
              report err w1)))"

section \<open>CustomShipping.tsx: handleEditConsignment\<close>

text \<open>
  \<^verbatim>\<open>Object.values(configuredItems).some(isConfigured => isConfigured === false)\<close>.
\<close>

definition isAnyItemEditing :: "ui_state \<Rightarrow> bool" where
  "isAnyItemEditing st = list_ex (\<lambda>kv. snd kv = False) (configuredItems st)"

text \<open>
  The body of the \<^verbatim>\<open>try\<close>. \<^verbatim>\<open>physicalItems[index]?.id\<close> is \<^verbatim>\<open>undefined\<close> when the index
  is out of range, and the first \<^verbatim>\<open>itemId.toString()\<close> that is evaluated then throws.
\<close>

definition edit_try ::
  "props \<Rightarrow> int \<Rightarrow> ui_state \<Rightarrow> world \<Rightarrow> js_error option \<times> ui_state \<times> world" where
  "edit_try p index st w =
     (case sdk w of
        None \<Rightarrow> (Some (Error ''Checkout not available''), st, w)
      | Some checkout \<Rightarrow>
          (case fetch GetCheckout w of
             (Rejected, w1) \<Rightarrow> (Some NetworkError, st, w1)
           | (NotOk title, w1) \<Rightarrow> (Some (Error ''Failed to fetch checkout details''), st, w1)
           | (Ok, w1) \<Rightarrow>
               (case at_index (physicalItems p) index of
                  None \<Rightarrow>
                    if remote w1 \<noteq> [] \<or> configuredItems st \<noteq> [] then (Some TypeError, st, w1)
                    else
                      (case refreshCheckoutTotals
                              (st\<lparr>selectedAddress := None, selectedShippingOption := None\<rparr>, w1) of
                         (st2, w2) \<Rightarrow> (None, st2, w2))
                | Some it \<Rightarrow>
                    (let itemId = li_id it;
                         relevantConsignment =
                           find (\<lambda>c. toString itemId \<in> set (c_lineItemIds c)) (remote w1);
                         updatedConfiguredItems =
                           map (\<lambda>kv. (fst kv, fst kv \<noteq> toString itemId)) (configuredItems st);
                         st1 = st\<lparr>selectedAddress := None, selectedShippingOption := None\<rparr>
                     in case relevantConsignment of
                          None \<Rightarrow>
                            (case refreshCheckoutTotals (st1, w1) of (st2, w2) \<Rightarrow> (None, st2, w2))
                        | Some rc \<Rightarrow>
                            (let w2 = w1\<lparr>storage :=
                                        updateStoredConsignment (c_id rc) itemId (li_quantity it)
                                          (c_shippingAddress rc)
                                          (case c_selectedShippingOption rc of
                                             Some so \<Rightarrow> option_id so | None \<Rightarrow> [])
                                          None (storage w1)\<rparr>;
                                 consignmentIndex =
                                   findIndex (\<lambda>c. e_lineItemId c = itemId) (itemConsignments st);
                                 st2 =
                                   (if consignmentIndex \<ge> 0 then
                                      (let st3 = st1\<lparr>itemConsignments :=
                                                     (itemConsignments st)[nat consignmentIndex :=
                                                       (itemConsignments st ! nat consignmentIndex)
                                                         \<lparr>e_id := Some (c_id rc),
                                                          e_availableShippingOptions :=
                                                            c_availableShippingOptions rc,
                                                          e_selectedShippingOption :=
                                                            c_selectedShippingOption rc,
                                                          e_shippingAddress := c_shippingAddress rc\<rparr>]\<rparr>
                                       in if c_shippingAddress rc \<noteq> None
                                             \<and> c_selectedShippingOption rc \<noteq> None
                                          then st3\<lparr>selectedAddress := c_shippingAddress rc,
                                                   selectedShippingOption := c_selectedShippingOption rc\<rparr>
                                          else st3)
                                    else st1)
                             in case refreshCheckoutTotals
                                       (st2\<lparr>configuredItems := updatedConfiguredItems\<rparr>, w2) of
                                  (st4, w4) \<Rightarrow> (None, st4, w4))))))"

definition handleEditConsignment :: "props \<Rightarrow> int \<Rightarrow> ui_state \<Rightarrow> world \<Rightarrow> ui_state \<times> world" where
  "handleEditConsignment p index st w =
     (if isAnyItemEditing st then
        (st\<lparr>error := Some ''Please complete editing the current item first''\<rparr>, w)
      else
        (case edit_try p index (st\<lparr>isLoading := True, isEditing := True, currentItemIndex := index\<rparr>) w of
           (None, st1, w1) \<Rightarrow> (st1\<lparr>isLoading := False\<rparr>, w1)
         | (Some err, st1, w1) \<Rightarrow>
             (st1\<lparr>error := Some (''Error editing consignment: '' @ message err),
                  isEditing := False, currentItemIndex := - 1, isLoading := False\<rparr>,
              report err w1)))"

section \<open>CustomShipping.tsx: the completion signal\<close>

text \<open>The value the effect of lines 501 to 510 stores in \<^verbatim>\<open>allItemsConfigured\<close>.\<close>

definition allItemsConfigured :: "props \<Rightarrow> ui_state \<Rightarrow> bool" where
  "allItemsConfigured p st =
     (if length (physicalItems p) = 0 then False
      else list_all (\<lambda>it. configured (configuredItems st) (li_id it)) (physicalItems p))"

text \<open>
  The delivery-date variant of the component keeps the cart's line items with their
  options in \<^verbatim>\<open>cartItems\<close>. \<^verbatim>\<open>options\<close> may be missing, and an option's value may be.
\<close>

record cart_option =
  co_name :: string
  co_value :: "string option"

record cart_item =
  ci_id :: item_id
  ci_options :: "cart_option list option"

fun starts_with :: "string \<Rightarrow> string \<Rightarrow> bool" where
  "starts_with s [] = True"
| "starts_with [] (y # ys) = False"
| "starts_with (x # xs) (y # ys) = (x = y \<and> starts_with xs ys)"

text \<open>\<^verbatim>\<open>String.prototype.includes\<close>.\<close>

fun includes_str :: "string \<Rightarrow> string \<Rightarrow> bool" where
  "includes_str [] sub = (sub = [])"
| "includes_str (x # xs) sub = (starts_with (x # xs) sub \<or> includes_str xs sub)"

text \<open>
  The white space \<^verbatim>\<open>String.prototype.trim\<close> removes, among the code units below 256:
  tab, line feed, vertical tab, form feed, carriage return, space and the no-break
  space U+00A0. \<^verbatim>\<open>value.trim() !== ''\<close> holds when some character of the value is
  none of them.
\<close>

definition is_space :: "char \<Rightarrow> bool" where
  "is_space c =
     (c \<in> set [CHR 0x09, CHR 0x0A, CHR 0x0B, CHR 0x0C, CHR 0x0D, CHR 0x20, CHR 0xA0])"

definition trim_nonempty :: "string \<Rightarrow> bool" where
  "trim_nonempty s = list_ex (\<lambda>c. \<not> is_space c) s"

definition hasValidDeliveryDate :: "cart_item list \<Rightarrow> item_id \<Rightarrow> bool" where
  "hasValidDeliveryDate cartItems itemId =
     (case find (\<lambda>ci. ci_id ci = itemId) cartItems of
        None \<Rightarrow> False
      | Some cartItem \<Rightarrow>
          (case ci_options cartItem of
             None \<Rightarrow> False
           | Some opts \<Rightarrow>
               (case find (\<lambda>opt. co_name opt = ''Delivery Date'' \<or> includes_str (co_name opt) ''Delivery Date'') opts of
                  None \<Rightarrow> True
                | Some deliveryDateOption \<Rightarrow>
                    (case co_value deliveryDateOption of
                       None \<Rightarrow> False
                     | Some v \<Rightarrow> v \<noteq> [] \<and> trim_nonempty v))))"

text \<open>The effect of the delivery-date variant (lines 1690 to 1708 of that file).\<close>

definition allItemsConfigured_dates :: "props \<Rightarrow> cart_item list \<Rightarrow> ui_state \<Rightarrow> bool" where
  "allItemsConfigured_dates p cartItems st =
     (if length (physicalItems p) = 0 then False
      else list_all (\<lambda>it. configured (configuredItems st) (li_id it)
                          \<and> hasValidDeliveryDate cartItems (li_id it))
             (physicalItems p))"

text \<open>
  The render: nothing of the wizard is shown for an empty cart or while there is no
  current item; otherwise the final Continue button is there exactly when
  \<^verbatim>\<open>allItemsConfigured\<close> is true.
\<close>

definition final_continue_rendered :: "props \<Rightarrow> ui_state \<Rightarrow> bool" where
  "final_continue_rendered p st =
     (length (physicalItems p) \<noteq> 0 \<and> getCurrentItem p st \<noteq> None \<and> allItemsConfigured p st)"

section \<open>consignment-persistence.ts, lines 996 to 1119: handleSplitLineItem through the cart middleware\<close>

text \<open>
  After the cache module the file holds an earlier revision of the component, with the
  same state variables. Its \<^verbatim>\<open>handleSplitLineItem\<close> sends one request to an external cart
  middleware and then rebuilds the entries from the checkout the SDK reports. A checkout
  is kept here by the physical items of its cart and by its consignments.
\<close>

record checkout =
  ck_physicalItems :: "line_item list"
  ck_consignments :: "consignment list"

text \<open>
  The requests of this handler: the POST to the middleware's \<^verbatim>\<open>/cart/update\<close>, kept by
  the \<^verbatim>\<open>id\<close> and the \<^verbatim>\<open>quantity\<close> of the one element of its \<^verbatim>\<open>items\<close> (the product id,
  the variant id and the gift messages of that element are not kept), the GET of the
  checkout in \<^verbatim>\<open>refreshCheckoutTotals\<close>, and the SDK's \<^verbatim>\<open>loadCheckout()\<close>.
\<close>

datatype mw_request = MwSplit item_id int | MwGetCheckout | MwLoadCheckout

text \<open>
  How a request ends: a 2xx response, a response that is not \<^verbatim>\<open>ok\<close>, or a rejected
  promise. A response that is not \<^verbatim>\<open>ok\<close> is kept by what
  \<^verbatim>\<open>(await response.json()).error\<close> comes to: the error it throws (a body that is not
  JSON, or is \<^verbatim>\<open>null\<close>), or the text of that value, empty when the value is falsy.
\<close>

datatype mw_outcome = MwOk | MwNotOk "js_error + string" | MwRejected

text \<open>
  The middleware and the platform are external collaborators. The environment holds the
  checkout the platform has (\<open>mw_remote\<close>), the checkout \<^verbatim>\<open>getCheckout()\<close> returns
  (\<open>mw_sdk\<close>), the requests issued so far, the console and the \<^verbatim>\<open>onUnhandledError\<close>
  sink. How each request ends is a parameter (\<open>mw_plan\<close>), and so is what the middleware
  makes of the platform's checkout when it accepts a split (\<open>mw_split\<close>).
\<close>

record mw_world =
  mw_remote :: checkout
  mw_sdk :: "checkout option"
  mw_calls :: "mw_request list"
  mw_console :: "string list"
  mw_unhandled :: "js_error list"
  mw_plan :: "nat \<Rightarrow> mw_request \<Rightarrow> mw_outcome"
  mw_split :: "item_id \<Rightarrow> int \<Rightarrow> checkout \<Rightarrow> checkout"

definition mw_fetch :: "mw_request \<Rightarrow> mw_world \<Rightarrow> mw_outcome \<times> mw_world" where
  "mw_fetch r w =
     (let out = mw_plan w (length (mw_calls w)) r in
      (out, w\<lparr>mw_remote := (case r of
                               MwSplit lid qty \<Rightarrow>
                                 if out = MwOk then mw_split w lid qty (mw_remote w) else mw_remote w
                             | MwGetCheckout \<Rightarrow> mw_remote w
                             | MwLoadCheckout \<Rightarrow> mw_remote w),
              mw_calls := mw_calls w @ [r]\<rparr>))"

definition mw_loadCheckout :: "mw_world \<Rightarrow> mw_outcome \<times> mw_world" where
  "mw_loadCheckout w =
     (case mw_fetch MwLoadCheckout w of
        (MwOk, w1) \<Rightarrow> (MwOk, w1\<lparr>mw_sdk := Some (mw_remote w1)\<rparr>)
      | (out, w1) \<Rightarrow> (out, w1))"

text \<open>
  \<^verbatim>\<open>refreshCheckoutTotals\<close> of this revision (lines 809 to 838): it catches and logs
  every error, and its \<^verbatim>\<open>finally\<close> clears \<^verbatim>\<open>isLoading\<close>.
\<close>

definition refresh_requests_mw :: "mw_world \<Rightarrow> mw_world" where
  "refresh_requests_mw w =
     (case mw_sdk w of
        None \<Rightarrow> w
      | Some checkout \<Rightarrow>
          (case mw_fetch MwGetCheckout w of
             (MwRejected, w1) \<Rightarrow>
               w1\<lparr>mw_console := mw_console w1 @ [''Error refreshing checkout totals:'']\<rparr>
           | (out, w1) \<Rightarrow>
               (case mw_loadCheckout w1 of
                  (MwOk, w2) \<Rightarrow> w2
                | (out2, w2) \<Rightarrow>
                    w2\<lparr>mw_console := mw_console w2 @ [''Error refreshing checkout totals:'']\<rparr>)))"

definition refreshCheckoutTotals_mw :: "ui_state \<times> mw_world \<Rightarrow> ui_state \<times> mw_world" where
  "refreshCheckoutTotals_mw sw =
     (case sw of (st, w) \<Rightarrow> (st\<lparr>isLoading := False\<rparr>, refresh_requests_mw w))"

text \<open>
  The entry pushed for one physical item of the reloaded cart (lines 1064 to 1077):
  \<^verbatim>\<open>itemConsignment\<close> is the first consignment whose \<^verbatim>\<open>lineItemIds\<close> includes the item's
  id as a string.
\<close>

definition newItemConsignment :: "consignment list \<Rightarrow> line_item \<Rightarrow> consignment_with_item" where
  "newItemConsignment updatedConsignments physicalItem =
     (let itemConsignment =
            find (\<lambda>consignment. toString (li_id physicalItem) \<in> set (c_lineItemIds consignment))
              updatedConsignments
      in \<lparr>e_id = map_option c_id itemConsignment,
          e_lineItemId = li_id physicalItem,
          e_shippingAddress = (case itemConsignment of None \<Rightarrow> None | Some c \<Rightarrow> c_shippingAddress c),
          e_selectedShippingOption =
            (case itemConsignment of None \<Rightarrow> None | Some c \<Rightarrow> c_selectedShippingOption c),
          e_availableShippingOptions =
            (case itemConsignment of None \<Rightarrow> [] | Some c \<Rightarrow> c_availableShippingOptions c)\<rparr>)"

text \<open>
  Lines 1083 to 1092: \<^verbatim>\<open>newConfiguredItems[item.id] = Boolean(address && option)\<close>, on an
  object that starts empty.
\<close>

definition newConfiguredItems :: "consignment list \<Rightarrow> line_item list \<Rightarrow> (string \<times> bool) list" where
  "newConfiguredItems updatedConsignments updatedPhysicalItems =
     fold (\<lambda>item m.
             let itemConsignment =
                   find (\<lambda>consignment. toString (li_id item) \<in> set (c_lineItemIds consignment))
                     updatedConsignments
             in assign_configured (li_id item)
                  (case itemConsignment of
                     None \<Rightarrow> False
                   | Some c \<Rightarrow> c_shippingAddress c \<noteq> None \<and> c_selectedShippingOption c \<noteq> None)
                  m)
       updatedPhysicalItems []"

text \<open>
  The \<^verbatim>\<open>try\<close> block. With no checkout the handler returns without a request and
  without an error.
\<close>

definition split_try_mw ::
  "props \<Rightarrow> item_id \<Rightarrow> int \<Rightarrow> ui_state \<Rightarrow> mw_world \<Rightarrow> js_error option \<times> ui_state \<times> mw_world" where
  "split_try_mw p lid qty st w =
     (case mw_sdk w of
        None \<Rightarrow> (None, st, w)
      | Some checkout \<Rightarrow>
          (case find (\<lambda>it. li_id it = lid) (physicalItems p) of
             None \<Rightarrow> (Some (Error ''Item not found''), st, w)
           | Some originalItem \<Rightarrow>
               (case mw_fetch (MwSplit lid qty) w of
                  (MwRejected, w1) \<Rightarrow> (Some NetworkError, st, w1)
                | (MwNotOk (Inl e), w1) \<Rightarrow> (Some e, st, w1)
                | (MwNotOk (Inr m), w1) \<Rightarrow> (Some (Error (title_or m ''Failed to split item'')), st, w1)
                | (MwOk, w1) \<Rightarrow>
                    (case mw_loadCheckout w1 of
                       (MwOk, w2) \<Rightarrow>
                         (case mw_sdk w2 of
                            None \<Rightarrow> (Some (Error ''Failed to get updated checkout''), st, w2)
                          | Some updatedCheckout \<Rightarrow>
                              (let updatedPhysicalItems = ck_physicalItems updatedCheckout;
                                   updatedConsignments = ck_consignments updatedCheckout;
                                   flags = newConfiguredItems updatedConsignments updatedPhysicalItems;
                                   firstUnconfiguredIndex =
                                     findIndex (\<lambda>item. \<not> configured flags (li_id item))
                                       updatedPhysicalItems
                               in case refreshCheckoutTotals_mw
                                         (st\<lparr>itemConsignments :=
                                               map (newItemConsignment updatedConsignments)
                                                 updatedPhysicalItems,
                                             configuredItems := flags,
                                             currentItemIndex := first_or_zero firstUnconfiguredIndex,
                                             originalItemOrder :=
                                               map (\<lambda>item. toString (li_id item)) updatedPhysicalItems\<rparr>,
                                          w2) of
                                    (st3, w3) \<Rightarrow> (None, st3, w3)))
                     | (out, w2) \<Rightarrow> (Some RequestError, st, w2)))))"

definition handleSplitLineItem_mw ::
  "props \<Rightarrow> item_id \<Rightarrow> int \<Rightarrow> ui_state \<Rightarrow> mw_world \<Rightarrow> ui_state \<times> mw_world" where
  "handleSplitLineItem_mw p lid qty st w =
     (if qty \<le> 1 then (st, w)
      else
        (case split_try_mw p lid qty (st\<lparr>isLoading := True\<rparr>) w of
           (None, st1, w1) \<Rightarrow> (st1\<lparr>isLoading := False\<rparr>, w1)
         | (Some err, st1, w1) \<Rightarrow>
             (st1\<lparr>error := Some (''Error splitting item: '' @ message err), isLoading := False\<rparr>,
              w1\<lparr>mw_unhandled := mw_unhandled w1 @ [err]\<rparr>)))"

section \<open>Definitions used to state the properties\<close>

definition fresh_storage :: session_storage where
  "fresh_storage = \<lparr>item = None, getItem_throws = False, setItem_throws = False\<rparr>"

text \<open>
  The storages this module produces: it starts from a working session storage with no
  item, and only \<^verbatim>\<open>saveConsignmentToSession\<close> (also through
  \<^verbatim>\<open>updateStoredConsignment\<close>) and \<^verbatim>\<open>removeStoredConsignment\<close> write the item.
\<close>

inductive cache_reachable :: "session_storage \<Rightarrow> bool" where
  fresh: "cache_reachable fresh_storage"
| saved: "cache_reachable s \<Longrightarrow> cache_reachable (saveConsignmentToSession cid lid q addr oid dd s)"
| removed: "cache_reachable s \<Longrightarrow> cache_reachable (removeStoredConsignment cid s)"

text \<open>The list an upsert keyed by \<open>consignmentId\<close> produces, for the proofs.\<close>

fun upsert :: "stored_consignment \<Rightarrow> stored_consignment list \<Rightarrow> stored_consignment list" where
  "upsert d [] = [d]"
| "upsert d (c # cs) = (if consignmentId c = consignmentId d then d # cs else c # upsert d cs)"

text \<open>A working storage whose item is the array of the records \<open>cs\<close> (or is absent or empty).\<close>

definition healthy :: "session_storage \<Rightarrow> stored_consignment list \<Rightarrow> bool" where
  "healthy s cs =
     (\<not> getItem_throws s \<and> \<not> setItem_throws s \<and>
      (item s = Some (Json_array (map Rec cs))
       \<or> (cs = [] \<and> (item s = None \<or> item s = Some Empty_text))))"

text \<open>A cart of two line items, a state and an environment for the examples.\<close>

definition item_A :: line_item where
  "item_A = \<lparr>li_id = IdStr ''A'', li_name = ''A'', li_quantity = 1\<rparr>"

definition item_B :: line_item where
  "item_B = \<lparr>li_id = IdStr ''B'', li_name = ''B'', li_quantity = 2\<rparr>"

definition ex_props :: props where
  "ex_props =
     \<lparr>physicalItems = [item_A, item_B], consignments = [],
      validator = Some (\<lambda>a. a \<noteq> []), deleteConsignments_given = True\<rparr>"

definition ex_state :: ui_state where
  "ex_state =
     \<lparr>isLoading = False, isEditing = False, currentItemIndex = 0, error = None,
      selectedAddress = None, selectedShippingOption = None,
      itemConsignments = [fresh_entry item_A, fresh_entry item_B],
      configuredItems = [(''A'', False), (''B'', True)],
      originalItemOrder = [''A'', ''B'']\<rparr>"

definition ex_world :: world where
  "ex_world =
     \<lparr>remote = [], sdk = Some [], storage = fresh_storage, calls = [], console = [],
      unhandled = [], plan = (\<lambda>n r. Ok), assign = (\<lambda>r cs. cs)\<rparr>"

text \<open>
  The completion signal in the specification's words: an item is configured when some
  entry for it has both a shipping address and a selected shipping option, and all are
  configured when every physical line item is.
\<close>

definition isConfigured_spec :: "ui_state \<Rightarrow> line_item \<Rightarrow> bool" where
  "isConfigured_spec st it =
     list_ex (\<lambda>c. e_lineItemId c = li_id it \<and> e_shippingAddress c \<noteq> None
                  \<and> e_selectedShippingOption c \<noteq> None) (itemConsignments st)"

definition allConfigured_spec :: "props \<Rightarrow> ui_state \<Rightarrow> bool" where
  "allConfigured_spec p st = list_all (isConfigured_spec st) (physicalItems p)"

text \<open>A cart of one line item whose address has no shipping option to offer.\<close>

definition home :: address where
  "home = [(''firstName'', ''Ada''), (''city'', ''Austin''), (''countryCode'', ''US'')]"

definition one_item_props :: props where
  "one_item_props = \<lparr>physicalItems = [item_A], consignments = [],
      validator = None, deleteConsignments_given = False\<rparr>"

definition no_options_state :: ui_state where
  "no_options_state =
     \<lparr>isLoading = False, isEditing = True, currentItemIndex = 0, error = None,
      selectedAddress = Some home, selectedShippingOption = None,
      itemConsignments = [\<lparr>e_id = Some ''c1'', e_lineItemId = IdStr ''A'', e_shippingAddress = Some home,
                            e_selectedShippingOption = None, e_availableShippingOptions = []\<rparr>],
      configuredItems = [(''A'', False)],
      originalItemOrder = [''A'']\<rparr>"

text \<open>
  Item A with a consignment \<^verbatim>\<open>c-new\<close> that offers two shipping options. In
  \<open>clean_world\<close> the cache holds the record written when the address was chosen; in
  \<open>stale_world\<close> it also holds, before it, the record of an earlier consignment
  \<^verbatim>\<open>c-old\<close> of the same line item and quantity, as is the case after the platform dropped
  that consignment and a new one was created for the item.
\<close>

definition ground :: shipping_option where
  "ground = \<lparr>option_id = ''opt-1'', description = ''Ground''\<rparr>"

definition express :: shipping_option where
  "express = \<lparr>option_id = ''opt-2'', description = ''Express''\<rparr>"

definition consignment_new :: consignment where
  "consignment_new =
     \<lparr>c_id = ''c-new'', c_lineItemIds = [''A''], c_shippingAddress = Some home,
      c_selectedShippingOption = None, c_availableShippingOptions = [ground, express]\<rparr>"

definition select_state :: ui_state where
  "select_state =
     \<lparr>isLoading = False, isEditing = True, currentItemIndex = 0, error = None,
      selectedAddress = Some home, selectedShippingOption = None,
      itemConsignments = [\<lparr>e_id = Some ''c-new'', e_lineItemId = IdStr ''A'',
                            e_shippingAddress = Some home, e_selectedShippingOption = None,
                            e_availableShippingOptions = [ground, express]\<rparr>],
      configuredItems = [(''A'', False)],
      originalItemOrder = [''A'']\<rparr>"

definition clean_world :: world where
  "clean_world =
     \<lparr>remote = [consignment_new], sdk = Some [consignment_new],
      storage = saveConsignmentToSession ''c-new'' (IdStr ''A'') 1 (Some home) [] None fresh_storage,
      calls = [], console = [], unhandled = [], plan = (\<lambda>n r. Ok), assign = (\<lambda>r cs. cs)\<rparr>"

definition stale_world :: world where
  "stale_world =
     clean_world\<lparr>storage :=
       saveConsignmentToSession ''c-new'' (IdStr ''A'') 1 (Some home) [] None
         (saveConsignmentToSession ''c-old'' (IdStr ''A'') 1 (Some home) ''opt-1'' None fresh_storage)\<rparr>"

text \<open>The requests of \<open>w'\<close> are those of \<open>w\<close> followed by further ones.\<close>

definition grows :: "world \<Rightarrow> world \<Rightarrow> bool" where
  "grows w w' = (\<exists>rest. calls w' = calls w @ rest)"

text \<open>
  Item A is configured and item B (quantity 2) is being edited. The platform answers
  the split request with the consignments \<open>created\<close>, given by consignment id and line
  item id, each with the placeholder address and no shipping option selected.
\<close>

definition consignment_A :: consignment where
  "consignment_A =
     \<lparr>c_id = ''c-a'', c_lineItemIds = [''A''], c_shippingAddress = Some home,
      c_selectedShippingOption = Some ground, c_availableShippingOptions = [ground]\<rparr>"

definition split_consignment :: "string \<Rightarrow> string \<Rightarrow> consignment" where
  "split_consignment cid lid =
     \<lparr>c_id = cid, c_lineItemIds = [lid], c_shippingAddress = Some baseAddress,
      c_selectedShippingOption = None, c_availableShippingOptions = [ground]\<rparr>"

definition split_state :: ui_state where
  "split_state =
     \<lparr>isLoading = False, isEditing = False, currentItemIndex = 1, error = None,
      selectedAddress = None, selectedShippingOption = None,
      itemConsignments = [newConsignmentObj consignment_A, fresh_entry item_B],
      configuredItems = [(''A'', True), (''B'', False)],
      originalItemOrder = [''A'', ''B'']\<rparr>"

definition split_world :: "(string \<times> string) list \<Rightarrow> world" where
  "split_world created =
     \<lparr>remote = [consignment_A], sdk = Some [consignment_A], storage = fresh_storage,
      calls = [], console = [], unhandled = [], plan = (\<lambda>n r. Ok),
      assign = (\<lambda>r cs. cs @ map (\<lambda>(cid, lid). split_consignment cid lid) created)\<rparr>"

text \<open>The cache after the records of the consignments \<open>ids\<close> were removed, one after the other.\<close>

definition remove_all :: "string list \<Rightarrow> session_storage \<Rightarrow> session_storage" where
  "remove_all ids s = fold (\<lambda>i s. if i \<noteq> [] then removeStoredConsignment i s else s) ids s"

text \<open>
  A pass over a cart of item A whose consignment \<^verbatim>\<open>c-new\<close> has an address and no shipping
  option, the cache holding no option for it. In \<open>reread_fails_world\<close> the platform answers
  the re-read of the checkout with an error status.
\<close>

definition init_props :: props where
  "init_props = \<lparr>physicalItems = [item_A], consignments = [consignment_new],
      validator = None, deleteConsignments_given = False\<rparr>"

definition reread_fails_world :: world where
  "reread_fails_world =
     clean_world\<lparr>plan := (\<lambda>n r. if r = GetCheckout then NotOk [] else Ok)\<rparr>"

text \<open>Requests that set the shipping option of the consignment \<open>cid\<close>.\<close>

definition sets_option_of :: "string \<Rightarrow> request \<Rightarrow> bool" where
  "sets_option_of cid r = (case r of PutShippingOption c oid \<Rightarrow> c = cid | _ \<Rightarrow> False)"

text \<open>
  What identifies the consignments of a checkout: their ids and the line items they cover.
  The platform and the SDK are in step with the shape \<open>S\<close> when both show it.
\<close>

definition shape :: "consignment list \<Rightarrow> (string \<times> string list) list" where
  "shape cs = map (\<lambda>c. (c_id c, c_lineItemIds c)) cs"

definition in_sync :: "(string \<times> string list) list \<Rightarrow> world \<Rightarrow> bool" where
  "in_sync S w = (shape (remote w) = S \<and> map_option shape (sdk w) = Some S)"

text \<open>Every consignment \<open>cid\<close> of the platform has a selected shipping option.\<close>

definition completed :: "string \<Rightarrow> world \<Rightarrow> bool" where
  "completed cid w = list_all (\<lambda>x. c_id x = cid \<longrightarrow> c_selectedShippingOption x \<noteq> None) (remote w)"

text \<open>
  The platform has a consignment \<open>cid\<close> that covers the line items \<open>lids\<close> and has a
  selected shipping option.
\<close>

definition kept :: "string \<Rightarrow> string list \<Rightarrow> world \<Rightarrow> bool" where
  "kept cid lids w =
     list_ex (\<lambda>x. c_id x = cid \<and> c_lineItemIds x = lids \<and> c_selectedShippingOption x \<noteq> None)
       (remote w)"

text \<open>The message \<open>m\<close> was written to the console between \<open>w\<close> and \<open>w'\<close>.\<close>

definition logged_since :: "world \<Rightarrow> world \<Rightarrow> string \<Rightarrow> bool" where
  "logged_since w w' m = (m \<in> set (drop (length (console w)) (console w')))"

text \<open>
  The cart of item A with the incomplete consignment \<^verbatim>\<open>c-new\<close>, the cache holding the option
  \<^verbatim>\<open>opt-2\<close> chosen for it earlier. In \<open>restore_fails_world\<close> the platform refuses to set a
  shipping option on \<^verbatim>\<open>c-new\<close>. In \<open>bulk_world\<close> the checkout also has a complete
  consignment covering the two line items B and C, and the component was given
  \<^verbatim>\<open>deleteConsignments\<close>, so that the pass takes its reset branch.
\<close>

definition restore_world :: world where
  "restore_world =
     clean_world\<lparr>storage :=
       saveConsignmentToSession ''c-new'' (IdStr ''A'') 1 (Some home) ''opt-2'' None fresh_storage\<rparr>"

definition restore_fails_world :: world where
  "restore_fails_world =
     restore_world\<lparr>plan := (\<lambda>n r. if sets_option_of ''c-new'' r then NotOk [] else Ok)\<rparr>"

definition item_C :: line_item where
  "item_C = \<lparr>li_id = IdStr ''C'', li_name = ''C'', li_quantity = 1\<rparr>"

definition consignment_BC :: consignment where
  "consignment_BC =
     \<lparr>c_id = ''c-bc'', c_lineItemIds = [''B'', ''C''], c_shippingAddress = Some home,
      c_selectedShippingOption = Some ground, c_availableShippingOptions = [ground]\<rparr>"

definition bulk_props :: props where
  "bulk_props = \<lparr>physicalItems = [item_A, item_B, item_C],
      consignments = [consignment_new, consignment_BC],
      validator = None, deleteConsignments_given = True\<rparr>"

definition bulk_world :: world where
  "bulk_world =
     restore_world\<lparr>remote := [consignment_new, consignment_BC],
                   sdk := Some [consignment_new, consignment_BC]\<rparr>"

text \<open>
  A session storage whose quota is exhausted, so that every write throws, and one whose
  item is the JSON text \<^verbatim>\<open>null\<close>.
\<close>

definition full_storage :: session_storage where
  "full_storage = \<lparr>item = None, getItem_throws = False, setItem_throws = True\<rparr>"

definition null_storage :: session_storage where
  "null_storage = \<lparr>item = Some Json_other, getItem_throws = False, setItem_throws = False\<rparr>"

text \<open>
  The component's state before the first pass, and a session: a cart of the items A and
  B, held by the platform in one complete consignment covering both, so that the first
  pass takes its reset branch; the platform answers the request that creates a
  consignment with a new consignment \<^verbatim>\<open>c-a\<close> for A. After the pass the shopper gives A an
  address and a shipping option, continues, and then asks to edit A again.
\<close>

definition initial_state :: ui_state where
  "initial_state =
     \<lparr>isLoading = False, isEditing = False, currentItemIndex = 0, error = None,
      selectedAddress = None, selectedShippingOption = None, itemConsignments = [],
      configuredItems = [], originalItemOrder = []\<rparr>"

definition consignment_AB :: consignment where
  "consignment_AB =
     \<lparr>c_id = ''c-ab'', c_lineItemIds = [''A'', ''B''], c_shippingAddress = Some home,
      c_selectedShippingOption = Some ground, c_availableShippingOptions = [ground]\<rparr>"

definition consignment_A_new :: consignment where
  "consignment_A_new =
     \<lparr>c_id = ''c-a'', c_lineItemIds = [''A''], c_shippingAddress = Some home,
      c_selectedShippingOption = None, c_availableShippingOptions = [ground]\<rparr>"

definition reset_props :: props where
  "reset_props =
     \<lparr>physicalItems = [item_A, item_B], consignments = [consignment_AB],
      validator = None, deleteConsignments_given = True\<rparr>"

definition reset_world :: world where
  "reset_world =
     \<lparr>remote = [consignment_AB], sdk = Some [consignment_AB], storage = fresh_storage,
      calls = [], console = [], unhandled = [], plan = (\<lambda>n r. Ok),
      assign = (\<lambda>r cs. cs @ [consignment_A_new])\<rparr>"

definition after_reset :: "ui_state \<times> world" where
  "after_reset = initConsignments reset_props initial_state reset_world"

definition after_address :: "ui_state \<times> world" where
  "after_address = handleAddressSelect reset_props home (fst after_reset) (snd after_reset)"

definition after_option :: "ui_state \<times> world" where
  "after_option = handleShippingOptionSelect reset_props ground (fst after_address) (snd after_address)"

definition after_continue :: "js_error option \<times> ui_state \<times> world" where
  "after_continue = handleContinue reset_props (fst after_option) (snd after_option)"

definition after_edit :: "ui_state \<times> world" where
  "after_edit = handleEditConsignment reset_props 0 (fst (snd after_continue)) (snd (snd after_continue))"

text \<open>What a consignment is apart from its selected shipping option.\<close>

definition fields_of ::
  "consignment \<Rightarrow> string \<times> string list \<times> address option \<times> shipping_option list" where
  "fields_of c = (c_id c, c_lineItemIds c, c_shippingAddress c, c_availableShippingOptions c)"

text \<open>Requests that create consignments.\<close>

definition is_post :: "request \<Rightarrow> bool" where
  "is_post r = (case r of PostConsignments body \<Rightarrow> True | _ \<Rightarrow> False)"

text \<open>The environment of \<open>split_world\<close> with a platform that refuses every request.\<close>

definition split_refused_world :: world where
  "split_refused_world = (split_world [])\<lparr>plan := (\<lambda>n r. NotOk [])\<rparr>"

text \<open>
  The cart of A and B at the earlier revision of the component: the middleware answers a
  split of B by replacing B in the cart with two line items of one unit each.
\<close>

definition item_B1 :: line_item where
  "item_B1 = \<lparr>li_id = IdStr ''B1'', li_name = ''B'', li_quantity = 1\<rparr>"

definition item_B2 :: line_item where
  "item_B2 = \<lparr>li_id = IdStr ''B2'', li_name = ''B'', li_quantity = 1\<rparr>"

definition cart_checkout :: checkout where
  "cart_checkout = \<lparr>ck_physicalItems = [item_A, item_B], ck_consignments = [consignment_A]\<rparr>"

definition middleware_world :: mw_world where
  "middleware_world =
     \<lparr>mw_remote = cart_checkout, mw_sdk = Some cart_checkout, mw_calls = [], mw_console = [],
      mw_unhandled = [], mw_plan = (\<lambda>n r. MwOk),
      mw_split = (\<lambda>lid qty ck. ck\<lparr>ck_physicalItems := [item_A, item_B1, item_B2]\<rparr>)\<rparr>"

section \<open>The environment: what a request leaves unchanged\<close>

lemma fetch_fields [simp]:
  "storage (snd (fetch r w)) = storage w"
  "sdk (snd (fetch r w)) = sdk w"
  "plan (snd (fetch r w)) = plan w"
  "assign (snd (fetch r w)) = assign w"
  "console (snd (fetch r w)) = console w"
  "unhandled (snd (fetch r w)) = unhandled w"
  "calls (snd (fetch r w)) = calls w @ [r]"
  "fst (fetch r w) = plan w (length (calls w)) r"
  by (simp_all add: fetch_def Let_def)

lemma fetch_remote:
  "remote (snd (fetch r w)) =
     (if plan w (length (calls w)) r = Ok then gateway_effect r w else remote w)"
  by (simp add: fetch_def Let_def)

lemma loadCheckout_fields [simp]:
  "storage (snd (loadCheckout w)) = storage w"
  "plan (snd (loadCheckout w)) = plan w"
  "assign (snd (loadCheckout w)) = assign w"
  "remote (snd (loadCheckout w)) = remote w"
  "unhandled (snd (loadCheckout w)) = unhandled w"
  "console (snd (loadCheckout w)) = console w"
  "calls (snd (loadCheckout w)) = calls w @ [LoadCheckout]"
  "fst (loadCheckout w) = plan w (length (calls w)) LoadCheckout"
  by (auto simp: loadCheckout_def fetch_def Let_def split: outcome.splits prod.splits)

lemma loadCheckout_sdk:
  "sdk (snd (loadCheckout w)) =
     (if plan w (length (calls w)) LoadCheckout = Ok then Some (remote w) else sdk w)"
  by (auto simp: loadCheckout_def fetch_def Let_def split: outcome.splits prod.splits)

lemma console_error_fields [simp]:
  "storage (console_error m w) = storage w"
  "plan (console_error m w) = plan w"
  "assign (console_error m w) = assign w"
  "remote (console_error m w) = remote w"
  "sdk (console_error m w) = sdk w"
  "calls (console_error m w) = calls w"
  "unhandled (console_error m w) = unhandled w"
  "console (console_error m w) = console w @ [m]"
  by (simp_all add: console_error_def)

lemma refreshCheckoutTotals_pair [simp]:
  "refreshCheckoutTotals (st, w) = (st\<lparr>isLoading := False\<rparr>, refresh_requests w)"
  by (simp add: refreshCheckoutTotals_def)

lemma refresh_preserves:
  fixes f :: "world \<Rightarrow> 'a"
  assumes pf: "\<And>w. f (snd (fetch GetCheckout w)) = f w"
    and pl: "\<And>w. f (snd (loadCheckout w)) = f w"
    and pc: "\<And>m w. f (console_error m w) = f w"
  shows "f (refresh_requests w) = f w"
proof -
  obtain o1 w1 where f: "fetch GetCheckout w = (o1, w1)" by (cases "fetch GetCheckout w")
  obtain o2 w2 where l: "loadCheckout w1 = (o2, w2)" by (cases "loadCheckout w1")
  have w1: "f w1 = f w" using pf[of w] by (simp only: f snd_conv)
  have w2: "f w2 = f w" using pl[of w1] w1 by (simp only: l snd_conv)
  show ?thesis
    unfolding refresh_requests_def
    by (cases "sdk w"; cases o1; cases o2)
       (simp_all only: f l prod.case snd_conv option.case outcome.case pc w1 w2)
qed

lemma updateOrder_preserves:
  fixes f :: "world \<Rightarrow> 'a"
  assumes pf: "\<And>w. f (snd (fetch PutCheckout w)) = f w"
    and pl: "\<And>w. f (snd (loadCheckout w)) = f w"
    and pc: "\<And>m w. f (console_error m w) = f w"
  shows "f (updateOrderSummaryDisplay w) = f w"
proof -
  obtain o1 w1 where f: "fetch PutCheckout w = (o1, w1)" by (cases "fetch PutCheckout w")
  obtain o2 w2 where l: "loadCheckout w1 = (o2, w2)" by (cases "loadCheckout w1")
  have w1: "f w1 = f w" using pf[of w] by (simp only: f snd_conv)
  have w2: "f w2 = f w" using pl[of w1] w1 by (simp only: l snd_conv)
  show ?thesis
    unfolding updateOrderSummaryDisplay_def
    by (cases "sdk w"; cases o1; cases o2)
       (simp_all only: f l prod.case snd_conv option.case outcome.case pc w1 w2)
qed

lemma refresh_fields [simp]:
  "storage (refresh_requests w) = storage w"
  "plan (refresh_requests w) = plan w"
  "assign (refresh_requests w) = assign w"
  "remote (refresh_requests w) = remote w"
  "unhandled (refresh_requests w) = unhandled w"
proof -
  show "storage (refresh_requests w) = storage w"
    by (rule refresh_preserves) simp_all
  show "plan (refresh_requests w) = plan w"
    by (rule refresh_preserves) simp_all
  show "assign (refresh_requests w) = assign w"
    by (rule refresh_preserves) simp_all
  show "remote (refresh_requests w) = remote w"
    by (rule refresh_preserves) (simp_all add: fetch_remote)
  show "unhandled (refresh_requests w) = unhandled w"
    by (rule refresh_preserves) simp_all
qed

lemma updateOrder_fields [simp]:
  "storage (updateOrderSummaryDisplay w) = storage w"
  "plan (updateOrderSummaryDisplay w) = plan w"
  "assign (updateOrderSummaryDisplay w) = assign w"
  "remote (updateOrderSummaryDisplay w) = remote w"
  "unhandled (updateOrderSummaryDisplay w) = unhandled w"
proof -
  show "storage (updateOrderSummaryDisplay w) = storage w"
    by (rule updateOrder_preserves) simp_all
  show "plan (updateOrderSummaryDisplay w) = plan w"
    by (rule updateOrder_preserves) simp_all
  show "assign (updateOrderSummaryDisplay w) = assign w"
    by (rule updateOrder_preserves) simp_all
  show "remote (updateOrderSummaryDisplay w) = remote w"
    by (rule updateOrder_preserves) (simp_all add: fetch_remote)
  show "unhandled (updateOrderSummaryDisplay w) = unhandled w"
    by (rule updateOrder_preserves) simp_all
qed

lemma set_option_fields [simp]:
  "c_id (set_option cid oid c) = c_id c"
  "c_lineItemIds (set_option cid oid c) = c_lineItemIds c"
  "c_shippingAddress (set_option cid oid c) = c_shippingAddress c"
  "c_availableShippingOptions (set_option cid oid c) = c_availableShippingOptions c"
  by (simp_all add: set_option_def)

lemma find_map_set_option:
  "find (\<lambda>c. P (c_lineItemIds c)) (map (set_option cid oid) xs)
     = map_option (set_option cid oid) (find (\<lambda>c. P (c_lineItemIds c)) xs)"
  by (induction xs) auto

lemma fetch_ok:
  assumes "plan w (length (calls w)) r = Ok"
  shows "fetch r w = (Ok, snd (fetch r w))"
    and "remote (snd (fetch r w)) = gateway_effect r w"
  using assms by (simp_all add: prod_eq_iff fetch_remote)

lemma updateOption_ok:
  assumes sdk: "sdk w \<noteq> None"
    and ok: "plan w (length (calls w)) (PutShippingOption cid oid) = Ok"
  shows "updateConsignmentShippingOption cid oid w =
           (Inr (map (set_option cid oid) (remote w)), snd (fetch (PutShippingOption cid oid) w))"
proof -
  obtain ck where ck: "sdk w = Some ck" using sdk by blast
  show ?thesis
    unfolding updateConsignmentShippingOption_def ck option.case
    by (subst fetch_ok(1)[OF ok]) (simp add: fetch_ok(2)[OF ok])
qed

section \<open>The request log only grows\<close>

lemma grows_refl [simp]: "grows w w"
  by (simp add: grows_def)

lemma grows_trans: "grows w w1 \<Longrightarrow> grows w1 w2 \<Longrightarrow> grows w w2"
  by (auto simp: grows_def)

lemma grows_fetch [simp]: "grows w (snd (fetch r w))"
  by (simp add: grows_def)

lemma grows_load [simp]: "grows w (snd (loadCheckout w))"
  by (simp add: grows_def)

lemma grows_console [simp]: "grows w (console_error m w)"
  by (simp add: grows_def)

lemma grows_after_fetch: "grows (snd (fetch r w)) w' \<Longrightarrow> grows w w'"
  using grows_trans[OF grows_fetch] .

lemma grows_after_load: "grows (snd (loadCheckout w)) w' \<Longrightarrow> grows w w'"
  using grows_trans[OF grows_load] .

lemma grows_after_console: "grows w w' \<Longrightarrow> grows w (console_error m w')"
  by (simp add: grows_def)

lemma fetchD: "fetch r w = (out, w1) \<Longrightarrow> w1 = snd (fetch r w) \<and> out = plan w (length (calls w)) r"
  by (metis fetch_fields(8) fst_conv snd_conv)

lemma loadD: "loadCheckout w = (out, w1) \<Longrightarrow> w1 = snd (loadCheckout w) \<and> out = plan w (length (calls w)) LoadCheckout"
  by (metis loadCheckout_fields(8) fst_conv snd_conv)

lemma grows_refresh [simp]: "grows w (refresh_requests w)"
proof -
  have 1: "grows w (snd (fetch GetCheckout w))" by simp
  have 2: "grows w (snd (loadCheckout (snd (fetch GetCheckout w))))"
    by (rule grows_trans[OF grows_fetch grows_load])
  show ?thesis
    unfolding refresh_requests_def
    using 1 2
    by (auto split: option.split prod.split outcome.split dest!: fetchD loadD intro: grows_after_console)
qed

lemma grows_restore: "grows w (snd (restoreConsignment s w))"
proof -
  have 2: "\<And>r. grows w (snd (loadCheckout (snd (fetch r w))))"
    by (rule grows_trans[OF grows_fetch grows_load])
  show ?thesis
    unfolding restoreConsignment_def
    using 2
    by (auto split: option.split prod.split outcome.split dest!: fetchD loadD intro: grows_after_console)
qed

lemma grows_report: "grows w w' \<Longrightarrow> grows w (report e w')"
  by (simp add: grows_def report_def)

lemma grows_storage: "grows w w' \<Longrightarrow> grows w (w'\<lparr>storage := s\<rparr>)"
  by (simp add: grows_def)

lemma grows_then_fetch: "grows w w' \<Longrightarrow> grows w (snd (fetch r w'))"
  by (rule grows_trans[OF _ grows_fetch])

lemma grows_then_load: "grows w w' \<Longrightarrow> grows w (snd (loadCheckout w'))"
  by (rule grows_trans[OF _ grows_load])

lemma grows_then_refresh: "grows w w' \<Longrightarrow> grows w (refresh_requests w')"
  by (rule grows_trans[OF _ grows_refresh])

lemma grows_then_restore: "grows w w' \<Longrightarrow> grows w (snd (restoreConsignment s w'))"
  by (rule grows_trans[OF _ grows_restore])

lemma grows_split_item: "grows w (snd (split_restore_item p cs nc w))"
  unfolding split_restore_item_def Let_def
  using grows_restore
  by (auto split: list.split option.split sum.split prod.split
           intro: grows_after_console dest!: sndI)

lemma grows_split_loop: "grows w (snd (split_restore_loop p cs ncs w))"
proof (induction ncs arbitrary: w)
  case Nil
  show ?case by simp
next
  case (Cons nc ncs)
  have 1: "grows w (snd (split_restore_item p cs nc w))" by (rule grows_split_item)
  have 2: "grows w (snd (split_restore_loop p cs ncs (snd (split_restore_item p cs nc w))))"
    by (rule grows_trans[OF 1 Cons])
  show ?case
    using 1 2 by (auto split: prod.split option.split dest!: sndI)
qed

lemma grows_then_split_loop: "grows w w' \<Longrightarrow> grows w (snd (split_restore_loop p cs ncs w'))"
  by (rule grows_trans[OF _ grows_split_loop])

lemma split_try_grows:
  assumes "sdk w = Some ck" "find (\<lambda>it. li_id it = lid) (physicalItems p) = Some it"
  shows "grows (snd (fetch (PostConsignments (splitConsignments lid qty)) w))
               (snd (snd (split_try p lid qty st w)))"
  unfolding split_try_def Let_def
  using assms
  apply (simp add: split_beta split: outcome.split option.split)
  apply (intro conjI impI allI;
         (rule grows_refl | rule grows_then_refresh | rule grows_storage | rule grows_then_load
          | rule grows_then_fetch | rule grows_then_split_loop)+)
  done

lemma take_grows:
  assumes "grows w1 w'" and "calls w1 = cs @ [r]"
  shows "take (Suc (length cs)) (calls w') = cs @ [r]"
  using assms by (auto simp: grows_def)

section \<open>The session cache: lemmas\<close>

lemma findIndex_upsert:
  "\<exists>r. findIndex_elem (\<lambda>c. consignmentId c = consignmentId d) (map Rec cs) = Inr r \<and>
       (case r of Some k \<Rightarrow> (map Rec cs)[k := Rec d] | None \<Rightarrow> map Rec cs @ [Rec d])
         = map Rec (upsert d cs)"
proof (induction cs)
  case Nil
  show ?case by simp
next
  case (Cons c cs)
  then obtain r where r: "findIndex_elem (\<lambda>c. consignmentId c = consignmentId d) (map Rec cs) = Inr r"
    and u: "(case r of Some k \<Rightarrow> (map Rec cs)[k := Rec d] | None \<Rightarrow> map Rec cs @ [Rec d])
              = map Rec (upsert d cs)"
    by blast
  show ?case
  proof (cases "consignmentId c = consignmentId d")
    case True
    then show ?thesis by simp
  next
    case False
    then show ?thesis using r u by (cases r) (simp_all add: bnd_def)
  qed
qed

lemma upsert_ids:
  "map consignmentId (upsert d cs) =
    (if consignmentId d \<in> set (map consignmentId cs) then map consignmentId cs
     else map consignmentId cs @ [consignmentId d])"
  by (induction cs) auto

lemma upsert_distinct:
  "distinct (map consignmentId cs) \<Longrightarrow> distinct (map consignmentId (upsert d cs))"
  by (simp add: upsert_ids)

lemma filter_none:
  "consignmentId d \<notin> consignmentId ` set cs \<Longrightarrow>
     filter (\<lambda>c. consignmentId c = consignmentId d) cs = []"
  by (induction cs) auto

lemma upsert_filter:
  "distinct (map consignmentId cs) \<Longrightarrow>
     filter (\<lambda>c. consignmentId c = consignmentId d) (upsert d cs) = [d]"
  by (induction cs) (auto simp: filter_none)

lemma upsert_idem: "upsert d (upsert d cs) = upsert d cs"
  by (induction cs) auto

lemma find_elem_recs: "find_elem P (map Rec cs) = Inr (List.find P cs)"
  by (induction cs) auto

lemma filter_elem_recs: "filter_elem P (map Rec cs) = Inr (map Rec (filter P cs))"
  by (induction cs) (auto simp: bnd_def)

lemma healthy_get: "healthy s cs \<Longrightarrow> getStoredConsignments s = Arr (map Rec cs)"
  by (auto simp: healthy_def getStoredConsignments_def getItem_def bnd_def)

lemma save_try_healthy:
  assumes "healthy s cs"
  shows "save_try d s = Inr (s\<lparr>item := Some (Json_array (map Rec (upsert d cs)))\<rparr>)"
proof -
  obtain r where r: "findIndex_elem (\<lambda>c. consignmentId c = consignmentId d) (map Rec cs) = Inr r"
    and u: "(case r of Some k \<Rightarrow> (map Rec cs)[k := Rec d] | None \<Rightarrow> map Rec cs @ [Rec d])
              = map Rec (upsert d cs)"
    using findIndex_upsert by blast
  have "save_try d s = setItem (map Rec (upsert d cs)) s"
    using assms r u unfolding save_try_def
    by (cases "item s") (auto simp: healthy_def getItem_def bnd_def)
  then show ?thesis using assms by (simp add: setItem_def healthy_def)
qed

lemma save_healthy:
  assumes "healthy s cs"
  shows "healthy (saveConsignmentToSession cid lid q addr oid dd s)
            (upsert \<lparr>consignmentId = cid, lineItemId = lid, quantity = q, shippingAddress = addr,
                      selectedShippingOptionId = oid, selectedDeliveryDate = dd\<rparr> cs)"
  using assms save_try_healthy[OF assms]
  by (simp add: saveConsignmentToSession_def healthy_def)

lemma remove_healthy:
  assumes "healthy s cs"
  shows "healthy (removeStoredConsignment cid s) (filter (\<lambda>c. consignmentId c \<noteq> cid) cs)"
  using assms healthy_get[OF assms]
  by (simp add: removeStoredConsignment_def remove_try_def filter_elem_recs bnd_def setItem_def
        healthy_def)

lemma reachable_healthy:
  "cache_reachable s \<Longrightarrow> \<exists>cs. healthy s cs \<and> distinct (map consignmentId cs)"
proof (induction rule: cache_reachable.induct)
  case fresh
  show ?case by (rule exI[of _ "[]"]) (simp add: healthy_def fresh_storage_def)
next
  case (saved s cid lid q addr oid dd)
  then obtain cs where "healthy s cs" "distinct (map consignmentId cs)" by blast
  then show ?case using save_healthy upsert_distinct by blast
next
  case (removed s cid)
  then obtain cs where "healthy s cs" "distinct (map consignmentId cs)" by blast
  then show ?case using remove_healthy distinct_map_filter by blast
qed

lemma healthy_unique:
  assumes h: "healthy s cs'" and recs: "getStoredConsignments s = Arr (map Rec cs)"
  shows "cs' = cs"
proof -
  have "Arr (map Rec cs') = Arr (map Rec cs)" using healthy_get[OF h] recs by (simp only:)
  then have m: "map Rec cs' = map Rec cs" by (simp only: stored_value.inject)
  have i: "inj Rec" by (rule injI) (simp only: stored_elem.inject)
  show ?thesis using m by (simp only: inj_map_eq_map[OF i])
qed

lemma find_upsert:
  assumes "P d"
    and "\<forall>r\<in>set cs. P r \<longrightarrow> consignmentId r = consignmentId d"
  shows "find P (upsert d cs) = Some d"
  using assms
proof (induction cs)
  case Nil
  then show ?case by simp
next
  case (Cons c cs)
  show ?case
  proof (cases "consignmentId c = consignmentId d")
    case True
    have "upsert d (c # cs) = d # cs" using True by simp
    then show ?thesis using Cons.prems(1) by simp
  next
    case False
    have np: "\<not> P c" using Cons.prems(2) False by (simp only: list.set insert_iff ball_simps) blast
    have a: "\<forall>r\<in>set cs. P r \<longrightarrow> consignmentId r = consignmentId d"
      using Cons.prems(2) by (simp only: list.set ball_simps) blast
    have ih: "find P (upsert d cs) = Some d" by (rule Cons.IH[OF Cons.prems(1) a])
    have "upsert d (c # cs) = c # upsert d cs" using False by simp
    then show ?thesis using np ih by simp
  qed
qed

section \<open>The session cache: properties\<close>

lemma upsert_others:
  "filter (\<lambda>c. consignmentId c \<noteq> consignmentId d) (upsert d cs)
     = filter (\<lambda>c. consignmentId c \<noteq> consignmentId d) cs"
  by (induction cs) simp_all

lemma save_swallowed:
  "getItem_throws s \<or> setItem_throws s \<Longrightarrow> saveConsignmentToSession cid lid q addr oid dd s = s"
  by (auto simp: saveConsignmentToSession_def save_try_def getItem_def setItem_def bnd_def
        split: sum.split option.split stored_value.split)

text \<open>
  C9. \<^verbatim>\<open>saveConsignmentToSession\<close> is an upsert keyed by \<open>consignmentId\<close>. Every storage
  this module produces from a working, empty session storage can be read and written
  and holds an array of records with pairwise distinct ids (or no item). In a storage
  that can be read and written and whose item is absent, empty or an array of records
  with pairwise distinct ids, a save leaves an array of records with pairwise distinct
  ids, in which exactly one record has the saved id, and it is the saved data; the
  records of the other ids are kept, in their order; and a second save with the same
  arguments changes nothing. A save whose read or write of the storage throws is
  swallowed: the storage stays as it was.
\<close>

theorem saveConsignmentToSession_upsert:
  "(cache_reachable s \<longrightarrow> (\<exists>cs. healthy s cs \<and> distinct (map consignmentId cs)))
   \<and> (healthy s cs \<and> distinct (map consignmentId cs) \<longrightarrow>
        (\<exists>cs'. saveConsignmentToSession cid lid q addr oid dd s
                  = s\<lparr>item := Some (Json_array (map Rec cs'))\<rparr>
              \<and> getStoredConsignments (saveConsignmentToSession cid lid q addr oid dd s)
                  = Arr (map Rec cs')
              \<and> distinct (map consignmentId cs')
              \<and> filter (\<lambda>c. consignmentId c = cid) cs' =
                   [\<lparr>consignmentId = cid, lineItemId = lid, quantity = q, shippingAddress = addr,
                     selectedShippingOptionId = oid, selectedDeliveryDate = dd\<rparr>]
              \<and> filter (\<lambda>c. consignmentId c \<noteq> cid) cs' = filter (\<lambda>c. consignmentId c \<noteq> cid) cs)
        \<and> saveConsignmentToSession cid lid q addr oid dd
             (saveConsignmentToSession cid lid q addr oid dd s)
            = saveConsignmentToSession cid lid q addr oid dd s)
   \<and> (getItem_throws s \<or> setItem_throws s \<longrightarrow>
        saveConsignmentToSession cid lid q addr oid dd s = s)"
proof -
  let ?d = "\<lparr>consignmentId = cid, lineItemId = lid, quantity = q, shippingAddress = addr,
                  selectedShippingOptionId = oid, selectedDeliveryDate = dd\<rparr>"
  let ?s' = "saveConsignmentToSession cid lid q addr oid dd s"
  have A: "\<exists>cs. healthy s cs \<and> distinct (map consignmentId cs)" if "cache_reachable s"
    by (rule reachable_healthy[OF that])
  have B: "(\<exists>cs'. ?s' = s\<lparr>item := Some (Json_array (map Rec cs'))\<rparr>
              \<and> getStoredConsignments ?s' = Arr (map Rec cs')
              \<and> distinct (map consignmentId cs')
              \<and> filter (\<lambda>c. consignmentId c = cid) cs' = [?d]
              \<and> filter (\<lambda>c. consignmentId c \<noteq> cid) cs' = filter (\<lambda>c. consignmentId c \<noteq> cid) cs)
        \<and> saveConsignmentToSession cid lid q addr oid dd ?s' = ?s'"
    if h: "healthy s cs" and d: "distinct (map consignmentId cs)"
  proof -
    have h': "healthy ?s' (upsert ?d cs)" using save_healthy[OF h] .
    have e1: "?s' = s\<lparr>item := Some (Json_array (map Rec (upsert ?d cs)))\<rparr>"
      using save_try_healthy[OF h, of ?d] by (simp add: saveConsignmentToSession_def)
    have e2: "saveConsignmentToSession cid lid q addr oid dd ?s'
                = ?s'\<lparr>item := Some (Json_array (map Rec (upsert ?d (upsert ?d cs))))\<rparr>"
      using save_try_healthy[OF h', of ?d] by (simp add: saveConsignmentToSession_def)
    have idem: "saveConsignmentToSession cid lid q addr oid dd ?s' = ?s'"
      unfolding e2 upsert_idem by (subst (2) e1, subst e1) simp
    have f: "filter (\<lambda>c. consignmentId c = cid) (upsert ?d cs) = [?d]"
      using upsert_filter[OF d, of ?d] by simp
    have o: "filter (\<lambda>c. consignmentId c \<noteq> cid) (upsert ?d cs)
               = filter (\<lambda>c. consignmentId c \<noteq> cid) cs"
      using upsert_others[of ?d cs] by simp
    show ?thesis
      using e1 healthy_get[OF h'] upsert_distinct[OF d, of ?d] f o idem by blast
  qed
  have C: "?s' = s" if "getItem_throws s \<or> setItem_throws s"
    by (rule save_swallowed[OF that])
  show ?thesis using A B C by blast
qed


theorem saveConsignmentToSession_upsert_witness:
  "cache_reachable (saveConsignmentToSession ''c1'' (IdStr ''A'') 1 None ''opt-1'' None fresh_storage)
   \<and> healthy (saveConsignmentToSession ''c1'' (IdStr ''A'') 1 None ''opt-1'' None fresh_storage)
        [\<lparr>consignmentId = ''c1'', lineItemId = IdStr ''A'', quantity = 1, shippingAddress = None,
          selectedShippingOptionId = ''opt-1'', selectedDeliveryDate = None\<rparr>]
   \<and> saveConsignmentToSession ''c1'' (IdStr ''A'') 1 None ''opt-2'' None
        (saveConsignmentToSession ''c1'' (IdStr ''A'') 1 None ''opt-2'' None
          (saveConsignmentToSession ''c1'' (IdStr ''A'') 1 None ''opt-1'' None fresh_storage))
      = saveConsignmentToSession ''c1'' (IdStr ''A'') 1 None ''opt-2'' None
          (saveConsignmentToSession ''c1'' (IdStr ''A'') 1 None ''opt-1'' None fresh_storage)
   \<and> setItem_throws full_storage
   \<and> saveConsignmentToSession ''c1'' (IdStr ''A'') 1 None ''opt-1'' None full_storage = full_storage"
proof -
  let ?s = "saveConsignmentToSession ''c1'' (IdStr ''A'') 1 None ''opt-1'' None fresh_storage"
  let ?r = "\<lparr>consignmentId = ''c1'', lineItemId = IdStr ''A'', quantity = 1, shippingAddress = None,
          selectedShippingOptionId = ''opt-1'', selectedDeliveryDate = None\<rparr>"
  have r: "cache_reachable ?s" by (rule cache_reachable.saved[OF cache_reachable.fresh])
  have h: "healthy ?s [?r]"
    by (simp add: saveConsignmentToSession_def save_try_def getItem_def setItem_def bnd_def
          fresh_storage_def healthy_def)
  have d: "distinct (map consignmentId [?r])" by simp
  have t: "setItem_throws full_storage" by (simp add: full_storage_def)
  show ?thesis
    using r h d t
      saveConsignmentToSession_upsert[of ?s "[?r]" "''c1''" "IdStr ''A''" 1 None "''opt-2''" None]
      saveConsignmentToSession_upsert[of full_storage "[]" "''c1''" "IdStr ''A''" 1 None "''opt-1''" None]
    by blast
qed

text \<open>
  As stated for any save, the claim fails: when writing to the session storage throws
  (the quota is exhausted), the save returns normally and the cache holds no record of
  the saved id.
\<close>

theorem saveConsignmentToSession_lost_counterexample:
  "getStoredConsignments
      (saveConsignmentToSession ''c1'' (IdStr ''A'') 1 None ''opt-1'' None full_storage) = Arr []
   \<and> findStoredConsignmentById ''c1''
        (saveConsignmentToSession ''c1'' (IdStr ''A'') 1 None ''opt-1'' None full_storage) = Inr None"
  by (simp add: saveConsignmentToSession_def save_try_def getItem_def setItem_def bnd_def
        full_storage_def getStoredConsignments_def findStoredConsignmentById_def)

text \<open>
  C10. The cache operations are not total on an item that is JSON of another shape than
  an array of records. With the text \<^verbatim>\<open>null\<close> in the item, \<^verbatim>\<open>JSON.parse\<close> succeeds, so the
  \<^verbatim>\<open>catch\<close> of \<^verbatim>\<open>getStoredConsignments\<close> is not entered: it returns \<^verbatim>\<open>null\<close>, not the
  empty list, and both find functions, which call \<^verbatim>\<open>find\<close> on that value outside any
  \<^verbatim>\<open>try\<close>, throw a TypeError to their caller.
\<close>

theorem findStoredConsignment_throws:
  "getStoredConsignments null_storage = Non_array
   \<and> findStoredConsignmentById ''c1'' null_storage = Inl TypeError
   \<and> findStoredConsignmentByLineItemId (IdStr ''A'') 1 null_storage = Inl TypeError"
  by (simp add: getStoredConsignments_def findStoredConsignmentById_def
        findStoredConsignmentByLineItemId_def getItem_def bnd_def null_storage_def)

section \<open>The wizard: properties\<close>

text \<open>
  C8. \<^verbatim>\<open>handleAddressSelect\<close> on an address that fails validation (the field requirements
  are supplied and \<^verbatim>\<open>isValidAddress\<close> rejects the address): the error message is set,
  edit mode is left, \<^verbatim>\<open>InvalidAddressError\<close> goes to \<^verbatim>\<open>onUnhandledError\<close>, and nothing
  else changes: the entries, the configured flags, the selected address and the current
  item stay as they were, no request is issued, and the gateway's consignments and the
  cache are untouched.
\<close>

theorem handleAddressSelect_invalid:
  assumes "validator p = Some isValid" and "\<not> isValid address"
  shows "handleAddressSelect p address st w =
           (st\<lparr>error := Some ''Please provide a valid address with all required fields'',
               isEditing := False\<rparr>,
            w\<lparr>unhandled := unhandled w @ [InvalidAddressError]\<rparr>)
         \<and> itemConsignments (fst (handleAddressSelect p address st w)) = itemConsignments st
         \<and> configuredItems (fst (handleAddressSelect p address st w)) = configuredItems st
         \<and> selectedAddress (fst (handleAddressSelect p address st w)) = selectedAddress st
         \<and> currentItemIndex (fst (handleAddressSelect p address st w)) = currentItemIndex st
         \<and> error (fst (handleAddressSelect p address st w)) \<noteq> None
         \<and> calls (snd (handleAddressSelect p address st w)) = calls w
         \<and> remote (snd (handleAddressSelect p address st w)) = remote w
         \<and> storage (snd (handleAddressSelect p address st w)) = storage w"
  using assms by (simp add: handleAddressSelect_def report_def)

theorem handleAddressSelect_invalid_witness:
  "validator ex_props = Some (\<lambda>a. a \<noteq> [])
   \<and> handleAddressSelect ex_props [] ex_state ex_world =
       (ex_state\<lparr>error := Some ''Please provide a valid address with all required fields'',
                 isEditing := False\<rparr>,
        ex_world\<lparr>unhandled := unhandled ex_world @ [InvalidAddressError]\<rparr>)
   \<and> calls (snd (handleAddressSelect ex_props [] ex_state ex_world)) = []"
proof -
  have v: "validator ex_props = Some (\<lambda>a. a \<noteq> [])" by (simp add: ex_props_def)
  have n: "\<not> (\<lambda>a::address. a \<noteq> []) []" by simp
  have c: "calls ex_world = []" by (simp add: ex_world_def)
  show ?thesis using v c handleAddressSelect_invalid[OF v n, of ex_state ex_world] by simp
qed

text \<open>
  C6. The guard of \<^verbatim>\<open>handleEditConsignment\<close> looks for an own flag that is \<^verbatim>\<open>false\<close>
  and misses an item that has no flag at all. In the session above the first pass
  empties \<^verbatim>\<open>configuredItems\<close>; after the shopper has configured A and continued, the
  pointer is on B, which has no flag and reads as not configured. The request to edit
  the configured item A is then accepted: no error is set, the pointer moves to A,
  edit mode is entered, A's flag is rewritten and requests are issued.
\<close>

theorem handleEditConsignment_accepts_unflagged:
  "configuredItems (fst after_reset) = []
   \<and> fst after_continue = None
   \<and> configuredItems (fst (snd after_continue)) = [(''A'', True)]
   \<and> currentItemIndex (fst (snd after_continue)) = 1
   \<and> \<not> configured (configuredItems (fst (snd after_continue))) (IdStr ''B'')
   \<and> error (fst after_edit) = None
   \<and> currentItemIndex (fst after_edit) = 0
   \<and> isEditing (fst after_edit)
   \<and> configuredItems (fst after_edit) = [(''A'', False)]
   \<and> drop (length (calls (snd (snd after_continue)))) (calls (snd after_edit))
       = [GetCheckout, GetCheckout, LoadCheckout]"
  by code_simp

lemma starts_with_iff: "starts_with s sub \<longleftrightarrow> (\<exists>post. s = sub @ post)"
  by (induction s sub rule: starts_with.induct) auto

lemma includes_str_iff: "includes_str s sub \<longleftrightarrow> (\<exists>pre post. s = pre @ sub @ post)"
proof (induction s)
  case Nil
  show ?case by auto
next
  case (Cons x xs)
  have "(\<exists>pre post. x # xs = pre @ sub @ post)
          \<longleftrightarrow> (\<exists>post. x # xs = sub @ post) \<or> (\<exists>pre post. xs = pre @ sub @ post)"
  proof
    assume "\<exists>pre post. x # xs = pre @ sub @ post"
    then obtain pre post where e: "x # xs = pre @ sub @ post" by blast
    show "(\<exists>post. x # xs = sub @ post) \<or> (\<exists>pre post. xs = pre @ sub @ post)"
    proof (cases pre)
      case Nil
      then show ?thesis using e by auto
    next
      case (Cons a pre')
      then have "xs = pre' @ sub @ post" using e by simp
      then show ?thesis by blast
    qed
  next
    assume "(\<exists>post. x # xs = sub @ post) \<or> (\<exists>pre post. xs = pre @ sub @ post)"
    then show "\<exists>pre post. x # xs = pre @ sub @ post"
    proof
      assume "\<exists>post. x # xs = sub @ post"
      then obtain post where "x # xs = [] @ sub @ post" by auto
      then show ?thesis by blast
    next
      assume "\<exists>pre post. xs = pre @ sub @ post"
      then obtain pre post where "xs = pre @ sub @ post" by blast
      then have "x # xs = (x # pre) @ sub @ post" by simp
      then show ?thesis by blast
    qed
  qed
  then show ?case using Cons by (simp add: starts_with_iff)
qed

lemma trim_nonempty_iff:
  "trim_nonempty v \<longleftrightarrow>
     (\<exists>c\<in>set v. c \<notin> {CHR 0x09, CHR 0x0A, CHR 0x0B, CHR 0x0C, CHR 0x0D, CHR 0x20, CHR 0xA0})"
  by (simp add: trim_nonempty_def is_space_def list_ex_iff)

lemma delivery_date_name:
  "(co_name opt = ''Delivery Date'' \<or> includes_str (co_name opt) ''Delivery Date'')
     = (\<exists>pre post. co_name opt = pre @ ''Delivery Date'' @ post)"
proof
  assume "co_name opt = ''Delivery Date'' \<or> includes_str (co_name opt) ''Delivery Date''"
  then show "\<exists>pre post. co_name opt = pre @ ''Delivery Date'' @ post"
  proof
    assume "co_name opt = ''Delivery Date''"
    then show ?thesis by (intro exI[of _ "[]"]) simp
  next
    assume "includes_str (co_name opt) ''Delivery Date''"
    then show ?thesis unfolding includes_str_iff .
  qed
next
  assume "\<exists>pre post. co_name opt = pre @ ''Delivery Date'' @ post"
  then have "includes_str (co_name opt) ''Delivery Date''" unfolding includes_str_iff .
  then show "co_name opt = ''Delivery Date'' \<or> includes_str (co_name opt) ''Delivery Date''" ..
qed

lemma delivery_date_value:
  "(v \<noteq> [] \<and> trim_nonempty v)
     = (\<exists>c\<in>set v. c \<notin> {CHR 0x09, CHR 0x0A, CHR 0x0B, CHR 0x0C, CHR 0x0D, CHR 0x20, CHR 0xA0})"
  unfolding trim_nonempty_iff by (cases v) simp_all

lemma hasValidDeliveryDate_iff:
  "hasValidDeliveryDate cartItems itemId \<longleftrightarrow>
     (\<exists>cartItem opts.
        find (\<lambda>ci. ci_id ci = itemId) cartItems = Some cartItem
        \<and> ci_options cartItem = Some opts
        \<and> (case find (\<lambda>opt. \<exists>pre post. co_name opt = pre @ ''Delivery Date'' @ post) opts of
              None \<Rightarrow> True
            | Some opt \<Rightarrow>
                (\<exists>v. co_value opt = Some v
                   \<and> (\<exists>c\<in>set v. c \<notin> {CHR 0x09, CHR 0x0A, CHR 0x0B, CHR 0x0C, CHR 0x0D,
                                       CHR 0x20, CHR 0xA0}))))"
proof (cases "find (\<lambda>ci. ci_id ci = itemId) cartItems")
  case None
  then show ?thesis by (simp add: hasValidDeliveryDate_def)
next
  case (Some ci)
  show ?thesis
  proof (cases "ci_options ci")
    case None
    then show ?thesis using Some by (simp add: hasValidDeliveryDate_def)
  next
    case opts: (Some opts)
    show ?thesis
    proof (cases "find (\<lambda>opt. \<exists>pre post. co_name opt = pre @ ''Delivery Date'' @ post) opts")
      case None
      then show ?thesis using Some opts by (simp add: hasValidDeliveryDate_def delivery_date_name)
    next
      case o: (Some opt)
      show ?thesis
      proof (cases "co_value opt")
        case None
        then show ?thesis using Some opts o by (simp add: hasValidDeliveryDate_def delivery_date_name)
      next
        case v: (Some v)
        show ?thesis
          using Some opts o v
          by (simp add: hasValidDeliveryDate_def delivery_date_name delivery_date_value)
      qed
    qed
  qed
qed

lemma configured_iff:
  "configured m i \<longleftrightarrow>
     (map_of m (toString i) = Some True
      \<or> (map_of m (toString i) = None \<and> toString i \<in> set object_prototype_keys))"
  by (auto simp: configured_def split: option.split)

text \<open>
  C2. The derived signal \<^verbatim>\<open>allItemsConfigured\<close> is true exactly when the cart has at
  least one physical line item and, for every physical line item, the property of
  \<^verbatim>\<open>configuredItems\<close> under the item's id reads as true: the object has an own flag
  \<^verbatim>\<open>true\<close> for it, or has no own flag for it and the id is the name of a member of
  \<^verbatim>\<open>Object.prototype\<close>. In the delivery-date variant, in addition, the first cart line
  item with that id must exist and have an options list in which either no option has
  a name containing \<^verbatim>\<open>Delivery Date\<close>, or the first such option has a value with a
  character that is not white space. The final Continue button is rendered exactly
  when the editing pointer is on an item of the cart and the signal is true.
\<close>

theorem allItemsConfigured_iff:
  "allItemsConfigured p st =
     (physicalItems p \<noteq> [] \<and>
      (\<forall>it \<in> set (physicalItems p).
          map_of (configuredItems st) (toString (li_id it)) = Some True
          \<or> (map_of (configuredItems st) (toString (li_id it)) = None
              \<and> toString (li_id it) \<in> set object_prototype_keys)))
   \<and> allItemsConfigured_dates p cartItems st =
     (physicalItems p \<noteq> [] \<and>
      (\<forall>it \<in> set (physicalItems p).
          (map_of (configuredItems st) (toString (li_id it)) = Some True
           \<or> (map_of (configuredItems st) (toString (li_id it)) = None
               \<and> toString (li_id it) \<in> set object_prototype_keys))
          \<and> (\<exists>cartItem opts.
                find (\<lambda>ci. ci_id ci = li_id it) cartItems = Some cartItem
                \<and> ci_options cartItem = Some opts
                \<and> (case find (\<lambda>opt. \<exists>pre post. co_name opt = pre @ ''Delivery Date'' @ post) opts of
                      None \<Rightarrow> True
                    | Some opt \<Rightarrow>
                        (\<exists>v. co_value opt = Some v
                           \<and> (\<exists>c\<in>set v. c \<notin> {CHR 0x09, CHR 0x0A, CHR 0x0B, CHR 0x0C, CHR 0x0D,
                                               CHR 0x20, CHR 0xA0}))))))
   \<and> final_continue_rendered p st =
       (0 \<le> currentItemIndex st \<and> currentItemIndex st < int (length (physicalItems p))
        \<and> allItemsConfigured p st)"
proof -
  have 1: "allItemsConfigured p st =
     (physicalItems p \<noteq> [] \<and>
      (\<forall>it \<in> set (physicalItems p).
          map_of (configuredItems st) (toString (li_id it)) = Some True
          \<or> (map_of (configuredItems st) (toString (li_id it)) = None
              \<and> toString (li_id it) \<in> set object_prototype_keys)))"
    unfolding allItemsConfigured_def list_all_iff configured_iff by simp
  have 2: "allItemsConfigured_dates p cartItems st =
     (physicalItems p \<noteq> [] \<and>
      (\<forall>it \<in> set (physicalItems p).
          (map_of (configuredItems st) (toString (li_id it)) = Some True
           \<or> (map_of (configuredItems st) (toString (li_id it)) = None
               \<and> toString (li_id it) \<in> set object_prototype_keys))
          \<and> (\<exists>cartItem opts.
                find (\<lambda>ci. ci_id ci = li_id it) cartItems = Some cartItem
                \<and> ci_options cartItem = Some opts
                \<and> (case find (\<lambda>opt. \<exists>pre post. co_name opt = pre @ ''Delivery Date'' @ post) opts of
                      None \<Rightarrow> True
                    | Some opt \<Rightarrow>
                        (\<exists>v. co_value opt = Some v
                           \<and> (\<exists>c\<in>set v. c \<notin> {CHR 0x09, CHR 0x0A, CHR 0x0B, CHR 0x0C, CHR 0x0D,
                                               CHR 0x20, CHR 0xA0}))))))"
    unfolding allItemsConfigured_dates_def list_all_iff configured_iff hasValidDeliveryDate_iff
    by simp
  have 3: "final_continue_rendered p st =
       (0 \<le> currentItemIndex st \<and> currentItemIndex st < int (length (physicalItems p))
        \<and> allItemsConfigured p st)"
    unfolding final_continue_rendered_def getCurrentItem_def at_index_def allItemsConfigured_def
    by auto
  show ?thesis using 1 2 3 by blast
qed

theorem allItemsConfigured_iff_witness:
  "allItemsConfigured ex_props (ex_state\<lparr>configuredItems := [(''A'', True), (''B'', True)]\<rparr>)
   \<and> final_continue_rendered ex_props (ex_state\<lparr>configuredItems := [(''A'', True), (''B'', True)]\<rparr>)
   \<and> \<not> allItemsConfigured ex_props ex_state"
proof -
  have i: "set (physicalItems ex_props) = {item_A, item_B}" "physicalItems ex_props \<noteq> []"
      "length (physicalItems ex_props) = 2"
    by (simp_all add: ex_props_def)
  have c: "currentItemIndex (ex_state\<lparr>configuredItems := [(''A'', True), (''B'', True)]\<rparr>) = 0"
    by (simp add: ex_state_def)
  show ?thesis
    using allItemsConfigured_iff[of ex_props "ex_state\<lparr>configuredItems := [(''A'', True), (''B'', True)]\<rparr>" "[]"]
      allItemsConfigured_iff[of ex_props ex_state "[]"] c
    by (simp add: i item_A_def item_B_def ex_state_def)
qed

text \<open>
  The claim as stated fails in both directions. After \<^verbatim>\<open>handleContinue\<close> on an item
  whose address offers no shipping option the signal is true although the item's entry
  has no selected shipping option; and for an empty cart the signal is false although
  every line item of the cart (there is none) has a complete entry.
\<close>

theorem allItemsConfigured_counterexample:
  "fst (handleContinue one_item_props no_options_state ex_world) = None
   \<and> allItemsConfigured one_item_props (fst (snd (handleContinue one_item_props no_options_state ex_world)))
   \<and> \<not> allConfigured_spec one_item_props (fst (snd (handleContinue one_item_props no_options_state ex_world)))
   \<and> \<not> allItemsConfigured (one_item_props\<lparr>physicalItems := []\<rparr>) no_options_state
   \<and> allConfigured_spec (one_item_props\<lparr>physicalItems := []\<rparr>) no_options_state"
  by (simp add: handleContinue_def one_item_props_def no_options_state_def ex_world_def
        getCurrentConsignment_def getCurrentItem_def at_index_def item_A_def loadCheckout_def fetch_def
        updateOrderSummaryDisplay_def set_configured_def allItemsConfigured_def configured_def
        allConfigured_spec_def isConfigured_spec_def home_def fresh_storage_def)

lemma skip_configured_spec:
  "i \<le> skip_configured items m i
   \<and> (\<forall>j. i \<le> j \<and> j < skip_configured items m i \<longrightarrow> configured m (li_id (items ! j)))
   \<and> (skip_configured items m i < length items \<longrightarrow>
        \<not> configured m (li_id (items ! skip_configured items m i)))"
proof (induction items m i rule: skip_configured.induct)
  case (1 items m i)
  show ?case
  proof (cases "i < length items \<and> configured m (li_id (items ! i))")
    case True
    then have e: "skip_configured items m i = skip_configured items m (i + 1)"
      by (subst skip_configured.simps) auto
    have ih: "i + 1 \<le> skip_configured items m (i + 1)
       \<and> (\<forall>j. i + 1 \<le> j \<and> j < skip_configured items m (i + 1) \<longrightarrow> configured m (li_id (items ! j)))
       \<and> (skip_configured items m (i + 1) < length items \<longrightarrow>
            \<not> configured m (li_id (items ! skip_configured items m (i + 1))))"
      using 1 True by simp
    show ?thesis
      unfolding e using ih True
      by (metis Suc_eq_plus1 Suc_leD le_antisym not_less_eq_eq)
  next
    case False
    then have e: "skip_configured items m i = i"
      by (subst skip_configured.simps) auto
    show ?thesis unfolding e using False by auto
  qed
qed

lemma refresh_fst: "fst (refreshCheckoutTotals (st, w)) = st\<lparr>isLoading := False\<rparr>"
  by (simp add: refreshCheckoutTotals_def)

lemma hc_eq:
  assumes addr: "selectedAddress st \<noteq> None"
    and cur: "getCurrentItem p st = Some cur"
    and opt: "\<not> ((case getCurrentConsignment p st of None \<Rightarrow> False
               | Some c \<Rightarrow> length (e_availableShippingOptions c) > 0) \<and> selectedShippingOption st = None)"
    and w1: "loadCheckout w = (Ok, w1)"
  shows "handleContinue p st w =
    (let m = set_configured (li_id cur) True (configuredItems st);
         st1 = st\<lparr>configuredItems := m, isEditing := False\<rparr>;
         w2 = updateOrderSummaryDisplay w1;
         n = skip_configured (physicalItems p) m (nat (currentItemIndex st + 1));
         st3 = st1\<lparr>isLoading := False, currentItemIndex := int n, selectedAddress := None,
                   selectedShippingOption := None\<rparr>
     in if currentItemIndex st < int (length (physicalItems p)) - 1 then
          (if n < length (physicalItems p) then
             (None,
              (case find (\<lambda>c. e_lineItemId c = li_id (physicalItems p ! n)) (itemConsignments st) of
                 None \<Rightarrow> st3
               | Some c \<Rightarrow>
                   if e_shippingAddress c \<noteq> None \<and> e_selectedShippingOption c \<noteq> None
                      \<and> length (e_availableShippingOptions c) > 0
                   then st3\<lparr>selectedAddress := e_shippingAddress c,
                            selectedShippingOption := e_selectedShippingOption c\<rparr>
                   else st3),
              snd (refreshCheckoutTotals (st1, w2)))
           else (None, st1\<lparr>isLoading := False\<rparr>, snd (refreshCheckoutTotals (st1, w2))))
        else (None, st1, w2))"
proof -
  obtain st2 w3 where r: "refreshCheckoutTotals (st\<lparr>configuredItems := set_configured (li_id cur) True (configuredItems st), isEditing := False\<rparr>, updateOrderSummaryDisplay w1) = (st2, w3)"
    by (cases "refreshCheckoutTotals (st\<lparr>configuredItems := set_configured (li_id cur) True (configuredItems st), isEditing := False\<rparr>, updateOrderSummaryDisplay w1)") blast
  have st2: "st2 = st\<lparr>configuredItems := set_configured (li_id cur) True (configuredItems st), isEditing := False, isLoading := False\<rparr>"
    using refresh_fst[of "st\<lparr>configuredItems := set_configured (li_id cur) True (configuredItems st), isEditing := False\<rparr>" "updateOrderSummaryDisplay w1"] r by simp
  obtain a where a: "selectedAddress st = Some a" using addr by blast
  show ?thesis
  proof (cases "getCurrentConsignment p st")
    case None
    then show ?thesis
      unfolding handleContinue_def
      by (simp add: a cur w1 r st2 Let_def split: option.split)
  next
    case (Some c)
    show ?thesis
    proof (cases "e_availableShippingOptions c = []")
      case True
      then show ?thesis
        unfolding handleContinue_def
        by (simp add: a cur w1 r st2 Some Let_def split: option.split)
    next
      case False
      then obtain so where so: "selectedShippingOption st = Some so"
        using opt Some by auto
      show ?thesis
        unfolding handleContinue_def
        by (simp add: a cur w1 r st2 Some so Let_def split: option.split)
    qed
  qed
qed

lemma handleContinue_step:
  assumes addr: "selectedAddress st \<noteq> None"
    and cur: "getCurrentItem p st = Some cur"
    and opt: "(case getCurrentConsignment p st of None \<Rightarrow> False
               | Some c \<Rightarrow> length (e_availableShippingOptions c) > 0) \<longrightarrow> selectedShippingOption st \<noteq> None"
    and load: "plan w (length (calls w)) LoadCheckout = Ok"
  shows "\<exists>st' w'. handleContinue p st w = (None, st', w')
           \<and> configuredItems st' = set_configured (li_id cur) True (configuredItems st)
           \<and> configured (configuredItems st') (li_id cur)
           \<and> \<not> isEditing st'
           \<and> itemConsignments st' = itemConsignments st
           \<and> (let n = skip_configured (physicalItems p) (configuredItems st') (nat (currentItemIndex st + 1)) in
               if n < length (physicalItems p) then
                 currentItemIndex st' = int n
                 \<and> currentItemIndex st < int n
                 \<and> \<not> configured (configuredItems st') (li_id (physicalItems p ! n))
                 \<and> (\<forall>j. nat (currentItemIndex st) < j \<and> j < n \<longrightarrow>
                        configured (configuredItems st') (li_id (physicalItems p ! j)))
                 \<and> (selectedAddress st', selectedShippingOption st') =
                     (case find (\<lambda>c. e_lineItemId c = li_id (physicalItems p ! n)) (itemConsignments st) of
                        None \<Rightarrow> (None, None)
                      | Some c \<Rightarrow>
                          if e_shippingAddress c \<noteq> None \<and> e_selectedShippingOption c \<noteq> None
                             \<and> length (e_availableShippingOptions c) > 0
                          then (e_shippingAddress c, e_selectedShippingOption c)
                          else (None, None))
               else currentItemIndex st' = currentItemIndex st
                    \<and> selectedAddress st' = selectedAddress st
                    \<and> selectedShippingOption st' = selectedShippingOption st)"
proof -
  let ?m = "set_configured (li_id cur) True (configuredItems st)"
  let ?n = "skip_configured (physicalItems p) ?m (nat (currentItemIndex st + 1))"
  have idx: "0 \<le> currentItemIndex st" "currentItemIndex st < int (length (physicalItems p))"
    using cur by (auto simp: getCurrentItem_def at_index_def split: if_splits)
  obtain w1 where w1: "loadCheckout w = (Ok, w1)"
    using load by (simp add: loadCheckout_def fetch_def Let_def)
  have opt': "\<not> ((case getCurrentConsignment p st of None \<Rightarrow> False
               | Some c \<Rightarrow> length (e_availableShippingOptions c) > 0) \<and> selectedShippingOption st = None)"
    using opt by blast
  note eq = hc_eq[OF addr cur opt' w1]
  have conf: "configured ?m (li_id cur)"
    by (simp add: configured_def set_configured_def update_conv')
  have sk: "nat (currentItemIndex st + 1) \<le> ?n
   \<and> (\<forall>j. nat (currentItemIndex st + 1) \<le> j \<and> j < ?n \<longrightarrow> configured ?m (li_id (physicalItems p ! j)))
   \<and> (?n < length (physicalItems p) \<longrightarrow> \<not> configured ?m (li_id (physicalItems p ! ?n)))"
    by (rule skip_configured_spec)
  have suc: "nat (currentItemIndex st + 1) = Suc (nat (currentItemIndex st))"
    using idx by simp
  have lt: "?n < length (physicalItems p) \<Longrightarrow> currentItemIndex st < int (length (physicalItems p)) - 1"
    using sk idx by linarith
  have gt: "currentItemIndex st < int ?n" using sk idx by linarith
  have between: "\<forall>j. nat (currentItemIndex st) < j \<and> j < ?n \<longrightarrow> configured ?m (li_id (physicalItems p ! j))"
    using sk unfolding suc by (simp add: Suc_le_eq)
  show ?thesis
  proof (cases "?n < length (physicalItems p)")
    case True
    note lt1 = lt[OF True]
    have nc: "\<not> configured ?m (li_id (physicalItems p ! ?n))" using sk True by blast
    show ?thesis
      unfolding eq Let_def
      using True lt1 gt nc between conf
      by (simp split: option.split)
  next
    case False
    show ?thesis
      unfolding eq Let_def
      using False conf
      by simp
  qed
qed


text \<open>
  C7. \<^verbatim>\<open>handleContinue\<close>, when an address is selected, a shipping option is selected
  whenever the current entry has options, the editing pointer is on an item of the cart
  and the reload of the checkout succeeds: it returns without throwing, gives the
  current item the own flag \<^verbatim>\<open>true\<close> in \<^verbatim>\<open>configuredItems\<close> (all other flags as they
  were), leaves edit mode and keeps the entries. Read the flags as the code does (an
  own flag, or for an id without one whether it names a member of \<^verbatim>\<open>Object.prototype\<close>).
  When some item after the current position reads as not configured, the pointer moves
  to the first such item, and the transient selections become that item's own address
  and option when its entry has both and has options, and are cleared otherwise. When
  every item after the current position reads as configured, the pointer and the
  selections stay as they are.
\<close>

theorem handleContinue_advances:
  assumes addr: "selectedAddress st \<noteq> None"
    and cur: "getCurrentItem p st = Some cur"
    and opt: "(case getCurrentConsignment p st of None \<Rightarrow> False
               | Some c \<Rightarrow> length (e_availableShippingOptions c) > 0) \<longrightarrow> selectedShippingOption st \<noteq> None"
    and load: "plan w (length (calls w)) LoadCheckout = Ok"
  shows "\<exists>st' w'. handleContinue p st w = (None, st', w')
           \<and> map_of (configuredItems st') = (map_of (configuredItems st))(toString (li_id cur) \<mapsto> True)
           \<and> \<not> isEditing st'
           \<and> itemConsignments st' = itemConsignments st
           \<and> (let i = nat (currentItemIndex st);
                   conf = (\<lambda>j. case map_of (configuredItems st') (toString (li_id (physicalItems p ! j))) of
                                  Some b \<Rightarrow> b
                                | None \<Rightarrow> toString (li_id (physicalItems p ! j)) \<in> set object_prototype_keys)
               in (\<forall>n. i < n \<and> n < length (physicalItems p) \<and> \<not> conf n \<and> (\<forall>j. i < j \<and> j < n \<longrightarrow> conf j)
                     \<longrightarrow> currentItemIndex st' = int n
                         \<and> (selectedAddress st', selectedShippingOption st') =
                             (case find (\<lambda>c. e_lineItemId c = li_id (physicalItems p ! n))
                                     (itemConsignments st) of
                                None \<Rightarrow> (None, None)
                              | Some c \<Rightarrow>
                                  if e_shippingAddress c \<noteq> None \<and> e_selectedShippingOption c \<noteq> None
                                     \<and> length (e_availableShippingOptions c) > 0
                                  then (e_shippingAddress c, e_selectedShippingOption c)
                                  else (None, None)))
                  \<and> ((\<forall>j. i < j \<and> j < length (physicalItems p) \<longrightarrow> conf j)
                     \<longrightarrow> currentItemIndex st' = currentItemIndex st
                         \<and> selectedAddress st' = selectedAddress st
                         \<and> selectedShippingOption st' = selectedShippingOption st))"
proof -
  from handleContinue_step[OF addr cur opt load]
  obtain st' w' where r: "handleContinue p st w = (None, st', w')"
    and cf: "configuredItems st' = set_configured (li_id cur) True (configuredItems st)"
    and ed: "\<not> isEditing st'" and en: "itemConsignments st' = itemConsignments st"
    and rest: "(let n = skip_configured (physicalItems p) (configuredItems st') (nat (currentItemIndex st + 1)) in
               if n < length (physicalItems p) then
                 currentItemIndex st' = int n
                 \<and> currentItemIndex st < int n
                 \<and> \<not> configured (configuredItems st') (li_id (physicalItems p ! n))
                 \<and> (\<forall>j. nat (currentItemIndex st) < j \<and> j < n \<longrightarrow>
                        configured (configuredItems st') (li_id (physicalItems p ! j)))
                 \<and> (selectedAddress st', selectedShippingOption st') =
                     (case find (\<lambda>c. e_lineItemId c = li_id (physicalItems p ! n)) (itemConsignments st) of
                        None \<Rightarrow> (None, None)
                      | Some c \<Rightarrow>
                          if e_shippingAddress c \<noteq> None \<and> e_selectedShippingOption c \<noteq> None
                             \<and> length (e_availableShippingOptions c) > 0
                          then (e_shippingAddress c, e_selectedShippingOption c)
                          else (None, None))
               else currentItemIndex st' = currentItemIndex st
                    \<and> selectedAddress st' = selectedAddress st
                    \<and> selectedShippingOption st' = selectedShippingOption st)"
    by blast
  let ?i = "nat (currentItemIndex st)"
  let ?conf = "\<lambda>j. case map_of (configuredItems st') (toString (li_id (physicalItems p ! j))) of
                                  Some b \<Rightarrow> b
                                | None \<Rightarrow> toString (li_id (physicalItems p ! j)) \<in> set object_prototype_keys"
  let ?n0 = "skip_configured (physicalItems p) (configuredItems st') (nat (currentItemIndex st + 1))"
  have cd: "configured (configuredItems st') (li_id (physicalItems p ! j)) = ?conf j" for j
    by (simp add: configured_def)
  have idx: "0 \<le> currentItemIndex st" "currentItemIndex st < int (length (physicalItems p))"
    using cur by (auto simp: getCurrentItem_def at_index_def split: if_splits)
  have suc: "nat (currentItemIndex st + 1) = Suc ?i" using idx by simp
  note sk = skip_configured_spec[of "nat (currentItemIndex st + 1)" "physicalItems p" "configuredItems st'"]
  have lo: "?i < ?n0" using sk unfolding suc by simp
  have btw: "\<forall>j. ?i < j \<and> j < ?n0 \<longrightarrow> ?conf j"
    using sk unfolding suc cd by (simp add: Suc_le_eq)
  have m: "map_of (configuredItems st') = (map_of (configuredItems st))(toString (li_id cur) \<mapsto> True)"
    unfolding cf set_configured_def by (rule update_conv')
  have A: "currentItemIndex st' = int n
           \<and> (selectedAddress st', selectedShippingOption st') =
               (case find (\<lambda>c. e_lineItemId c = li_id (physicalItems p ! n)) (itemConsignments st) of
                  None \<Rightarrow> (None, None)
                | Some c \<Rightarrow>
                    if e_shippingAddress c \<noteq> None \<and> e_selectedShippingOption c \<noteq> None
                       \<and> length (e_availableShippingOptions c) > 0
                    then (e_shippingAddress c, e_selectedShippingOption c)
                    else (None, None))"
    if n: "?i < n" "n < length (physicalItems p)" "\<not> ?conf n" "\<forall>j. ?i < j \<and> j < n \<longrightarrow> ?conf j" for n
  proof -
    have 1: "\<not> n < ?n0" using btw n(1) n(3) by blast
    then have lt: "?n0 < length (physicalItems p)" using n(2) by simp
    have nc: "\<not> ?conf ?n0" using sk lt unfolding cd by blast
    have 2: "\<not> ?n0 < n" using n(4) lo nc by blast
    have e: "n = ?n0" using 1 2 by simp
    show ?thesis using rest lt unfolding Let_def e by simp
  qed
  have B: "currentItemIndex st' = currentItemIndex st
           \<and> selectedAddress st' = selectedAddress st
           \<and> selectedShippingOption st' = selectedShippingOption st"
    if all: "\<forall>j. ?i < j \<and> j < length (physicalItems p) \<longrightarrow> ?conf j"
  proof -
    have "\<not> ?n0 < length (physicalItems p)"
    proof
      assume lt: "?n0 < length (physicalItems p)"
      have "\<not> ?conf ?n0" using sk lt unfolding cd by blast
      then show False using all lo lt by blast
    qed
    then show ?thesis using rest unfolding Let_def by simp
  qed
  show ?thesis
    unfolding Let_def using r m ed en A B by blast
qed

theorem handleContinue_advances_witness:
  "selectedAddress (ex_state\<lparr>selectedAddress := Some [], configuredItems := [(''B'', True)]\<rparr>) \<noteq> None
   \<and> getCurrentItem bulk_props (ex_state\<lparr>selectedAddress := Some [], configuredItems := [(''B'', True)]\<rparr>)
       = Some item_A
   \<and> plan ex_world (length (calls ex_world)) LoadCheckout = Ok
   \<and> (\<exists>st' w'. handleContinue bulk_props
                  (ex_state\<lparr>selectedAddress := Some [], configuredItems := [(''B'', True)]\<rparr>) ex_world
                 = (None, st', w')
         \<and> currentItemIndex st' = 2 \<and> selectedAddress st' = None)"
proof -
  let ?st = "ex_state\<lparr>selectedAddress := Some [], configuredItems := [(''B'', True)]\<rparr>"
  have a: "selectedAddress ?st \<noteq> None" by (simp add: ex_state_def)
  have c: "getCurrentItem bulk_props ?st = Some item_A"
    by (simp add: getCurrentItem_def at_index_def bulk_props_def ex_state_def)
  have o: "(case getCurrentConsignment bulk_props ?st of None \<Rightarrow> False
               | Some c \<Rightarrow> length (e_availableShippingOptions c) > 0) \<longrightarrow> selectedShippingOption ?st \<noteq> None"
    by (simp add: getCurrentConsignment_def getCurrentItem_def at_index_def bulk_props_def ex_state_def
          fresh_entry_def item_A_def item_B_def)
  have l: "plan ex_world (length (calls ex_world)) LoadCheckout = Ok" by (simp add: ex_world_def)
  from handleContinue_advances[OF a c o l]
  obtain st' w' where r: "handleContinue bulk_props ?st ex_world = (None, st', w')"
    and m: "map_of (configuredItems st') = (map_of (configuredItems ?st))(toString (li_id item_A) \<mapsto> True)"
    and rest: "(let i = nat (currentItemIndex ?st);
                   conf = (\<lambda>j. case map_of (configuredItems st') (toString (li_id (physicalItems bulk_props ! j))) of
                                  Some b \<Rightarrow> b
                                | None \<Rightarrow> toString (li_id (physicalItems bulk_props ! j)) \<in> set object_prototype_keys)
               in (\<forall>n. i < n \<and> n < length (physicalItems bulk_props) \<and> \<not> conf n \<and> (\<forall>j. i < j \<and> j < n \<longrightarrow> conf j)
                     \<longrightarrow> currentItemIndex st' = int n
                         \<and> (selectedAddress st', selectedShippingOption st') =
                             (case find (\<lambda>c. e_lineItemId c = li_id (physicalItems bulk_props ! n))
                                     (itemConsignments ?st) of
                                None \<Rightarrow> (None, None)
                              | Some c \<Rightarrow>
                                  if e_shippingAddress c \<noteq> None \<and> e_selectedShippingOption c \<noteq> None
                                     \<and> length (e_availableShippingOptions c) > 0
                                  then (e_shippingAddress c, e_selectedShippingOption c)
                                  else (None, None)))
                  \<and> ((\<forall>j. i < j \<and> j < length (physicalItems bulk_props) \<longrightarrow> conf j)
                     \<longrightarrow> currentItemIndex st' = currentItemIndex ?st
                         \<and> selectedAddress st' = selectedAddress ?st
                         \<and> selectedShippingOption st' = selectedShippingOption ?st))"
    by blast
  have m': "map_of (configuredItems st') = [''B'' \<mapsto> True, ''A'' \<mapsto> True]"
    using m by (simp add: ex_state_def item_A_def)
  have i: "nat (currentItemIndex ?st) = 0" by (simp add: ex_state_def)
  have items: "physicalItems bulk_props = [item_A, item_B, item_C]" by (simp add: bulk_props_def)
  have f: "find (\<lambda>c. e_lineItemId c = li_id (physicalItems bulk_props ! 2)) (itemConsignments ?st) = None"
    by (simp add: items ex_state_def fresh_entry_def item_A_def item_B_def item_C_def)
  let ?conf = "\<lambda>j. case map_of (configuredItems st') (toString (li_id (physicalItems bulk_props ! j))) of
               Some b \<Rightarrow> b
             | None \<Rightarrow> toString (li_id (physicalItems bulk_props ! j)) \<in> set object_prototype_keys"
  have c1: "?conf j" if "nat (currentItemIndex ?st) < j" "j < 2" for j
  proof -
    have "j = 1" using that unfolding i by simp
    then show ?thesis unfolding m' by (simp add: items item_B_def)
  qed
  have c2: "\<not> ?conf 2"
    unfolding m' by (simp add: items item_C_def object_prototype_keys_def)
  have P: "nat (currentItemIndex ?st) < 2 \<and> 2 < length (physicalItems bulk_props) \<and> \<not> ?conf 2
           \<and> (\<forall>j. nat (currentItemIndex ?st) < j \<and> j < 2 \<longrightarrow> ?conf j)"
  proof -
    have i': "nat (currentItemIndex ?st) < 2" unfolding i by simp
    have l3: "2 < length (physicalItems bulk_props)" unfolding items by simp
    show ?thesis using i' l3 c2 c1 by blast
  qed
  have R1: "\<forall>n. nat (currentItemIndex ?st) < n \<and> n < length (physicalItems bulk_props) \<and> \<not> ?conf n
                \<and> (\<forall>j. nat (currentItemIndex ?st) < j \<and> j < n \<longrightarrow> ?conf j)
             \<longrightarrow> currentItemIndex st' = int n
                 \<and> (selectedAddress st', selectedShippingOption st') =
                     (case find (\<lambda>c. e_lineItemId c = li_id (physicalItems bulk_props ! n))
                             (itemConsignments ?st) of
                        None \<Rightarrow> (None, None)
                      | Some c \<Rightarrow>
                          if e_shippingAddress c \<noteq> None \<and> e_selectedShippingOption c \<noteq> None
                             \<and> length (e_availableShippingOptions c) > 0
                          then (e_shippingAddress c, e_selectedShippingOption c)
                          else (None, None))"
    using rest unfolding Let_def by (rule conjunct1)
  have "currentItemIndex st' = int 2
         \<and> (selectedAddress st', selectedShippingOption st') =
              (case find (\<lambda>c. e_lineItemId c = li_id (physicalItems bulk_props ! 2)) (itemConsignments ?st) of
                 None \<Rightarrow> (None, None)
               | Some c \<Rightarrow>
                   if e_shippingAddress c \<noteq> None \<and> e_selectedShippingOption c \<noteq> None
                      \<and> length (e_availableShippingOptions c) > 0
                   then (e_shippingAddress c, e_selectedShippingOption c)
                   else (None, None))"
    by (rule R1[rule_format, OF P])
  then have "currentItemIndex st' = 2 \<and> selectedAddress st' = None" unfolding f by simp
  then show ?thesis using a c l r by blast
qed

text \<open>
  The claim as stated fails when the only unconfigured item lies before the current
  position: with item A (position 0) unconfigured and the pointer on item B (the last
  position), \<^verbatim>\<open>handleContinue\<close> marks B configured and leaves the pointer on B, while
  the first unconfigured item in order is A.
\<close>

theorem handleContinue_pointer_counterexample:
  "handleContinue ex_props
      (ex_state\<lparr>currentItemIndex := 1, selectedAddress := Some [],
                configuredItems := [(''A'', False), (''B'', False)]\<rparr>) ex_world
     = (None,
        ex_state\<lparr>currentItemIndex := 1, selectedAddress := Some [],
                 configuredItems := [(''A'', False), (''B'', True)]\<rparr>,
        ex_world\<lparr>sdk := Some [], calls := [LoadCheckout, PutCheckout, LoadCheckout]\<rparr>)
   \<and> findIndex (\<lambda>it. \<not> configured [(''A'', False), (''B'', True)] (li_id it)) (physicalItems ex_props) = 0"
  by (simp add: handleContinue_def ex_props_def ex_state_def ex_world_def getCurrentConsignment_def
        getCurrentItem_def at_index_def item_A_def item_B_def fresh_entry_def loadCheckout_def fetch_def
        updateOrderSummaryDisplay_def set_configured_def configured_def fresh_storage_def)

section \<open>Selecting a shipping option: the cache round trip\<close>

lemma select_storage:
  assumes cur: "getCurrentItem p st = Some cur"
    and cc: "getCurrentConsignment p st = Some cc"
    and cid: "e_id cc = Some cid" "cid \<noteq> []"
    and sdk: "sdk w \<noteq> None"
    and ok: "plan w (length (calls w)) (PutShippingOption cid (option_id opt)) = Ok"
    and uc: "find (\<lambda>c. toString (li_id cur) \<in> set (c_lineItemIds c)) (remote w) = Some uc"
  shows "storage (snd (handleShippingOptionSelect p opt st w)) =
           updateStoredConsignment (c_id uc) (li_id cur) (li_quantity cur) (c_shippingAddress uc)
             (option_id opt) None (storage w)
         \<and> error (fst (handleShippingOptionSelect p opt st w)) = error st
         \<and> unhandled (snd (handleShippingOptionSelect p opt st w)) = unhandled w"
proof -
  note u = updateOption_ok[OF sdk ok]
  have fnd: "find (\<lambda>c. toString (li_id cur) \<in> set (c_lineItemIds c))
               (map (set_option cid (option_id opt)) (remote w))
               = Some (set_option cid (option_id opt) uc)"
    using find_map_set_option[of "\<lambda>l. toString (li_id cur) \<in> set l" cid "option_id opt" "remote w"] uc
    by (simp only: option.map)
  show ?thesis
    unfolding handleShippingOptionSelect_def Let_def
    by (simp add: cur cc cid u fnd)
qed

lemma clean_storage:
  "storage clean_world = \<lparr>item = Some (Json_array [Rec \<lparr>consignmentId = ''c-new'', lineItemId = IdStr ''A'', quantity = 1,
       shippingAddress = Some home, selectedShippingOptionId = [], selectedDeliveryDate = None\<rparr>]),
     getItem_throws = False, setItem_throws = False\<rparr>"
  by (simp add: clean_world_def saveConsignmentToSession_def save_try_def getItem_def setItem_def
        bnd_def fresh_storage_def)

lemma stale_storage:
  "storage stale_world = \<lparr>item = Some (Json_array
      [Rec \<lparr>consignmentId = ''c-old'', lineItemId = IdStr ''A'', quantity = 1,
             shippingAddress = Some home, selectedShippingOptionId = ''opt-1'', selectedDeliveryDate = None\<rparr>,
       Rec \<lparr>consignmentId = ''c-new'', lineItemId = IdStr ''A'', quantity = 1,
             shippingAddress = Some home, selectedShippingOptionId = [], selectedDeliveryDate = None\<rparr>]),
     getItem_throws = False, setItem_throws = False\<rparr>"
  by (simp add: stale_world_def clean_world_def saveConsignmentToSession_def save_try_def getItem_def
        setItem_def bnd_def fresh_storage_def)

text \<open>
  C3. Cache round trip. Let \<^verbatim>\<open>handleShippingOptionSelect\<close> run with option \<open>opt\<close> for a
  current item whose entry has a non-empty consignment id, with the checkout available
  and the gateway accepting the request, and let \<open>uc\<close> be the first of the platform's
  consignments that covers the item (the response reports it, with its id and address
  as they were). Let the session storage be readable and
  writable, its item absent, empty or an array of records, none of which is a record
  of another consignment than \<open>uc\<close> for the item's line item id (as a string) and
  quantity. Then the handler sets no error and reports none, and the lookup by the
  item's line item id and quantity returns the record of \<open>uc\<close> with the id of \<open>opt\<close>.
\<close>

theorem handleShippingOptionSelect_cached:
  assumes cur: "getCurrentItem p st = Some cur"
    and cc: "getCurrentConsignment p st = Some cc"
    and cid: "e_id cc = Some cid" "cid \<noteq> []"
    and sdk: "sdk w \<noteq> None"
    and ok: "plan w (length (calls w)) (PutShippingOption cid (option_id opt)) = Ok"
    and uc: "find (\<lambda>c. toString (li_id cur) \<in> set (c_lineItemIds c)) (remote w) = Some uc"
    and h: "healthy (storage w) cs"
    and nostale: "\<forall>r\<in>set cs. toString (lineItemId r) = toString (li_id cur) \<and> quantity r = li_quantity cur
                    \<longrightarrow> consignmentId r = c_id uc"
  shows "findStoredConsignmentByLineItemId (li_id cur) (li_quantity cur)
           (storage (snd (handleShippingOptionSelect p opt st w)))
         = Inr (Some \<lparr>consignmentId = c_id uc, lineItemId = li_id cur, quantity = li_quantity cur,
                       shippingAddress = c_shippingAddress uc,
                       selectedShippingOptionId = option_id opt, selectedDeliveryDate = None\<rparr>)
         \<and> error (fst (handleShippingOptionSelect p opt st w)) = error st
         \<and> unhandled (snd (handleShippingOptionSelect p opt st w)) = unhandled w"
proof -
  let ?d = "\<lparr>consignmentId = c_id uc, lineItemId = li_id cur, quantity = li_quantity cur,
                       shippingAddress = c_shippingAddress uc,
                       selectedShippingOptionId = option_id opt, selectedDeliveryDate = None\<rparr>"
  let ?P = "\<lambda>c. toString (lineItemId c) = toString (li_id cur) \<and> quantity c = li_quantity cur"
  note s = select_storage[OF cur cc cid sdk ok uc]
  have h': "healthy (updateStoredConsignment (c_id uc) (li_id cur) (li_quantity cur) (c_shippingAddress uc)
             (option_id opt) None (storage w)) (upsert ?d cs)"
    unfolding updateStoredConsignment_def by (rule save_healthy[OF h])
  have pd: "?P ?d" by simp
  have ns: "\<forall>r\<in>set cs. ?P r \<longrightarrow> consignmentId r = consignmentId ?d"
    using nostale by simp
  have f: "find ?P (upsert ?d cs) = Some ?d"
    by (rule find_upsert[OF pd ns])
  have "findStoredConsignmentByLineItemId (li_id cur) (li_quantity cur)
           (updateStoredConsignment (c_id uc) (li_id cur) (li_quantity cur) (c_shippingAddress uc)
             (option_id opt) None (storage w)) = Inr (Some ?d)"
    unfolding findStoredConsignmentByLineItemId_def healthy_get[OF h'] array_find.simps find_elem_recs f
    by simp
  then show ?thesis using s by simp
qed

theorem handleShippingOptionSelect_cached_witness:
  "getCurrentItem one_item_props select_state = Some item_A
   \<and> healthy (storage clean_world)
        [\<lparr>consignmentId = ''c-new'', lineItemId = IdStr ''A'', quantity = 1,
          shippingAddress = Some home, selectedShippingOptionId = [], selectedDeliveryDate = None\<rparr>]
   \<and> findStoredConsignmentByLineItemId (IdStr ''A'') 1
        (storage (snd (handleShippingOptionSelect one_item_props express select_state clean_world)))
      = Inr (Some \<lparr>consignmentId = ''c-new'', lineItemId = IdStr ''A'', quantity = 1,
                    shippingAddress = Some home, selectedShippingOptionId = ''opt-2'',
                    selectedDeliveryDate = None\<rparr>)"
proof -
  let ?cc = "\<lparr>e_id = Some ''c-new'', e_lineItemId = IdStr ''A'',
                            e_shippingAddress = Some home, e_selectedShippingOption = None,
                            e_availableShippingOptions = [ground, express]\<rparr>"
  let ?cs = "[\<lparr>consignmentId = ''c-new'', lineItemId = IdStr ''A'', quantity = 1,
       shippingAddress = Some home, selectedShippingOptionId = [], selectedDeliveryDate = None\<rparr>]"
  have cur: "getCurrentItem one_item_props select_state = Some item_A"
    by (simp add: getCurrentItem_def at_index_def one_item_props_def select_state_def)
  have cc: "getCurrentConsignment one_item_props select_state = Some ?cc"
    by (simp add: getCurrentConsignment_def cur) (simp add: select_state_def item_A_def)
  have cid: "e_id ?cc = Some ''c-new''" "''c-new'' \<noteq> []" by simp_all
  have sdk: "sdk clean_world \<noteq> None" by (simp add: clean_world_def)
  have ok: "plan clean_world (length (calls clean_world)) (PutShippingOption ''c-new'' (option_id express)) = Ok"
    by (simp add: clean_world_def)
  have uc: "find (\<lambda>c. toString (li_id item_A) \<in> set (c_lineItemIds c)) (remote clean_world) = Some consignment_new"
    by (simp add: clean_world_def consignment_new_def item_A_def)
  have h: "healthy (storage clean_world) ?cs"
    by (simp add: clean_storage healthy_def)
  have nostale: "\<forall>r\<in>set ?cs. toString (lineItemId r) = toString (li_id item_A) \<and> quantity r = li_quantity item_A
                    \<longrightarrow> consignmentId r = c_id consignment_new"
    by (simp add: consignment_new_def)
  show ?thesis
    using cur h handleShippingOptionSelect_cached[OF cur cc cid sdk ok uc h nostale]
    by (simp add: item_A_def consignment_new_def express_def)
qed

text \<open>
  The claim as stated fails when the cache still holds the record of an earlier
  consignment of the same line item and quantity: the save is keyed by consignment id
  and appends a record for the new consignment, the lookup returns the first record
  for the line item and quantity, and that is the earlier one with the option
  \<^verbatim>\<open>opt-1\<close>, not the selected \<^verbatim>\<open>opt-2\<close>.
\<close>

theorem handleShippingOptionSelect_stale_counterexample:
  "error (fst (handleShippingOptionSelect one_item_props express select_state stale_world)) = None
   \<and> unhandled (snd (handleShippingOptionSelect one_item_props express select_state stale_world)) = []
   \<and> cache_reachable (storage stale_world)
   \<and> findStoredConsignmentByLineItemId (IdStr ''A'') 1
        (storage (snd (handleShippingOptionSelect one_item_props express select_state stale_world)))
      = Inr (Some \<lparr>consignmentId = ''c-old'', lineItemId = IdStr ''A'', quantity = 1,
                    shippingAddress = Some home, selectedShippingOptionId = ''opt-1'',
                    selectedDeliveryDate = None\<rparr>)
   \<and> option_id express = ''opt-2''"
proof -
  let ?cc = "\<lparr>e_id = Some ''c-new'', e_lineItemId = IdStr ''A'',
                            e_shippingAddress = Some home, e_selectedShippingOption = None,
                            e_availableShippingOptions = [ground, express]\<rparr>"
  have cur: "getCurrentItem one_item_props select_state = Some item_A"
    by (simp add: getCurrentItem_def at_index_def one_item_props_def select_state_def)
  have cc: "getCurrentConsignment one_item_props select_state = Some ?cc"
    by (simp add: getCurrentConsignment_def cur) (simp add: select_state_def item_A_def)
  have cid: "e_id ?cc = Some ''c-new''" "''c-new'' \<noteq> []" by simp_all
  have sdk: "sdk stale_world \<noteq> None" by (simp add: stale_world_def clean_world_def)
  have ok: "plan stale_world (length (calls stale_world)) (PutShippingOption ''c-new'' (option_id express)) = Ok"
    by (simp add: stale_world_def clean_world_def)
  have uc: "find (\<lambda>c. toString (li_id item_A) \<in> set (c_lineItemIds c)) (remote stale_world) = Some consignment_new"
    by (simp add: stale_world_def clean_world_def consignment_new_def item_A_def)
  note s = select_storage[OF cur cc cid sdk ok uc]
  have reach: "cache_reachable (storage stale_world)"
    unfolding stale_world_def
    by (simp add: cache_reachable.saved[OF cache_reachable.saved[OF cache_reachable.fresh]])
  have e: "error select_state = None" by (simp add: select_state_def)
  have u: "unhandled stale_world = []" by (simp add: stale_world_def clean_world_def)
  have l: "findStoredConsignmentByLineItemId (IdStr ''A'') 1
        (updateStoredConsignment (c_id consignment_new) (li_id item_A) (li_quantity item_A)
           (c_shippingAddress consignment_new) (option_id express) None (storage stale_world))
      = Inr (Some \<lparr>consignmentId = ''c-old'', lineItemId = IdStr ''A'', quantity = 1,
                    shippingAddress = Some home, selectedShippingOptionId = ''opt-1'',
                    selectedDeliveryDate = None\<rparr>)"
    by (simp add: stale_storage updateStoredConsignment_def saveConsignmentToSession_def save_try_def
          getItem_def setItem_def bnd_def findStoredConsignmentByLineItemId_def getStoredConsignments_def
          consignment_new_def item_A_def)
  show ?thesis using s reach e u l by (simp add: express_def)
qed

section \<open>Initialization: the reconciliation pass\<close>

lemma restore_preserves:
  fixes f :: "world \<Rightarrow> 'a"
  assumes pf: "\<And>r w. f (snd (fetch r w)) = f w"
    and pl: "\<And>w. f (snd (loadCheckout w)) = f w"
    and pc: "\<And>m w. f (console_error m w) = f w"
  shows "f (snd (restoreConsignment s w)) = f w"
  unfolding restoreConsignment_def
  by (simp add: split_beta pf pl pc split: option.split outcome.split)

lemma init_restore_item_preserves:
  fixes f :: "world \<Rightarrow> 'a"
  assumes pf: "\<And>r w. f (snd (fetch r w)) = f w"
    and pl: "\<And>w. f (snd (loadCheckout w)) = f w"
    and pc: "\<And>m w. f (console_error m w) = f w"
  shows "f (snd (init_restore_item p it w)) = f w"
  unfolding init_restore_item_def Let_def
  by (simp add: split_beta restore_preserves[of f, OF pf pl pc] pc split: option.split sum.split)

lemma init_restore_loop_preserves:
  fixes f :: "world \<Rightarrow> 'a"
  assumes pf: "\<And>r w. f (snd (fetch r w)) = f w"
    and pl: "\<And>w. f (snd (loadCheckout w)) = f w"
    and pc: "\<And>m w. f (console_error m w) = f w"
  shows "f (snd (init_restore_loop p its w)) = f w"
proof (induction its arbitrary: w)
  case Nil
  show ?case by simp
next
  case (Cons it its)
  show ?case
    by (simp add: split_beta Cons init_restore_item_preserves[of f, OF pf pl pc] split: option.split)
qed

lemma init_restore_loop_fields [simp]:
  "plan (snd (init_restore_loop p its w)) = plan w"
  "storage (snd (init_restore_loop p its w)) = storage w"
  by (rule init_restore_loop_preserves; simp)+

lemma init_restore_item_total:
  assumes "healthy (storage w) cs"
  shows "fst (init_restore_item p it w) = None"
  unfolding init_restore_item_def Let_def findStoredConsignmentByLineItemId_def healthy_get[OF assms]
  by (simp add: split_beta find_elem_recs split: option.split)

lemma init_restore_loop_total:
  assumes "healthy (storage w) cs"
  shows "fst (init_restore_loop p its w) = None"
  using assms
proof (induction its arbitrary: w)
  case Nil
  show ?case by simp
next
  case (Cons it its)
  have h: "healthy (storage (snd (init_restore_item p it w))) cs"
    using Cons.prems init_restore_item_preserves[of storage p it w] by simp
  show ?case
    using init_restore_item_total[OF Cons.prems, of p it] Cons.IH[OF h]
    by (simp add: split_beta)
qed

lemma init_delete_loop_ok:
  assumes "\<forall>n cid. plan w n (DeleteConsignment cid) = Ok"
  shows "fst (init_delete_loop cs w) = None
       \<and> remote (snd (init_delete_loop cs w)) = filter (\<lambda>c. c_id c \<notin> c_id ` set cs) (remote w)
       \<and> storage (snd (init_delete_loop cs w)) = remove_all (map c_id cs) (storage w)
       \<and> calls (snd (init_delete_loop cs w)) = calls w @ map (\<lambda>c. DeleteConsignment (c_id c)) cs
       \<and> plan (snd (init_delete_loop cs w)) = plan w"
  using assms
proof (induction cs arbitrary: w)
  case Nil
  show ?case by (simp add: remove_all_def)
next
  case (Cons c cs)
  let ?w1 = "snd (fetch (DeleteConsignment (c_id c)) w)"
  let ?w2 = "if c_id c \<noteq> [] then ?w1\<lparr>storage := removeStoredConsignment (c_id c) (storage ?w1)\<rparr> else ?w1"
  have ok: "plan w (length (calls w)) (DeleteConsignment (c_id c)) = Ok" using Cons.prems by blast
  have step: "init_delete_loop (c # cs) w = init_delete_loop cs ?w2"
    by (simp add: split_beta ok)
  have p2: "\<forall>n cid. plan ?w2 n (DeleteConsignment cid) = Ok" using Cons.prems by simp
  have r1: "remote ?w1 = filter (\<lambda>x. c_id x \<noteq> c_id c) (remote w)"
    by (simp add: fetch_ok(2)[OF ok])
  have r2: "remote ?w2 = filter (\<lambda>x. c_id x \<noteq> c_id c) (remote w)"
    using r1 by (cases "c_id c = []") simp_all
  have s2: "storage ?w2 = (if c_id c \<noteq> [] then removeStoredConsignment (c_id c) (storage w) else storage w)"
    by simp
  have c2: "calls ?w2 = calls w @ [DeleteConsignment (c_id c)]" by simp
  have pl2: "plan ?w2 = plan w" by simp
  note ih = Cons.IH[OF p2]
  show ?case
    unfolding step
    using ih
    by (simp only: r2 s2 c2 pl2) (auto simp: remove_all_def)
qed


lemma remove_all_healthy:
  assumes "healthy s rs"
  shows "healthy (remove_all ids s) (filter (\<lambda>r. consignmentId r \<notin> set ids - {[]}) rs)"
  using assms
proof (induction ids arbitrary: s rs)
  case Nil
  then show ?case by (simp add: remove_all_def)
next
  case (Cons i ids)
  show ?case
  proof (cases "i = []")
    case True
    have "remove_all (i # ids) s = remove_all ids s" using True by (simp add: remove_all_def)
    moreover have "set (i # ids) - {[]} = set ids - {[]}" using True by auto
    ultimately show ?thesis using Cons.IH[OF Cons.prems] by simp
  next
    case False
    have e: "remove_all (i # ids) s = remove_all ids (removeStoredConsignment i s)"
      using False by (simp add: remove_all_def)
    have h: "healthy (removeStoredConsignment i s) (filter (\<lambda>c. consignmentId c \<noteq> i) rs)"
      by (rule remove_healthy[OF Cons.prems])
    have f: "filter (\<lambda>r. consignmentId r \<notin> set ids - {[]}) (filter (\<lambda>c. consignmentId c \<noteq> i) rs)
             = filter (\<lambda>r. consignmentId r \<notin> set (i # ids) - {[]}) rs"
      using False by (induction rs) auto
    show ?thesis unfolding e using Cons.IH[OF h] unfolding f .
  qed
qed

lemma remove_all_find:
  assumes "healthy s rs" and "cid \<in> set ids" and "cid \<noteq> []"
  shows "findStoredConsignmentById cid (remove_all ids s) = Inr None"
proof -
  have n: "find (\<lambda>c. consignmentId c = cid) (filter (\<lambda>r. consignmentId r \<notin> set ids - {[]}) rs) = None"
    using assms(2,3) unfolding find_None_iff by auto
  show ?thesis
    unfolding findStoredConsignmentById_def healthy_get[OF remove_all_healthy[OF assms(1)]]
    by (simp only: array_find.simps find_elem_recs n)
qed

lemma init_remove_fields:
  "remote (snd (snd (init_remove p st cs w))) = remote (snd (init_delete_loop cs w))"
  "storage (snd (snd (init_remove p st cs w))) = storage (snd (init_delete_loop cs w))"
  "grows (snd (init_delete_loop cs w)) (snd (snd (init_remove p st cs w)))"
  unfolding init_remove_def Let_def
  by (simp_all add: split_beta grows_def split: option.split outcome.split)

lemma sdk_delete_fields [simp]:
  "storage (snd (sdk_deleteConsignments w)) = storage w"
  "plan (snd (sdk_deleteConsignments w)) = plan w"
  "calls (snd (sdk_deleteConsignments w)) = calls w @ [DeleteConsignments]"
  "set (remote (snd (sdk_deleteConsignments w))) \<subseteq> set (remote w)"
  unfolding sdk_deleteConsignments_def
  by (simp_all add: split_beta fetch_remote split: outcome.split)

lemma load_twice_fields [simp]:
  "storage (snd (snd (load_twice st w))) = storage w"
  "remote (snd (snd (load_twice st w))) = remote w"
  "grows w (snd (snd (load_twice st w)))"
  unfolding load_twice_def
  by (simp_all add: split_beta grows_def split: outcome.split)

lemma init_keep_fields:
  "set (remote (snd (snd (init_keep p st cs w)))) \<subseteq> set (remote w)"
  "storage (snd (snd (init_keep p st cs w))) = storage w"
  "grows w (snd (snd (init_keep p st cs w)))"
proof -
  have g0: "grows w (snd (sdk_deleteConsignments w))" by (simp add: grows_def)
  have g: "grows w (snd (snd (load_twice s (snd (sdk_deleteConsignments w)))))" for s
    by (rule grows_trans[OF g0 load_twice_fields(3)])
  show "set (remote (snd (snd (init_keep p st cs w)))) \<subseteq> set (remote w)"
    unfolding init_keep_def Let_def
    by (simp add: split_beta split: outcome.split)
  show "storage (snd (snd (init_keep p st cs w))) = storage w"
    unfolding init_keep_def Let_def
    by (simp add: split_beta split: outcome.split)
  show "grows w (snd (snd (init_keep p st cs w)))"
    unfolding init_keep_def Let_def
    using g g0 by (simp add: split_beta split: outcome.split)
qed

lemma grows_mem: "grows w w' \<Longrightarrow> r \<in> set (calls w) \<Longrightarrow> r \<in> set (calls w')"
  by (auto simp: grows_def)

lemma case_triple_snd:
  "snd (case x of (None, st1, w1) \<Rightarrow> (f st1, w1) | (Some e, st1, w1) \<Rightarrow> (g e st1, w1))
     = snd (snd x)"
  by (cases x; cases "fst x"; simp)

lemma case_loop_None:
  "fst x = None \<Longrightarrow>
     (case x of (Some e, w1) \<Rightarrow> A e w1 | (None, w1) \<Rightarrow> B w1) = B (snd x)"
  by (cases x; simp)

lemma case_fetch_Ok:
  "fst y = Ok \<Longrightarrow>
     (case y of (Rejected, w2) \<Rightarrow> A w2 | (NotOk t, w2) \<Rightarrow> B t w2 | (Ok, w2) \<Rightarrow> C w2) = C (snd y)"
  by (cases y; simp)

lemma initConsignments_world:
  "physicalItems p \<noteq> [] \<Longrightarrow>
   snd (initConsignments p st w) =
     snd (snd (init_try p (st\<lparr>isLoading := True,
                 originalItemOrder := map (\<lambda>it. toString (li_id it)) (physicalItems p)\<rparr>) w))"
  unfolding initConsignments_def
  by (simp only: length_greater_0_conv if_True case_triple_snd simp_thms)

lemma init_try_after_reread:
  assumes sdk: "sdk w \<noteq> None"
    and loop: "fst (init_restore_loop p (physicalItems p) w) = None"
    and get: "plan w (length (calls (snd (init_restore_loop p (physicalItems p) w)))) GetCheckout = Ok"
  shows "init_try p st w =
     (let w2 = snd (fetch GetCheckout (snd (init_restore_loop p (physicalItems p) w)));
          currentConsignments = remote (snd (init_restore_loop p (physicalItems p) w));
          consignmentsToRemove = filter (\<lambda>c. c_selectedShippingOption c = None) currentConsignments
      in if consignmentsToRemove \<noteq> [] then init_remove p st consignmentsToRemove w2
         else init_keep p st currentConsignments w2)"
proof -
  obtain ck where ck: "sdk w = Some ck" using sdk by blast
  let ?w1 = "snd (init_restore_loop p (physicalItems p) w)"
  have ok: "plan ?w1 (length (calls ?w1)) GetCheckout = Ok" using get by simp
  have "fst (fetch GetCheckout ?w1) = fst (Ok, snd (fetch GetCheckout ?w1))"
    by (rule arg_cong[OF fetch_ok(1)[OF ok]])
  then have f: "fst (fetch GetCheckout ?w1) = Ok" by (simp only: fst_conv)
  have r: "remote (snd (fetch GetCheckout ?w1)) = remote ?w1"
    using fetch_ok(2)[OF ok] by simp
  show ?thesis
    unfolding init_try_def ck option.case
    by (simp only: case_loop_None[OF loop] case_fetch_Ok[OF f] r Let_def length_greater_0_conv)
qed


text \<open>
  C1. Take a pass over a cart with physical items in which the checkout is available,
  the session storage can be read and written and its item is absent, empty or an
  array of records, the re-read of the checkout is answered successfully and every
  DELETE request is answered successfully. At the end of the pass no consignment
  without a selected shipping option is left on the platform: every consignment that is
  incomplete at the re-read, that is, after the replays of the restore loop, is deleted
  through the storefront API, and when it has an id the cache holds no record of that id
  afterwards.
\<close>

theorem initConsignments_no_incomplete:
  assumes items: "physicalItems p \<noteq> []" and sdk: "sdk w \<noteq> None"
    and h: "healthy (storage w) rs"
    and get: "\<forall>n. plan w n GetCheckout = Ok"
    and del: "\<forall>n cid. plan w n (DeleteConsignment cid) = Ok"
  shows "(\<forall>c\<in>set (remote (snd (initConsignments p st w))). c_selectedShippingOption c \<noteq> None)
       \<and> (\<forall>c\<in>set (remote (snd (init_restore_loop p (physicalItems p) w))).
             c_selectedShippingOption c = None \<longrightarrow>
               DeleteConsignment (c_id c) \<in> set (calls (snd (initConsignments p st w)))
               \<and> (c_id c \<noteq> [] \<longrightarrow>
                    findStoredConsignmentById (c_id c) (storage (snd (initConsignments p st w)))
                      = Inr None))"
proof -
  let ?st0 = "st\<lparr>isLoading := True,
                 originalItemOrder := map (\<lambda>it. toString (li_id it)) (physicalItems p)\<rparr>"
  let ?w1 = "snd (init_restore_loop p (physicalItems p) w)"
  let ?w2 = "snd (fetch GetCheckout ?w1)"
  let ?R = "remote ?w1"
  let ?T = "filter (\<lambda>c. c_selectedShippingOption c = None) ?R"
  let ?F = "snd (initConsignments p st w)"
  have loop: "fst (init_restore_loop p (physicalItems p) w) = None"
    by (rule init_restore_loop_total[OF h])
  have g: "plan w (length (calls ?w1)) GetCheckout = Ok" using get by blast
  note t = init_try_after_reread[OF sdk loop g, of ?st0]
  have F: "?F = snd (snd (init_try p ?st0 w))" by (rule initConsignments_world[OF items])
  have s2: "storage ?w2 = storage w" by simp
  have d2: "\<forall>n cid. plan ?w2 n (DeleteConsignment cid) = Ok" using del by simp
  show ?thesis
  proof (cases "?T = []")
    case True
    have FF: "?F = snd (snd (init_keep p ?st0 ?R ?w2))"
      unfolding F t Let_def using True by simp
    have r2: "remote ?w2 = ?R" using fetch_ok(2)[of ?w1 GetCheckout] g by simp
    have sub: "set (remote ?F) \<subseteq> set ?R"
      unfolding FF using init_keep_fields(1)[of p ?st0 ?R ?w2] r2 by simp
    have all: "\<forall>c\<in>set ?R. c_selectedShippingOption c \<noteq> None"
      using True by (auto simp: filter_empty_conv)
    show ?thesis using sub all by blast
  next
    case False
    let ?w3 = "snd (init_delete_loop ?T ?w2)"
    have FF: "?F = snd (snd (init_remove p ?st0 ?T ?w2))"
      unfolding F t Let_def using False by simp
    note dl = init_delete_loop_ok[OF d2, of ?T]
    have r2: "remote ?w2 = ?R" using fetch_ok(2)[of ?w1 GetCheckout] g by simp
    have rF: "remote ?F = filter (\<lambda>c. c_id c \<notin> c_id ` set ?T) ?R"
      unfolding FF init_remove_fields(1) using dl r2 by simp
    have sF: "storage ?F = remove_all (map c_id ?T) (storage w)"
      unfolding FF init_remove_fields(2) using dl s2 by simp
    have gF: "grows ?w3 ?F"
      unfolding FF by (rule init_remove_fields(3))
    have c3: "calls ?w3 = calls ?w2 @ map (\<lambda>c. DeleteConsignment (c_id c)) ?T" using dl by blast
    have 1: "\<forall>c\<in>set (remote ?F). c_selectedShippingOption c \<noteq> None"
      unfolding rF by auto
    have 2: "DeleteConsignment (c_id c) \<in> set (calls ?F)
             \<and> (c_id c \<noteq> [] \<longrightarrow> findStoredConsignmentById (c_id c) (storage ?F) = Inr None)"
      if c: "c \<in> set ?R" and n: "c_selectedShippingOption c = None" for c
    proof -
      have cT: "c \<in> set ?T" using c n by simp
      have "DeleteConsignment (c_id c) \<in> set (calls ?w3)" unfolding c3 using cT by auto
      then have a: "DeleteConsignment (c_id c) \<in> set (calls ?F)" by (rule grows_mem[OF gF])
      have m: "c_id c \<in> set (map c_id ?T)" using cT by auto
      have b: "c_id c \<noteq> [] \<Longrightarrow> findStoredConsignmentById (c_id c) (storage ?F) = Inr None"
        unfolding sF by (rule remove_all_find[OF h m])
      show ?thesis using a b by blast
    qed
    show ?thesis using 1 2 by blast
  qed
qed

theorem initConsignments_no_incomplete_witness:
  "physicalItems init_props \<noteq> [] \<and> sdk clean_world \<noteq> None
   \<and> healthy (storage clean_world)
        [\<lparr>consignmentId = ''c-new'', lineItemId = IdStr ''A'', quantity = 1,
          shippingAddress = Some home, selectedShippingOptionId = [], selectedDeliveryDate = None\<rparr>]
   \<and> consignment_new \<in> set (remote (snd (init_restore_loop init_props (physicalItems init_props) clean_world)))
   \<and> DeleteConsignment ''c-new'' \<in> set (calls (snd (initConsignments init_props ex_state clean_world)))
   \<and> findStoredConsignmentById ''c-new'' (storage (snd (initConsignments init_props ex_state clean_world)))
        = Inr None"
proof -
  have 1: "physicalItems init_props \<noteq> []" by (simp add: init_props_def)
  have 2: "sdk clean_world \<noteq> None" by (simp add: clean_world_def)
  have 3: "healthy (storage clean_world)
        [\<lparr>consignmentId = ''c-new'', lineItemId = IdStr ''A'', quantity = 1,
          shippingAddress = Some home, selectedShippingOptionId = [], selectedDeliveryDate = None\<rparr>]"
    by (simp add: clean_storage healthy_def)
  have 4: "\<forall>n. plan clean_world n GetCheckout = Ok" by (simp add: clean_world_def)
  have 5: "\<forall>n cid. plan clean_world n (DeleteConsignment cid) = Ok" by (simp add: clean_world_def)
  have m: "consignment_new \<in> set (remote (snd (init_restore_loop init_props (physicalItems init_props) clean_world)))"
    by code_simp
  have n: "c_selectedShippingOption consignment_new = None" "c_id consignment_new = ''c-new''"
    by (simp_all add: consignment_new_def)
  show ?thesis
    using initConsignments_no_incomplete[OF 1 2 3 4 5, of ex_state] 1 2 3 m n by fastforce
qed


text \<open>
  As stated for every pass, the claim fails: when the re-read of the checkout is answered
  with an error status the pass throws \<^verbatim>\<open>Failed to split line item\<close> before the removal,
  and the incomplete consignment stays on the platform.
\<close>

theorem initConsignments_reread_counterexample:
  "remote (snd (initConsignments init_props ex_state reread_fails_world)) = [consignment_new]
   \<and> c_selectedShippingOption consignment_new = None
   \<and> error (fst (initConsignments init_props ex_state reread_fails_world))
        = Some ''Error initializing: Failed to split line item''"
  by code_simp

section \<open>Initialization: restoring a consignment from the cache\<close>

lemma restore_calls:
  assumes "\<not> Q LoadCheckout"
  shows "filter Q (calls (snd (restoreConsignment s w))) = filter Q (calls w) @
       (case sdk w of None \<Rightarrow> []
        | Some cs \<Rightarrow>
           (case find (\<lambda>c. toString (lineItemId s) \<in> set (c_lineItemIds c)) cs of
              None \<Rightarrow> []
            | Some x \<Rightarrow> filter Q [PutShippingOption (c_id x) (selectedShippingOptionId s)]))"
  unfolding restoreConsignment_def
  by (simp add: split_beta assms split: option.split outcome.split)

lemma restore_invariant:
  assumes pf: "\<And>cid oid w. I w \<Longrightarrow> I (snd (fetch (PutShippingOption cid oid) w))"
    and pl: "\<And>w. I w \<Longrightarrow> I (snd (loadCheckout w))"
    and pc: "\<And>m w. I w \<Longrightarrow> I (console_error m w)"
    and i: "I w"
  shows "I (snd (restoreConsignment s w))"
  unfolding restoreConsignment_def
  by (simp add: split_beta pf pl pc i split: option.split outcome.split)

lemma init_restore_item_invariant:
  assumes pf: "\<And>cid oid w. I w \<Longrightarrow> I (snd (fetch (PutShippingOption cid oid) w))"
    and pl: "\<And>w. I w \<Longrightarrow> I (snd (loadCheckout w))"
    and pc: "\<And>m w. I w \<Longrightarrow> I (console_error m w)"
    and i: "I w"
  shows "I (snd (init_restore_item p it w))"
  unfolding init_restore_item_def Let_def
  by (simp add: split_beta restore_invariant[of I, OF pf pl pc i] pc i split: option.split sum.split)

lemma init_restore_loop_invariant:
  assumes pf: "\<And>cid oid w. I w \<Longrightarrow> I (snd (fetch (PutShippingOption cid oid) w))"
    and pl: "\<And>w. I w \<Longrightarrow> I (snd (loadCheckout w))"
    and pc: "\<And>m w. I w \<Longrightarrow> I (console_error m w)"
    and i: "I w"
  shows "I (snd (init_restore_loop p its w))"
  using i
proof (induction its arbitrary: w)
  case Nil
  then show ?case by simp
next
  case (Cons it its)
  have 1: "I (snd (init_restore_item p it w))"
    by (rule init_restore_item_invariant[of I, OF pf pl pc Cons.prems])
  show ?case
    using 1 Cons.IH[OF 1] by (simp add: split_beta split: option.split)
qed

lemma shape_set_option [simp]: "shape (map (set_option cid oid) cs) = shape cs"
  by (simp add: shape_def)

lemma in_sync_steps:
  "in_sync S w \<Longrightarrow> in_sync S (snd (fetch (PutShippingOption cid oid) w))"
  "in_sync S w \<Longrightarrow> in_sync S (snd (loadCheckout w))"
  "in_sync S w \<Longrightarrow> in_sync S (console_error m w)"
  by (simp_all add: in_sync_def fetch_remote loadCheckout_sdk)

lemma completed_steps:
  "completed cid w \<Longrightarrow> completed cid (snd (fetch (PutShippingOption cid' oid) w))"
  "completed cid w \<Longrightarrow> completed cid (snd (loadCheckout w))"
  "completed cid w \<Longrightarrow> completed cid (console_error m w)"
  by (auto simp: completed_def fetch_remote list_all_iff set_option_def)

lemma logged_steps:
  "m \<in> set (console w) \<Longrightarrow> m \<in> set (console (snd (fetch r w)))"
  "m \<in> set (console w) \<Longrightarrow> m \<in> set (console (snd (loadCheckout w)))"
  "m \<in> set (console w) \<Longrightarrow> m \<in> set (console (console_error m' w))"
  by simp_all


lemma init_delete_loop_calls:
  assumes "\<forall>x\<in>set cs. \<not> Q (DeleteConsignment (c_id x))"
  shows "filter Q (calls (snd (init_delete_loop cs w))) = filter Q (calls w)"
  using assms
proof (induction cs arbitrary: w)
  case Nil
  show ?case by simp
next
  case (Cons c cs)
  have q: "\<not> Q (DeleteConsignment (c_id c))" using Cons.prems by simp
  have r: "\<forall>x\<in>set cs. \<not> Q (DeleteConsignment (c_id x))" using Cons.prems by simp
  show ?case
    using q by (cases "c_id c = []") (simp_all add: split_beta Cons.IH[OF r] split: outcome.split)
qed

lemma load_twice_calls:
  "\<not> Q LoadCheckout \<Longrightarrow> filter Q (calls (snd (snd (load_twice st w)))) = filter Q (calls w)"
  unfolding load_twice_def
  by (simp add: split_beta split: outcome.split)

lemma init_remove_calls:
  assumes l: "\<not> Q LoadCheckout" and d: "\<forall>x\<in>set cs. \<not> Q (DeleteConsignment (c_id x))"
  shows "filter Q (calls (snd (snd (init_remove p st cs w)))) = filter Q (calls w)"
  unfolding init_remove_def Let_def
  by (simp add: split_beta l init_delete_loop_calls[of cs Q, OF d] split: option.split outcome.split)

lemma init_keep_calls:
  assumes l: "\<not> Q LoadCheckout"
    and b: "\<not> Q DeleteConsignments \<or> \<not> deleteConsignments_given p
            \<or> \<not> list_ex (\<lambda>x. length (c_lineItemIds x) > 1) cs"
  shows "filter Q (calls (snd (snd (init_keep p st cs w)))) = filter Q (calls w)"
proof -
  have e: "filter (\<lambda>c. length (c_lineItemIds c) > 1) cs \<noteq> [] \<longleftrightarrow>
           list_ex (\<lambda>x. length (c_lineItemIds x) > 1) cs"
    by (simp add: filter_empty_conv list_ex_iff)
  show ?thesis
    unfolding init_keep_def Let_def length_greater_0_conv e
    using b by (auto simp add: split_beta l load_twice_calls[of Q, OF l] split: outcome.split)
qed

lemma case_fetch_not_Ok:
  "fst y \<noteq> Ok \<Longrightarrow>
     snd (snd (case y of (Rejected, w2) \<Rightarrow> (a, s, w2) | (NotOk t, w2) \<Rightarrow> (b, s, w2)
                | (Ok, w2) \<Rightarrow> C w2)) = snd y"
  by (cases y; cases "fst y"; simp)

lemma init_try_calls:
  assumes sdk: "sdk w \<noteq> None"
    and loop: "fst (init_restore_loop p (physicalItems p) w) = None"
    and l: "\<not> Q LoadCheckout"
    and d: "\<forall>x\<in>set (remote (snd (init_restore_loop p (physicalItems p) w))).
              c_selectedShippingOption x = None \<longrightarrow> \<not> Q (DeleteConsignment (c_id x))"
    and b: "\<not> Q DeleteConsignments \<or> \<not> deleteConsignments_given p
            \<or> \<not> list_ex (\<lambda>x. length (c_lineItemIds x) > 1)
                   (remote (snd (init_restore_loop p (physicalItems p) w)))"
  shows "filter Q (calls (snd (snd (init_try p st w)))) =
           filter Q (calls (snd (init_restore_loop p (physicalItems p) w))) @ filter Q [GetCheckout]"
proof -
  obtain ck where ck: "sdk w = Some ck" using sdk by blast
  let ?w1 = "snd (init_restore_loop p (physicalItems p) w)"
  let ?w2 = "snd (fetch GetCheckout ?w1)"
  let ?T = "filter (\<lambda>c. c_selectedShippingOption c = None) (remote ?w1)"
  have c2: "filter Q (calls ?w2) = filter Q (calls ?w1) @ filter Q [GetCheckout]" by simp
  have dT: "\<forall>x\<in>set ?T. \<not> Q (DeleteConsignment (c_id x))" using d by simp
  have rm: "filter Q (calls (snd (snd (init_remove p st ?T ?w2)))) = filter Q (calls ?w2)"
    by (rule init_remove_calls[of Q, OF l dT])
  have kp: "filter Q (calls (snd (snd (init_keep p st (remote ?w1) ?w2)))) = filter Q (calls ?w2)"
    by (rule init_keep_calls[of Q, OF l b])
  show ?thesis
  proof (cases "plan ?w1 (length (calls ?w1)) GetCheckout = Ok")
    case True
    have f: "fst (fetch GetCheckout ?w1) = Ok" using True by simp
    have r: "remote ?w2 = remote ?w1" using True by (simp add: fetch_remote)
    have "snd (snd (init_try p st w)) =
            (if ?T \<noteq> [] then snd (snd (init_remove p st ?T ?w2))
             else snd (snd (init_keep p st (remote ?w1) ?w2)))"
      unfolding init_try_def ck option.case
      by (simp only: case_loop_None[OF loop] case_fetch_Ok[OF f] r Let_def length_greater_0_conv if_distrib[of "\<lambda>x. snd (snd x)"])
    then show ?thesis using rm kp c2 by (cases "?T = []") simp_all
  next
    case False
    have f: "fst (fetch GetCheckout ?w1) \<noteq> Ok" using False by simp
    have "snd (snd (init_try p st w)) = ?w2"
      unfolding init_try_def ck option.case
      by (simp only: case_loop_None[OF loop] case_fetch_not_Ok[OF f])
    then show ?thesis using c2 by simp
  qed
qed

lemma case_loop_Some:
  "fst x = Some e \<Longrightarrow>
     (case x of (Some e, w1) \<Rightarrow> A e w1 | (None, w1) \<Rightarrow> B w1) = A e (snd x)"
  by (cases x; simp)

lemma init_restore_loop_append:
  "fst (init_restore_loop p xs w) = None \<Longrightarrow>
   init_restore_loop p (xs @ ys) w = init_restore_loop p ys (snd (init_restore_loop p xs w))"
proof (induction xs arbitrary: w)
  case Nil
  show ?case by simp
next
  case (Cons x xs)
  show ?case
  proof (cases "fst (init_restore_item p x w)")
    case None
    have 1: "init_restore_loop p (x # xs) w = init_restore_loop p xs (snd (init_restore_item p x w))"
      by (simp only: init_restore_loop.simps case_loop_None[OF None])
    have 2: "init_restore_loop p ((x # xs) @ ys) w
               = init_restore_loop p (xs @ ys) (snd (init_restore_item p x w))"
      by (simp only: append_Cons init_restore_loop.simps case_loop_None[OF None])
    have 3: "fst (init_restore_loop p xs (snd (init_restore_item p x w))) = None"
      using Cons.prems unfolding 1 .
    show ?thesis unfolding 1 2 by (rule Cons.IH[OF 3])
  next
    case (Some e)
    have "init_restore_loop p (x # xs) w = (Some e, snd (init_restore_item p x w))"
      by (simp only: init_restore_loop.simps case_loop_Some[OF Some])
    then have "fst (init_restore_loop p (x # xs) w) = Some e" by (simp only: fst_conv)
    then show ?thesis using Cons.prems by simp
  qed
qed

lemma shape_mem:
  assumes "shape cs = shape cs0" and "x \<in> set cs"
  shows "\<exists>x0\<in>set cs0. c_id x0 = c_id x \<and> c_lineItemIds x0 = c_lineItemIds x"
proof -
  from assms(2) have "(\<lambda>c. (c_id c, c_lineItemIds c)) x \<in> (\<lambda>c. (c_id c, c_lineItemIds c)) ` set cs"
    by (rule imageI)
  then have "(c_id x, c_lineItemIds x) \<in> set (shape cs)"
    unfolding shape_def set_map by simp
  then have "(c_id x, c_lineItemIds x) \<in> (\<lambda>c. (c_id c, c_lineItemIds c)) ` set cs0"
    unfolding assms(1) unfolding shape_def set_map .
  then obtain x0 where x0: "x0 \<in> set cs0" "(c_id x, c_lineItemIds x) = (c_id x0, c_lineItemIds x0)"
    by (rule imageE)
  show ?thesis by (rule bexI[OF _ x0(1)]) (use x0(2) in simp)
qed

lemma find_unique:
  assumes "c \<in> set xs" "P c" "\<forall>x\<in>set xs. P x \<longrightarrow> x = c"
  shows "find P xs = Some c"
  using assms
proof (induction xs)
  case Nil
  then show ?case by simp
next
  case (Cons a xs)
  show ?case
  proof (cases "P a")
    case True
    then have "a = c" using Cons.prems(3) by simp
    then show ?thesis using True by simp
  next
    case False
    then have "a \<noteq> c" using Cons.prems(2) by blast
    then have m: "c \<in> set xs" using Cons.prems(1) by simp
    have u: "\<forall>x\<in>set xs. P x \<longrightarrow> x = c" using Cons.prems(3) by simp
    show ?thesis using Cons.IH[OF m Cons.prems(2) u] False by simp
  qed
qed

lemma find_distinct_key:
  assumes "distinct (map f xs)" "x \<in> set xs"
  shows "find (\<lambda>y. f y = f x) xs = Some x"
  using assms
proof (induction xs)
  case Nil
  then show ?case by simp
next
  case (Cons a xs)
  show ?case
  proof (cases "a = x")
    case True
    then show ?thesis by simp
  next
    case False
    then have m: "x \<in> set xs" using Cons.prems by simp
    have "f a \<notin> f ` set xs" using Cons.prems(1) by simp
    then have n: "f a \<noteq> f x" using m by blast
    have d: "distinct (map f xs)" using Cons.prems(1) by simp
    show ?thesis using Cons.IH[OF d m] n by simp
  qed
qed

lemma restore_target:
  assumes sh: "shape cs = shape cs0"
    and c: "c \<in> set cs0" "c_lineItemIds c = [A]"
    and only: "\<forall>x\<in>set cs0. A \<in> set (c_lineItemIds x) \<longrightarrow> x = c"
  shows "\<exists>x. find (\<lambda>c. A \<in> set (c_lineItemIds c)) cs = Some x \<and> c_id x = c_id c"
proof -
  obtain y where y: "y \<in> set cs" "c_lineItemIds y = c_lineItemIds c"
    using shape_mem[OF sh[symmetric] c(1)] by blast
  have "\<exists>y\<in>set cs. A \<in> set (c_lineItemIds y)"
    by (rule bexI[OF _ y(1)]) (simp add: y(2) c(2))
  then have "find (\<lambda>c. A \<in> set (c_lineItemIds c)) cs \<noteq> None"
    unfolding find_None_iff by blast
  then obtain x where x: "find (\<lambda>c. A \<in> set (c_lineItemIds c)) cs = Some x" by blast
  have xs: "x \<in> set cs" "A \<in> set (c_lineItemIds x)"
    using x unfolding find_Some_iff by (auto simp: in_set_conv_nth)
  obtain x0 where x0: "x0 \<in> set cs0" "c_id x0 = c_id x" "c_lineItemIds x0 = c_lineItemIds x"
    using shape_mem[OF sh xs(1)] by blast
  have "x0 = c" using only x0(1) x0(3) xs(2) by simp
  then have "c_id x = c_id c" using x0(2) by simp
  then show ?thesis using x by blast
qed

lemma restore_other_target:
  assumes sh: "shape cs = shape cs0"
    and c: "c \<in> set cs0" "c_lineItemIds c = [A]"
    and dist: "distinct (map c_id cs0)"
    and ne: "B \<noteq> A"
    and x: "find (\<lambda>c. B \<in> set (c_lineItemIds c)) cs = Some x"
  shows "c_id x \<noteq> c_id c"
proof
  assume e: "c_id x = c_id c"
  have xs: "x \<in> set cs" "B \<in> set (c_lineItemIds x)"
    using x unfolding find_Some_iff by (auto simp: in_set_conv_nth)
  obtain x0 where x0: "x0 \<in> set cs0" "c_id x0 = c_id x" "c_lineItemIds x0 = c_lineItemIds x"
    using shape_mem[OF sh xs(1)] by blast
  have i: "inj_on c_id (set cs0)" using dist by (simp add: distinct_map)
  have "c_id x0 = c_id c" using x0(2) e by simp
  then have "x0 = c" by (rule inj_onD[OF i _ x0(1) c(1)])
  then have "B \<in> set [A]" using x0(3) xs(2) c(2) by simp
  then show False using ne by simp
qed

lemma sets_option_of_simps [simp]:
  "sets_option_of cid (PutShippingOption c oid) = (c = cid)"
  "\<not> sets_option_of cid LoadCheckout"
  "\<not> sets_option_of cid GetCheckout"
  "\<not> sets_option_of cid (DeleteConsignment x)"
  "\<not> sets_option_of cid DeleteConsignments"
  by (simp_all add: sets_option_of_def)

lemma restore_calls_self:
  assumes sy: "in_sync (shape cs0) w"
    and c: "c \<in> set cs0" "c_lineItemIds c = [toString (lineItemId s)]"
    and only: "\<forall>x\<in>set cs0. toString (lineItemId s) \<in> set (c_lineItemIds x) \<longrightarrow> x = c"
  shows "filter (sets_option_of (c_id c)) (calls (snd (restoreConsignment s w)))
           = filter (sets_option_of (c_id c)) (calls w)
             @ [PutShippingOption (c_id c) (selectedShippingOptionId s)]"
proof -
  obtain cs where cs: "sdk w = Some cs" "shape cs = shape cs0"
    using sy unfolding in_sync_def by auto
  obtain x where x: "find (\<lambda>c. toString (lineItemId s) \<in> set (c_lineItemIds c)) cs = Some x"
      "c_id x = c_id c"
    using restore_target[OF cs(2) c only] by blast
  show ?thesis
    unfolding restore_calls[of "sets_option_of (c_id c)", OF sets_option_of_simps(2)] cs(1) option.case x
    by simp
qed

lemma restore_calls_other:
  assumes sy: "in_sync (shape cs0) w"
    and c: "c \<in> set cs0" "c_lineItemIds c = [A]"
    and dist: "distinct (map c_id cs0)"
    and ne: "toString (lineItemId s) \<noteq> A"
  shows "filter (sets_option_of (c_id c)) (calls (snd (restoreConsignment s w)))
           = filter (sets_option_of (c_id c)) (calls w)"
proof -
  obtain cs where cs: "sdk w = Some cs" "shape cs = shape cs0"
    using sy unfolding in_sync_def by auto
  show ?thesis
  proof (cases "find (\<lambda>c. toString (lineItemId s) \<in> set (c_lineItemIds c)) cs")
    case None
    show ?thesis
      unfolding restore_calls[of "sets_option_of (c_id c)", OF sets_option_of_simps(2)] cs(1) option.case None
      by simp
  next
    case (Some x)
    have "c_id x \<noteq> c_id c" by (rule restore_other_target[OF cs(2) c dist ne Some])
    then show ?thesis
      unfolding restore_calls[of "sets_option_of (c_id c)", OF sets_option_of_simps(2)] cs(1) option.case Some
      by simp
  qed
qed

lemma lookup_healthy:
  assumes h: "healthy s rs"
  shows "findStoredConsignmentByLineItemId lid q s
           = Inr (find (\<lambda>c. toString (lineItemId c) = toString lid \<and> quantity c = q) rs)"
  unfolding findStoredConsignmentByLineItemId_def healthy_get[OF h] array_find.simps find_elem_recs ..

lemma lookup_matches:
  assumes h: "healthy s rs"
    and f: "findStoredConsignmentByLineItemId lid q s = Inr (Some r)"
  shows "toString (lineItemId r) = toString lid"
proof -
  have "find (\<lambda>c. toString (lineItemId c) = toString lid \<and> quantity c = q) rs = Some r"
    using f unfolding lookup_healthy[OF h] by simp
  then show ?thesis unfolding find_Some_iff by blast
qed

lemma init_restore_item_other:
  assumes sy: "in_sync (shape cs0) w"
    and c: "c \<in> set cs0" "c_lineItemIds c = [A]"
    and dist: "distinct (map c_id cs0)"
    and ne: "toString (li_id j) \<noteq> A"
    and h: "healthy (storage w) rs"
  shows "filter (sets_option_of (c_id c)) (calls (snd (init_restore_item p j w)))
           = filter (sets_option_of (c_id c)) (calls w)"
proof -
  have R: "filter (sets_option_of (c_id c)) (calls (snd (restoreConsignment s w)))
           = filter (sets_option_of (c_id c)) (calls w)"
    if "find (\<lambda>c. toString (lineItemId c) = toString (li_id j) \<and> quantity c = q) rs = Some s"
    for s q
  proof -
    have "toString (lineItemId s) = toString (li_id j)"
      using that unfolding find_Some_iff by blast
    then have n: "toString (lineItemId s) \<noteq> A" using ne by simp
    show ?thesis by (rule restore_calls_other[OF sy c dist n])
  qed
  show ?thesis
    unfolding init_restore_item_def Let_def lookup_healthy[OF h]
    by (simp add: split_beta R split: option.split)
qed

lemma init_restore_item_self:
  assumes it: "it \<in> set (physicalItems p)"
    and di: "distinct (map (\<lambda>i. toString (li_id i)) (physicalItems p))"
    and c: "c \<in> set (consignments p)" "c_lineItemIds c = [toString (li_id it)]"
    and inc: "c_selectedShippingOption c = None"
    and only: "\<forall>x\<in>set (consignments p). toString (li_id it) \<in> set (c_lineItemIds x) \<longrightarrow> x = c"
    and rec: "findStoredConsignmentByLineItemId (li_id it) (li_quantity it) (storage w) = Inr (Some r)"
    and oid: "selectedShippingOptionId r \<noteq> []"
  shows "init_restore_item p it w =
           (case restoreConsignment r w of
              (None, w1) \<Rightarrow> (None, w1)
            | (Some e, w1) \<Rightarrow> (None, console_error ''Error restoring consignment for item'' w1))"
proof -
  have ph: "find (\<lambda>physItem. toString (li_id physItem) = toString (li_id it)) (physicalItems p) = Some it"
    by (rule find_distinct_key[of "\<lambda>i. toString (li_id i)", OF di it])
  have u: "\<forall>x\<in>set (consignments p).
             length (c_lineItemIds x) = 1 \<and> hd (c_lineItemIds x) = toString (li_id it) \<longrightarrow> x = c"
  proof (intro ballI impI)
    fix x assume x: "x \<in> set (consignments p)"
      and l: "length (c_lineItemIds x) = 1 \<and> hd (c_lineItemIds x) = toString (li_id it)"
    have "c_lineItemIds x \<noteq> []" using l by auto
    then have "hd (c_lineItemIds x) \<in> set (c_lineItemIds x)" by (rule hd_in_set)
    then have "toString (li_id it) \<in> set (c_lineItemIds x)" using l by simp
    then show "x = c" using only x by blast
  qed
  have ex: "find (\<lambda>x. length (c_lineItemIds x) = 1 \<and> hd (c_lineItemIds x) = toString (li_id it))
              (consignments p) = Some c"
    by (rule find_unique[OF c(1) _ u]) (simp add: c(2))
  show ?thesis
    unfolding init_restore_item_def Let_def ph ex option.case
    by (simp add: inc rec oid)
qed

lemma restore_put_known:
  assumes sdk: "sdk w = Some cs"
    and x: "find (\<lambda>c. toString (lineItemId s) \<in> set (c_lineItemIds c)) cs = Some x"
  shows "remote (snd (restoreConsignment s w)) =
           (if plan w (length (calls w)) (PutShippingOption (c_id x) (selectedShippingOptionId s)) = Ok
            then map (set_option (c_id x) (selectedShippingOptionId s)) (remote w) else remote w)"
    and "plan w (length (calls w)) (PutShippingOption (c_id x) (selectedShippingOptionId s)) \<noteq> Ok
         \<Longrightarrow> fst (restoreConsignment s w) \<noteq> None
             \<and> console (snd (restoreConsignment s w)) = console w @ [''Error restoring consignment:'']"
  unfolding restoreConsignment_def sdk option.case x
  by (simp_all add: split_beta fetch_remote split: outcome.split)

lemma set_option_completes:
  "list_all (\<lambda>x. c_id x = cid \<longrightarrow> c_selectedShippingOption x \<noteq> None)
     (map (set_option cid oid) cs)"
  by (induction cs) (simp_all add: set_option_def)

lemma logged_case:
  "calls (snd (case x of (None, w1) \<Rightarrow> (None, w1)
                | (Some e, w1) \<Rightarrow> (None, console_error m w1))) = calls (snd x)"
  "remote (snd (case x of (None, w1) \<Rightarrow> (None, w1)
                | (Some e, w1) \<Rightarrow> (None, console_error m w1))) = remote (snd x)"
  "fst x \<noteq> None \<Longrightarrow>
     console (snd (case x of (None, w1) \<Rightarrow> (None, w1)
                | (Some e, w1) \<Rightarrow> (None, console_error m w1))) = console (snd x) @ [m]"
  by (cases x; cases "fst x"; simp)+

lemma init_restore_item_self_effect:
  assumes sy: "in_sync (shape (consignments p)) w"
    and it: "it \<in> set (physicalItems p)"
    and di: "distinct (map (\<lambda>i. toString (li_id i)) (physicalItems p))"
    and c: "c \<in> set (consignments p)" "c_lineItemIds c = [toString (li_id it)]"
    and inc: "c_selectedShippingOption c = None"
    and only: "\<forall>x\<in>set (consignments p). toString (li_id it) \<in> set (c_lineItemIds x) \<longrightarrow> x = c"
    and h: "healthy (storage w) rs"
    and rec: "findStoredConsignmentByLineItemId (li_id it) (li_quantity it) (storage w) = Inr (Some r)"
    and oid: "selectedShippingOptionId r \<noteq> []"
  shows "filter (sets_option_of (c_id c)) (calls (snd (init_restore_item p it w)))
           = filter (sets_option_of (c_id c)) (calls w)
             @ [PutShippingOption (c_id c) (selectedShippingOptionId r)]"
    and "plan w (length (calls w)) (PutShippingOption (c_id c) (selectedShippingOptionId r)) = Ok
         \<Longrightarrow> completed (c_id c) (snd (init_restore_item p it w))"
    and "plan w (length (calls w)) (PutShippingOption (c_id c) (selectedShippingOptionId r)) \<noteq> Ok
         \<Longrightarrow> console (snd (init_restore_item p it w))
               = console w @ [''Error restoring consignment:'', ''Error restoring consignment for item'']"
proof -
  note e = init_restore_item_self[OF it di c inc only rec oid]
  have m: "toString (lineItemId r) = toString (li_id it)" by (rule lookup_matches[OF h rec])
  have c2: "c_lineItemIds c = [toString (lineItemId r)]" using c(2) m by simp
  have only2: "\<forall>x\<in>set (consignments p). toString (lineItemId r) \<in> set (c_lineItemIds x) \<longrightarrow> x = c"
    using only m by simp
  obtain cs where cs: "sdk w = Some cs" "shape cs = shape (consignments p)"
    using sy unfolding in_sync_def by auto
  obtain x where x: "find (\<lambda>c. toString (lineItemId r) \<in> set (c_lineItemIds c)) cs = Some x"
      "c_id x = c_id c"
    using restore_target[OF cs(2) c(1) c2 only2] by blast
  note k = restore_put_known[OF cs(1) x(1), unfolded x(2)]
  show "filter (sets_option_of (c_id c)) (calls (snd (init_restore_item p it w)))
           = filter (sets_option_of (c_id c)) (calls w)
             @ [PutShippingOption (c_id c) (selectedShippingOptionId r)]"
    unfolding e logged_case(1) by (rule restore_calls_self[OF sy c(1) c2 only2])
  show "completed (c_id c) (snd (init_restore_item p it w))"
    if "plan w (length (calls w)) (PutShippingOption (c_id c) (selectedShippingOptionId r)) = Ok"
    unfolding completed_def e logged_case(2) k(1)
    by (simp only: that if_True set_option_completes simp_thms)
  show "console (snd (init_restore_item p it w))
               = console w @ [''Error restoring consignment:'', ''Error restoring consignment for item'']"
    if "plan w (length (calls w)) (PutShippingOption (c_id c) (selectedShippingOptionId r)) \<noteq> Ok"
    unfolding e using k(2)[OF that] by (simp add: logged_case(3))
qed

lemma init_restore_item_step:
  assumes h: "healthy (storage w) rs"
  shows "init_restore_loop p (j # js) w = init_restore_loop p js (snd (init_restore_item p j w))"
  by (simp only: init_restore_loop.simps case_loop_None[OF init_restore_item_total[OF h]])

lemma init_restore_item_storage [simp]:
  "storage (snd (init_restore_item p j w)) = storage w"
  by (rule init_restore_item_preserves; simp)

lemma init_restore_loop_others:
  assumes sy: "in_sync (shape cs0) w"
    and c: "c \<in> set cs0" "c_lineItemIds c = [A]"
    and dist: "distinct (map c_id cs0)"
    and ne: "\<forall>j\<in>set js. toString (li_id j) \<noteq> A"
    and h: "healthy (storage w) rs"
  shows "filter (sets_option_of (c_id c)) (calls (snd (init_restore_loop p js w)))
           = filter (sets_option_of (c_id c)) (calls w)"
  using sy ne h
proof (induction js arbitrary: w)
  case Nil
  show ?case by simp
next
  case (Cons j js)
  let ?w1 = "snd (init_restore_item p j w)"
  have n: "toString (li_id j) \<noteq> A" using Cons.prems(2) by simp
  have r: "\<forall>j\<in>set js. toString (li_id j) \<noteq> A" using Cons.prems(2) by simp
  have s1: "in_sync (shape cs0) ?w1"
    by (rule init_restore_item_invariant[of "in_sync (shape cs0)", OF in_sync_steps Cons.prems(1)])
  have h1: "healthy (storage ?w1) rs" using Cons.prems(3) by simp
  have 1: "filter (sets_option_of (c_id c)) (calls ?w1) = filter (sets_option_of (c_id c)) (calls w)"
    by (rule init_restore_item_other[OF Cons.prems(1) c dist n Cons.prems(3)])
  show ?case
    unfolding init_restore_item_step[OF Cons.prems(3)] Cons.IH[OF s1 r h1] 1 ..
qed

lemma init_restore_loop_keeps:
  assumes "\<not> Q LoadCheckout" "\<forall>cid oid. \<not> Q (PutShippingOption cid oid)"
  shows "filter Q (calls (snd (init_restore_loop p js w))) = filter Q (calls w)"
proof -
  have "(\<lambda>w'. filter Q (calls w') = filter Q (calls w)) (snd (init_restore_loop p js w))"
    by (rule init_restore_loop_invariant) (simp_all add: assms)
  then show ?thesis .
qed

lemma console_grows_loop:
  "length (console w) \<le> length (console (snd (init_restore_loop p js w)))"
proof -
  have "(\<lambda>w'. length (console w) \<le> length (console w')) (snd (init_restore_loop p js w))"
    by (rule init_restore_loop_invariant) simp_all
  then show ?thesis .
qed

lemma logged_since_loop:
  assumes "logged_since w0 w m"
  shows "logged_since w0 (snd (init_restore_loop p js w)) m"
  by (rule init_restore_loop_invariant[of "\<lambda>w'. logged_since w0 w' m"])
     (simp_all add: logged_since_def assms[unfolded logged_since_def])

lemma completed_loop:
  assumes "completed cid w"
  shows "completed cid (snd (init_restore_loop p js w))"
  by (rule init_restore_loop_invariant[of "completed cid", OF completed_steps assms])

lemma in_sync_loop:
  assumes "in_sync S w"
  shows "in_sync S (snd (init_restore_loop p js w))"
  by (rule init_restore_loop_invariant[of "in_sync S", OF in_sync_steps assms])

lemma logged_since_append:
  assumes "length (console w) \<le> length (console wa)" "console wb = console wa @ ms" "m \<in> set ms"
  shows "logged_since w wb m"
  unfolding logged_since_def using assms by simp

lemma distinct_map_split:
  assumes "distinct (map f (pre @ x # post))"
  shows "\<forall>j\<in>set pre. f j \<noteq> f x" "\<forall>j\<in>set post. f j \<noteq> f x"
  using assms by (auto simp: image_iff)

lemma init_restore_loop_restores:
  assumes it: "it \<in> set (physicalItems p)"
    and di: "distinct (map (\<lambda>i. toString (li_id i)) (physicalItems p))"
    and c: "c \<in> set (consignments p)" "c_lineItemIds c = [toString (li_id it)]"
    and inc: "c_selectedShippingOption c = None"
    and only: "\<forall>x\<in>set (consignments p). toString (li_id it) \<in> set (c_lineItemIds x) \<longrightarrow> x = c"
    and dist: "distinct (map c_id (consignments p))"
    and sy: "in_sync (shape (consignments p)) w"
    and h: "healthy (storage w) rs"
    and rec: "findStoredConsignmentByLineItemId (li_id it) (li_quantity it) (storage w) = Inr (Some r)"
    and oid: "selectedShippingOptionId r \<noteq> []"
  shows "filter (sets_option_of (c_id c)) (calls (snd (init_restore_loop p (physicalItems p) w)))
           = filter (sets_option_of (c_id c)) (calls w)
             @ [PutShippingOption (c_id c) (selectedShippingOptionId r)]"
    and "\<forall>n. plan w n (PutShippingOption (c_id c) (selectedShippingOptionId r)) = Ok
         \<Longrightarrow> completed (c_id c) (snd (init_restore_loop p (physicalItems p) w))"
    and "\<forall>n. plan w n (PutShippingOption (c_id c) (selectedShippingOptionId r)) \<noteq> Ok
         \<Longrightarrow> logged_since w (snd (init_restore_loop p (physicalItems p) w)) ''Error restoring consignment:''
           \<and> logged_since w (snd (init_restore_loop p (physicalItems p) w))
                ''Error restoring consignment for item''"
proof -
  let ?put = "PutShippingOption (c_id c) (selectedShippingOptionId r)"
  let ?f = "\<lambda>i. toString (li_id i)"
  obtain pre post where sp: "physicalItems p = pre @ it # post"
    using split_list[OF it] by blast
  have d: "distinct (map ?f (pre @ it # post))" using di unfolding sp .
  have npre: "\<forall>j\<in>set pre. toString (li_id j) \<noteq> toString (li_id it)"
    by (rule distinct_map_split(1)[OF d])
  have npost: "\<forall>j\<in>set post. toString (li_id j) \<noteq> toString (li_id it)"
    by (rule distinct_map_split(2)[OF d])
  let ?wa = "snd (init_restore_loop p pre w)"
  let ?wb = "snd (init_restore_item p it ?wa)"
  let ?w1 = "snd (init_restore_loop p post ?wb)"
  have sta: "storage ?wa = storage w" by simp
  have pla: "plan ?wa = plan w" by simp
  have ha: "healthy (storage ?wa) rs" using h by simp
  have hb: "healthy (storage ?wb) rs" using h by simp
  have sa: "in_sync (shape (consignments p)) ?wa" by (rule in_sync_loop[OF sy])
  have sb: "in_sync (shape (consignments p)) ?wb"
    by (rule init_restore_item_invariant[of "in_sync (shape (consignments p))", OF in_sync_steps sa])
  have reca: "findStoredConsignmentByLineItemId (li_id it) (li_quantity it) (storage ?wa) = Inr (Some r)"
    using rec by simp
  have e: "init_restore_loop p (physicalItems p) w = init_restore_loop p post ?wb"
    unfolding sp init_restore_loop_append[OF init_restore_loop_total[OF h]]
      init_restore_item_step[OF ha] ..
  note eff = init_restore_item_self_effect[OF sa it di c inc only ha reca oid]
  have 1: "filter (sets_option_of (c_id c)) (calls ?wa) = filter (sets_option_of (c_id c)) (calls w)"
    by (rule init_restore_loop_others[OF sy c dist npre h])
  have 3: "filter (sets_option_of (c_id c)) (calls ?w1) = filter (sets_option_of (c_id c)) (calls ?wb)"
    by (rule init_restore_loop_others[OF sb c dist npost hb])
  show "filter (sets_option_of (c_id c)) (calls (snd (init_restore_loop p (physicalItems p) w)))
           = filter (sets_option_of (c_id c)) (calls w) @ [?put]"
    unfolding e 3 eff(1) 1 ..
  show "completed (c_id c) (snd (init_restore_loop p (physicalItems p) w))"
    if ok: "\<forall>n. plan w n ?put = Ok"
  proof -
    have "plan ?wa (length (calls ?wa)) ?put = Ok" unfolding pla using ok by blast
    then have "completed (c_id c) ?wb" by (rule eff(2))
    then show ?thesis unfolding e by (rule completed_loop)
  qed
  show "logged_since w (snd (init_restore_loop p (physicalItems p) w)) ''Error restoring consignment:''
      \<and> logged_since w (snd (init_restore_loop p (physicalItems p) w))
           ''Error restoring consignment for item''"
    if no: "\<forall>n. plan w n ?put \<noteq> Ok"
  proof -
    have "plan ?wa (length (calls ?wa)) ?put \<noteq> Ok" unfolding pla using no by blast
    then have cb: "console ?wb = console ?wa
                     @ [''Error restoring consignment:'', ''Error restoring consignment for item'']"
      by (rule eff(3))
    have g: "length (console w) \<le> length (console ?wa)" by (rule console_grows_loop)
    have l1: "logged_since w ?wb ''Error restoring consignment:''"
      by (rule logged_since_append[OF g cb]) simp
    have l2: "logged_since w ?wb ''Error restoring consignment for item''"
      by (rule logged_since_append[OF g cb]) simp
    show ?thesis unfolding e using logged_since_loop[OF l1] logged_since_loop[OF l2] by blast
  qed
qed

lemma init_delete_loop_console [simp]:
  "console (snd (init_delete_loop cs w)) = console w"
proof (induction cs arbitrary: w)
  case Nil
  show ?case by simp
next
  case (Cons c cs)
  show ?case
    by (cases "c_id c = []") (simp_all add: split_beta Cons.IH split: outcome.split)
qed

lemma load_twice_console [simp]:
  "console (snd (snd (load_twice st w))) = console w"
  unfolding load_twice_def
  by (simp add: split_beta split: outcome.split)

lemma sdk_delete_console [simp]:
  "console (snd (sdk_deleteConsignments w)) = console w"
  unfolding sdk_deleteConsignments_def
  by (simp add: split_beta split: outcome.split)

lemma init_remove_console [simp]:
  "console (snd (snd (init_remove p st cs w))) = console w"
  unfolding init_remove_def Let_def
  by (simp add: split_beta split: option.split outcome.split)

lemma init_keep_console [simp]:
  "console (snd (snd (init_keep p st cs w))) = console w"
  unfolding init_keep_def Let_def
  by (simp add: split_beta split: outcome.split)

lemma init_try_console:
  assumes sdk: "sdk w \<noteq> None"
    and loop: "fst (init_restore_loop p (physicalItems p) w) = None"
  shows "console (snd (snd (init_try p st w)))
           = console (snd (init_restore_loop p (physicalItems p) w))"
proof -
  obtain ck where ck: "sdk w = Some ck" using sdk by blast
  let ?w1 = "snd (init_restore_loop p (physicalItems p) w)"
  let ?w2 = "snd (fetch GetCheckout ?w1)"
  let ?T = "filter (\<lambda>c. c_selectedShippingOption c = None) (remote ?w1)"
  show ?thesis
  proof (cases "plan ?w1 (length (calls ?w1)) GetCheckout = Ok")
    case True
    have f: "fst (fetch GetCheckout ?w1) = Ok" using True by simp
    have r: "remote ?w2 = remote ?w1" using True by (simp add: fetch_remote)
    have "snd (snd (init_try p st w)) =
            (if ?T \<noteq> [] then snd (snd (init_remove p st ?T ?w2))
             else snd (snd (init_keep p st (remote ?w1) ?w2)))"
      unfolding init_try_def ck option.case
      by (simp only: case_loop_None[OF loop] case_fetch_Ok[OF f] r Let_def length_greater_0_conv if_distrib[of "\<lambda>x. snd (snd x)"])
    then show ?thesis by (cases "?T = []") simp_all
  next
    case False
    have f: "fst (fetch GetCheckout ?w1) \<noteq> Ok" using False by simp
    have "snd (snd (init_try p st w)) = ?w2"
      unfolding init_try_def ck option.case
      by (simp only: case_loop_None[OF loop] case_fetch_not_Ok[OF f])
    then show ?thesis by simp
  qed
qed

section \<open>Initialization: what becomes of a restored consignment\<close>

lemma init_try_world:
  assumes sdk: "sdk w \<noteq> None"
    and loop: "fst (init_restore_loop p (physicalItems p) w) = None"
  shows "snd (snd (init_try p st w)) =
     (let w1 = snd (init_restore_loop p (physicalItems p) w);
          w2 = snd (fetch GetCheckout w1);
          toRemove = filter (\<lambda>c. c_selectedShippingOption c = None) (remote w1)
      in if plan w1 (length (calls w1)) GetCheckout = Ok
         then (if toRemove \<noteq> [] then snd (snd (init_remove p st toRemove w2))
               else snd (snd (init_keep p st (remote w1) w2)))
         else w2)"
proof -
  obtain ck where ck: "sdk w = Some ck" using sdk by blast
  let ?w1 = "snd (init_restore_loop p (physicalItems p) w)"
  let ?w2 = "snd (fetch GetCheckout ?w1)"
  let ?T = "filter (\<lambda>c. c_selectedShippingOption c = None) (remote ?w1)"
  show ?thesis
  proof (cases "plan ?w1 (length (calls ?w1)) GetCheckout = Ok")
    case True
    have f: "fst (fetch GetCheckout ?w1) = Ok" using True by simp
    have r: "remote ?w2 = remote ?w1" using True by (simp add: fetch_remote)
    have e: "snd (snd (init_try p st w)) =
            (if ?T \<noteq> [] then snd (snd (init_remove p st ?T ?w2))
             else snd (snd (init_keep p st (remote ?w1) ?w2)))"
      unfolding init_try_def ck option.case
      by (simp only: case_loop_None[OF loop] case_fetch_Ok[OF f] r Let_def length_greater_0_conv if_distrib[of "\<lambda>x. snd (snd x)"])
    show ?thesis unfolding Let_def e by (simp only: True if_True simp_thms)
  next
    case False
    have f: "fst (fetch GetCheckout ?w1) \<noteq> Ok" using False by simp
    have e: "snd (snd (init_try p st w)) = ?w2"
      unfolding init_try_def ck option.case
      by (simp only: case_loop_None[OF loop] case_fetch_not_Ok[OF f])
    show ?thesis unfolding Let_def e by (simp only: False if_False)
  qed
qed

lemma kept_steps:
  "kept cid lids w \<Longrightarrow> y \<noteq> cid \<Longrightarrow> kept cid lids (snd (fetch (DeleteConsignment y) w))"
  "kept cid lids w \<Longrightarrow> kept cid lids (snd (fetch GetCheckout w))"
  "kept cid lids w \<Longrightarrow> kept cid lids (snd (loadCheckout w))"
  "kept cid lids w \<Longrightarrow> length lids \<le> 1 \<Longrightarrow> kept cid lids (snd (fetch DeleteConsignments w))"
  "kept cid lids w \<Longrightarrow> kept cid lids (w\<lparr>storage := s\<rparr>)"
  "kept cid lids w \<Longrightarrow> kept cid lids (w\<lparr>sdk := x\<rparr>)"
  by (auto simp: kept_def fetch_remote list_ex_iff)

lemma init_delete_loop_kept:
  assumes "kept cid lids w" "\<forall>y\<in>set cs. c_id y \<noteq> cid"
  shows "kept cid lids (snd (init_delete_loop cs w))"
  using assms
proof (induction cs arbitrary: w)
  case Nil
  then show ?case by simp
next
  case (Cons c cs)
  have n: "c_id c \<noteq> cid" using Cons.prems(2) by simp
  have r: "\<forall>y\<in>set cs. c_id y \<noteq> cid" using Cons.prems(2) by simp
  let ?w1 = "snd (fetch (DeleteConsignment (c_id c)) w)"
  have k1: "kept cid lids ?w1" by (rule kept_steps(1)[OF Cons.prems(1) n])
  have k2: "kept cid lids (?w1\<lparr>storage := s\<rparr>)" for s by (rule kept_steps(5)[OF k1])
  show ?case
    using k1 Cons.IH[OF k1 r] Cons.IH[OF k2 r]
    by (cases "c_id c = []") (simp_all add: split_beta split: outcome.split)
qed

lemma kept_remote: "remote w' = remote w \<Longrightarrow> kept cid lids w \<Longrightarrow> kept cid lids w'"
  by (simp add: kept_def)

lemma init_remove_kept:
  assumes "kept cid lids w" "\<forall>y\<in>set cs. c_id y \<noteq> cid"
  shows "kept cid lids (snd (snd (init_remove p st cs w)))"
  by (rule kept_remote[OF init_remove_fields(1) init_delete_loop_kept[OF assms]])

lemma sdk_delete_kept:
  assumes "kept cid lids w" "length lids \<le> 1"
  shows "kept cid lids (snd (sdk_deleteConsignments w))"
  using kept_steps(4)[OF assms]
  unfolding sdk_deleteConsignments_def
  by (simp add: split_beta kept_def split: outcome.split)

lemma init_keep_kept:
  assumes k: "kept cid lids w" and l: "length lids \<le> 1"
  shows "kept cid lids (snd (snd (init_keep p st cs w)))"
proof -
  have 1: "kept cid lids (snd (snd (load_twice s w)))" for s
    by (rule kept_remote[OF load_twice_fields(2) k])
  have 2: "kept cid lids (snd (snd (load_twice s (snd (sdk_deleteConsignments w)))))" for s
    by (rule kept_remote[OF load_twice_fields(2) sdk_delete_kept[OF k l]])
  show ?thesis
    unfolding init_keep_def Let_def
    using 1 2 sdk_delete_kept[OF k l] by (simp add: split_beta split: outcome.split)
qed

lemma init_try_kept:
  assumes sdk: "sdk w \<noteq> None"
    and loop: "fst (init_restore_loop p (physicalItems p) w) = None"
    and k: "kept cid lids (snd (init_restore_loop p (physicalItems p) w))"
    and l: "length lids \<le> 1"
    and c: "completed cid (snd (init_restore_loop p (physicalItems p) w))"
  shows "kept cid lids (snd (snd (init_try p st w)))"
proof -
  let ?w1 = "snd (init_restore_loop p (physicalItems p) w)"
  let ?w2 = "snd (fetch GetCheckout ?w1)"
  let ?T = "filter (\<lambda>c. c_selectedShippingOption c = None) (remote ?w1)"
  have k2: "kept cid lids ?w2" by (rule kept_steps(2)[OF k])
  have n: "\<forall>y\<in>set ?T. c_id y \<noteq> cid"
    using c unfolding completed_def list_all_iff by auto
  have a: "kept cid lids (snd (snd (init_remove p st ?T ?w2)))"
    by (rule init_remove_kept[OF k2 n])
  have b: "kept cid lids (snd (snd (init_keep p st (remote ?w1) ?w2)))"
    by (rule init_keep_kept[OF k2 l])
  show ?thesis
    unfolding init_try_world[OF sdk loop] Let_def using a b k2 by simp
qed

lemma kept_after_put:
  assumes sh: "shape (remote w) = shape cs0" and c: "c \<in> set cs0"
    and cm: "completed (c_id c) w"
  shows "kept (c_id c) (c_lineItemIds c) w"
proof -
  obtain x where x: "x \<in> set (remote w)" "c_id x = c_id c" "c_lineItemIds x = c_lineItemIds c"
    using shape_mem[OF sh[symmetric] c] by blast
  have "c_selectedShippingOption x \<noteq> None"
    using cm x(1) x(2) unfolding completed_def list_all_iff by blast
  then show ?thesis unfolding kept_def list_ex_iff using x by blast
qed

text \<open>
  C4. Take a pass over a cart whose line items have pairwise distinct ids (as strings),
  with the consignments the component was given having pairwise distinct ids, the
  SDK's checkout and the platform both holding exactly these consignments at the
  start, and a session storage that can be read and written and whose item is absent,
  empty or an array of records. Let \<open>c\<close> be one of the consignments, without a selected
  shipping option, covering the line item \<open>it\<close> of the cart and nothing else, no other
  consignment covering \<open>it\<close>, and let the cache lookup for \<open>it\<close> and its quantity return a
  record \<open>r\<close> with a non-empty shipping option id. Then the pass issues exactly one
  request that sets a shipping option on \<open>c\<close>, with the option id of \<open>r\<close>. When the platform
  accepts that request, the pass issues no DELETE for \<open>c\<close>, and at the end of the pass the
  platform still has \<open>c\<close>, with a selected shipping option. When the platform does not
  accept it, the failure is written to the console, by \<^verbatim>\<open>restoreConsignment\<close> and by the
  loop. In every case the pass goes on to re-read the checkout, once.
\<close>

theorem initConsignments_restores:
  assumes it: "it \<in> set (physicalItems p)"
    and di: "distinct (map (\<lambda>i. toString (li_id i)) (physicalItems p))"
    and c: "c \<in> set (consignments p)" "c_lineItemIds c = [toString (li_id it)]"
    and inc: "c_selectedShippingOption c = None"
    and only: "\<forall>x\<in>set (consignments p). toString (li_id it) \<in> set (c_lineItemIds x) \<longrightarrow> x = c"
    and dist: "distinct (map c_id (consignments p))"
    and sdk: "sdk w = Some (consignments p)"
    and rem: "remote w = consignments p"
    and h: "healthy (storage w) rs"
    and rec: "findStoredConsignmentByLineItemId (li_id it) (li_quantity it) (storage w) = Inr (Some r)"
    and oid: "selectedShippingOptionId r \<noteq> []"
  shows "filter (sets_option_of (c_id c)) (calls (snd (initConsignments p st w)))
           = filter (sets_option_of (c_id c)) (calls w)
             @ [PutShippingOption (c_id c) (selectedShippingOptionId r)]
       \<and> ((\<forall>n. plan w n (PutShippingOption (c_id c) (selectedShippingOptionId r)) = Ok)
           \<longrightarrow> filter ((=) (DeleteConsignment (c_id c))) (calls (snd (initConsignments p st w)))
                 = filter ((=) (DeleteConsignment (c_id c))) (calls w)
             \<and> kept (c_id c) (c_lineItemIds c) (snd (initConsignments p st w)))
       \<and> ((\<forall>n. plan w n (PutShippingOption (c_id c) (selectedShippingOptionId r)) \<noteq> Ok)
           \<longrightarrow> logged_since w (snd (initConsignments p st w)) ''Error restoring consignment:''
             \<and> logged_since w (snd (initConsignments p st w)) ''Error restoring consignment for item'')
       \<and> filter ((=) GetCheckout) (calls (snd (initConsignments p st w)))
           = filter ((=) GetCheckout) (calls w) @ [GetCheckout]"
proof -
  let ?put = "PutShippingOption (c_id c) (selectedShippingOptionId r)"
  let ?del = "DeleteConsignment (c_id c)"
  let ?st0 = "st\<lparr>isLoading := True,
                 originalItemOrder := map (\<lambda>it. toString (li_id it)) (physicalItems p)\<rparr>"
  let ?w1 = "snd (init_restore_loop p (physicalItems p) w)"
  let ?F = "snd (initConsignments p st w)"
  have items: "physicalItems p \<noteq> []" using it by auto
  have F: "?F = snd (snd (init_try p ?st0 w))" by (rule initConsignments_world[OF items])
  have sy: "in_sync (shape (consignments p)) w" unfolding in_sync_def sdk rem by simp
  have sdk': "sdk w \<noteq> None" using sdk by simp
  have loop: "fst (init_restore_loop p (physicalItems p) w) = None"
    by (rule init_restore_loop_total[OF h])
  note L = init_restore_loop_restores[OF it di c inc only dist sy h rec oid]
  have s1: "in_sync (shape (consignments p)) ?w1" by (rule in_sync_loop[OF sy])
  have P: "filter (sets_option_of (c_id c)) (calls ?F)
             = filter (sets_option_of (c_id c)) (calls w) @ [?put]"
  proof -
    have "filter (sets_option_of (c_id c)) (calls ?F)
            = filter (sets_option_of (c_id c)) (calls ?w1)
              @ filter (sets_option_of (c_id c)) [GetCheckout]"
      unfolding F by (rule init_try_calls[OF sdk' loop]) simp_all
    then show ?thesis unfolding L(1) by simp
  qed
  have G: "filter ((=) GetCheckout) (calls ?F) = filter ((=) GetCheckout) (calls w) @ [GetCheckout]"
  proof -
    have k: "filter ((=) GetCheckout) (calls ?w1) = filter ((=) GetCheckout) (calls w)"
      by (rule init_restore_loop_keeps) simp_all
    have "filter ((=) GetCheckout) (calls ?F)
            = filter ((=) GetCheckout) (calls ?w1) @ filter ((=) GetCheckout) [GetCheckout]"
      unfolding F by (rule init_try_calls[OF sdk' loop]) simp_all
    then show ?thesis unfolding k by simp
  qed
  have D: "filter ((=) ?del) (calls ?F) = filter ((=) ?del) (calls w)
           \<and> kept (c_id c) (c_lineItemIds c) ?F"
    if ok: "\<forall>n. plan w n ?put = Ok"
  proof -
    have cm: "completed (c_id c) ?w1" by (rule L(2)[OF ok])
    have d: "\<forall>x\<in>set (remote ?w1). c_selectedShippingOption x = None
               \<longrightarrow> \<not> (?del = DeleteConsignment (c_id x))"
      using cm unfolding completed_def list_all_iff by auto
    have k: "filter ((=) ?del) (calls ?w1) = filter ((=) ?del) (calls w)"
      by (rule init_restore_loop_keeps) simp_all
    have "filter ((=) ?del) (calls ?F)
            = filter ((=) ?del) (calls ?w1) @ filter ((=) ?del) [GetCheckout]"
      unfolding F by (rule init_try_calls[OF sdk' loop _ d]) simp_all
    then have 1: "filter ((=) ?del) (calls ?F) = filter ((=) ?del) (calls w)"
      unfolding k by simp
    have sh: "shape (remote ?w1) = shape (consignments p)" using s1 unfolding in_sync_def by blast
    have k1: "kept (c_id c) (c_lineItemIds c) ?w1" by (rule kept_after_put[OF sh c(1) cm])
    have l: "length (c_lineItemIds c) \<le> 1" unfolding c(2) by simp
    have 2: "kept (c_id c) (c_lineItemIds c) ?F"
      unfolding F by (rule init_try_kept[OF sdk' loop k1 l cm])
    show ?thesis using 1 2 by blast
  qed
  have C: "logged_since w ?F ''Error restoring consignment:''
         \<and> logged_since w ?F ''Error restoring consignment for item''"
    if no: "\<forall>n. plan w n ?put \<noteq> Ok"
  proof -
    have e: "console ?F = console ?w1" unfolding F by (rule init_try_console[OF sdk' loop])
    show ?thesis using L(3)[OF no] unfolding logged_since_def e .
  qed
  show ?thesis using P D C G by blast
qed

theorem initConsignments_restores_witness:
  "healthy (storage bulk_world)
     [\<lparr>consignmentId = ''c-new'', lineItemId = IdStr ''A'', quantity = 1,
       shippingAddress = Some home, selectedShippingOptionId = ''opt-2'',
       selectedDeliveryDate = None\<rparr>]
   \<and> filter (sets_option_of ''c-new'') (calls (snd (initConsignments bulk_props ex_state bulk_world)))
       = [PutShippingOption ''c-new'' ''opt-2'']
   \<and> filter ((=) (DeleteConsignment ''c-new'')) (calls (snd (initConsignments bulk_props ex_state bulk_world)))
       = []
   \<and> kept ''c-new'' [''A''] (snd (initConsignments bulk_props ex_state bulk_world))
   \<and> logged_since restore_fails_world (snd (initConsignments init_props ex_state restore_fails_world))
        ''Error restoring consignment for item''
   \<and> filter ((=) GetCheckout) (calls (snd (initConsignments init_props ex_state restore_fails_world)))
       = [GetCheckout]"
proof -
  let ?r = "\<lparr>consignmentId = ''c-new'', lineItemId = IdStr ''A'', quantity = 1,
                     shippingAddress = Some home, selectedShippingOptionId = ''opt-2'',
                     selectedDeliveryDate = None\<rparr>"
  have it: "item_A \<in> set (physicalItems init_props)" "item_A \<in> set (physicalItems bulk_props)"
    by (simp_all add: init_props_def bulk_props_def)
  have di: "distinct (map (\<lambda>i. toString (li_id i)) (physicalItems init_props))"
      "distinct (map (\<lambda>i. toString (li_id i)) (physicalItems bulk_props))"
    by (simp_all add: init_props_def bulk_props_def item_A_def item_B_def item_C_def)
  have c: "consignment_new \<in> set (consignments init_props)"
      "consignment_new \<in> set (consignments bulk_props)"
      "c_lineItemIds consignment_new = [toString (li_id item_A)]"
    by (simp_all add: init_props_def bulk_props_def consignment_new_def item_A_def)
  have inc: "c_selectedShippingOption consignment_new = None" by (simp add: consignment_new_def)
  have only: "\<forall>x\<in>set (consignments init_props).
                toString (li_id item_A) \<in> set (c_lineItemIds x) \<longrightarrow> x = consignment_new"
      "\<forall>x\<in>set (consignments bulk_props).
                toString (li_id item_A) \<in> set (c_lineItemIds x) \<longrightarrow> x = consignment_new"
    by (simp_all add: init_props_def bulk_props_def consignment_BC_def item_A_def)
  have dist: "distinct (map c_id (consignments init_props))"
      "distinct (map c_id (consignments bulk_props))"
    by (simp_all add: init_props_def bulk_props_def consignment_BC_def consignment_new_def)
  have sdk: "sdk bulk_world = Some (consignments bulk_props)"
      "sdk restore_fails_world = Some (consignments init_props)"
    by (simp_all add: bulk_world_def restore_fails_world_def restore_world_def clean_world_def
          init_props_def bulk_props_def)
  have rem: "remote bulk_world = consignments bulk_props"
      "remote restore_fails_world = consignments init_props"
    by (simp_all add: bulk_world_def restore_fails_world_def restore_world_def clean_world_def
          init_props_def bulk_props_def)
  have st: "storage restore_fails_world = storage bulk_world"
    by (simp add: restore_fails_world_def bulk_world_def)
  have h: "healthy (storage bulk_world) [?r]"
    by (simp add: bulk_world_def restore_world_def saveConsignmentToSession_def save_try_def
          getItem_def setItem_def bnd_def fresh_storage_def healthy_def)
  have h': "healthy (storage restore_fails_world) [?r]" unfolding st by (rule h)
  have rec: "findStoredConsignmentByLineItemId (li_id item_A) (li_quantity item_A) (storage bulk_world)
               = Inr (Some ?r)"
    unfolding lookup_healthy[OF h] by (simp add: item_A_def)
  have rec': "findStoredConsignmentByLineItemId (li_id item_A) (li_quantity item_A)
                (storage restore_fails_world) = Inr (Some ?r)"
    unfolding st by (rule rec)
  have oid: "selectedShippingOptionId ?r \<noteq> []" by simp
  have ok: "\<forall>n. plan bulk_world n (PutShippingOption (c_id consignment_new) (selectedShippingOptionId ?r)) = Ok"
    by (simp add: bulk_world_def restore_world_def clean_world_def)
  have no: "\<forall>n. plan restore_fails_world n
                  (PutShippingOption (c_id consignment_new) (selectedShippingOptionId ?r)) \<noteq> Ok"
    by (simp add: restore_fails_world_def consignment_new_def)
  have e: "calls bulk_world = []" "calls restore_fails_world = []"
      "c_id consignment_new = ''c-new''" "c_lineItemIds consignment_new = [''A'']"
    by (simp_all add: bulk_world_def restore_fails_world_def restore_world_def clean_world_def
          consignment_new_def)
  show ?thesis
    using initConsignments_restores[OF it(2) di(2) c(2) c(3) inc only(2) dist(2) sdk(1) rem(1) h rec oid, of ex_state]
      initConsignments_restores[OF it(1) di(1) c(1) c(3) inc only(1) dist(1) sdk(2) rem(2) h' rec' oid, of ex_state]
      ok no h
    unfolding e by simp
qed

text \<open>
  As stated for every such consignment, the claim fails on the deletion: when the
  platform refuses the request that sets the cached option on \<^verbatim>\<open>c-new\<close>, the failure is
  logged and the pass goes on, finds \<^verbatim>\<open>c-new\<close> still without a shipping option at the
  re-read, and deletes it.
\<close>

theorem initConsignments_refused_counterexample:
  "c_lineItemIds consignment_new = [''A'']
   \<and> c_selectedShippingOption consignment_new = None
   \<and> map_sum id (map_option selectedShippingOptionId)
        (findStoredConsignmentByLineItemId (IdStr ''A'') 1 (storage restore_fails_world))
       = Inr (Some ''opt-2'')
   \<and> calls (snd (initConsignments init_props ex_state restore_fails_world))
       = [PutShippingOption ''c-new'' ''opt-2'', GetCheckout, DeleteConsignment ''c-new'',
          LoadCheckout, LoadCheckout]
   \<and> remote (snd (initConsignments init_props ex_state restore_fails_world)) = []
   \<and> error (fst (initConsignments init_props ex_state restore_fails_world)) = None"
  by code_simp

section \<open>Splitting a line item\<close>

lemma map_get_map_set:
  "map_get k (map_set c m) = (if e_lineItemId c = k then Some c else map_get k m)"
  by (induction m) (auto simp: map_get_def)

lemma map_set_keys:
  "e_lineItemId ` set (map_set c m) = insert (e_lineItemId c) (e_lineItemId ` set m)"
  by (induction m) auto

lemma map_set_distinct:
  "distinct (map e_lineItemId m) \<Longrightarrow> distinct (map e_lineItemId (map_set c m))"
proof (induction m)
  case Nil
  show ?case by simp
next
  case (Cons x xs)
  have d: "distinct (map e_lineItemId xs)" "e_lineItemId x \<notin> e_lineItemId ` set xs"
    using Cons.prems by simp_all
  show ?case
  proof (cases "e_lineItemId x = e_lineItemId c")
    case True
    then show ?thesis using d by simp
  next
    case False
    have "e_lineItemId x \<notin> e_lineItemId ` set (map_set c xs)"
      unfolding map_set_keys using d(2) False by simp
    then show ?thesis using False Cons.IH[OF d(1)] by simp
  qed
qed

lemma map_get_None: "map_get k m = None \<longleftrightarrow> k \<notin> e_lineItemId ` set m"
  unfolding map_get_def find_None_iff by auto

lemma merge_existing_keys:
  "e_lineItemId ` set (merge_existing c m) = insert (e_lineItemId c) (e_lineItemId ` set m)"
proof (cases "map_get (e_lineItemId c) m = None")
  case True
  have "merge_existing c m = map_set c m" by (simp only: merge_existing_def True if_True simp_thms)
  then show ?thesis by (simp add: map_set_keys)
next
  case False
  then have "e_lineItemId c \<in> e_lineItemId ` set m" unfolding map_get_None by simp
  then have "insert (e_lineItemId c) (e_lineItemId ` set m) = e_lineItemId ` set m" by (rule insert_absorb)
  moreover have "merge_existing c m = m" by (simp only: merge_existing_def False if_False)
  ultimately show ?thesis by simp
qed

lemma merge_existing_distinct:
  "distinct (map e_lineItemId m) \<Longrightarrow> distinct (map e_lineItemId (merge_existing c m))"
  unfolding merge_existing_def by (simp add: map_set_distinct)

lemma merge_existing_fold_keys:
  "e_lineItemId ` set (fold merge_existing xs m) = e_lineItemId ` set xs \<union> e_lineItemId ` set m"
proof (induction xs arbitrary: m)
  case Nil
  show ?case by simp
next
  case (Cons x xs)
  have "e_lineItemId ` set (fold merge_existing (x # xs) m)
          = e_lineItemId ` set xs \<union> insert (e_lineItemId x) (e_lineItemId ` set m)"
    unfolding fold_simps Cons.IH merge_existing_keys ..
  then show ?case by auto
qed

lemma merge_existing_fold_distinct:
  "distinct (map e_lineItemId m) \<Longrightarrow> distinct (map e_lineItemId (fold merge_existing xs m))"
proof (induction xs arbitrary: m)
  case Nil
  then show ?case by simp
next
  case (Cons x xs)
  show ?case unfolding fold_simps by (rule Cons.IH[OF merge_existing_distinct[OF Cons.prems]])
qed

lemma newConsignmentObj_key [simp]:
  "e_lineItemId (newConsignmentObj nc) = IdStr (hd (c_lineItemIds nc))"
  by (simp add: newConsignmentObj_def)

lemma merge_new_keys:
  "e_lineItemId ` set (merge_new nc m)
     = insert (IdStr (hd (c_lineItemIds nc))) (e_lineItemId ` set m)"
proof (cases "map_get (IdStr (hd (c_lineItemIds nc))) m = None
              \<or> (e_shippingAddress (newConsignmentObj nc) \<noteq> None
                  \<and> e_selectedShippingOption (newConsignmentObj nc) \<noteq> None)")
  case True
  have "merge_new nc m = map_set (newConsignmentObj nc) m"
    using True by (simp add: merge_new_def Let_def)
  then show ?thesis by (simp add: map_set_keys)
next
  case False
  have e: "merge_new nc m = m" by (simp only: merge_new_def Let_def False if_False)
  have "map_get (IdStr (hd (c_lineItemIds nc))) m \<noteq> None"
  proof
    assume "map_get (IdStr (hd (c_lineItemIds nc))) m = None"
    then show False using False by (simp only: simp_thms)
  qed
  then have "IdStr (hd (c_lineItemIds nc)) \<in> e_lineItemId ` set m" unfolding map_get_None by simp
  then have "insert (IdStr (hd (c_lineItemIds nc))) (e_lineItemId ` set m) = e_lineItemId ` set m"
    by (rule insert_absorb)
  then show ?thesis unfolding e by simp
qed

lemma merge_new_distinct:
  "distinct (map e_lineItemId m) \<Longrightarrow> distinct (map e_lineItemId (merge_new nc m))"
  unfolding merge_new_def Let_def by (simp add: map_set_distinct)

lemma merge_new_fold_keys:
  "e_lineItemId ` set (fold merge_new ncs m)
     = (\<lambda>nc. IdStr (hd (c_lineItemIds nc))) ` set ncs \<union> e_lineItemId ` set m"
proof (induction ncs arbitrary: m)
  case Nil
  show ?case by simp
next
  case (Cons x xs)
  have "e_lineItemId ` set (fold merge_new (x # xs) m)
          = (\<lambda>nc. IdStr (hd (c_lineItemIds nc))) ` set xs
            \<union> insert (IdStr (hd (c_lineItemIds x))) (e_lineItemId ` set m)"
    unfolding fold_simps Cons.IH merge_new_keys ..
  then show ?case by auto
qed

lemma merge_new_fold_distinct:
  "distinct (map e_lineItemId m) \<Longrightarrow> distinct (map e_lineItemId (fold merge_new ncs m))"
proof (induction ncs arbitrary: m)
  case Nil
  then show ?case by simp
next
  case (Cons x xs)
  show ?case unfolding fold_simps by (rule Cons.IH[OF merge_new_distinct[OF Cons.prems]])
qed

lemma mergeConsignments_keys:
  "e_lineItemId ` set (mergeConsignments ex ncs)
     = e_lineItemId ` set ex \<union> (\<lambda>nc. IdStr (hd (c_lineItemIds nc))) ` set ncs"
  unfolding mergeConsignments_def merge_new_fold_keys merge_existing_fold_keys by auto

lemma mergeConsignments_distinct:
  "distinct (map e_lineItemId (mergeConsignments ex ncs))"
  unfolding mergeConsignments_def
  by (rule merge_new_fold_distinct[OF merge_existing_fold_distinct]) simp


lemma find_snoc:
  "find P (xs @ [y]) = (case find P xs of Some z \<Rightarrow> Some z | None \<Rightarrow> if P y then Some y else None)"
  by (induction xs) auto

lemma map_get_merge_existing:
  "map_get k (fold merge_existing xs acc) =
     (case map_get k acc of Some e \<Rightarrow> Some e | None \<Rightarrow> find (\<lambda>x. e_lineItemId x = k) xs)"
proof (induction xs arbitrary: acc)
  case Nil
  show ?case by (simp split: option.split)
next
  case (Cons x xs)
  have 1: "map_get k (fold merge_existing (x # xs) acc) =
     (case map_get k (merge_existing x acc) of Some e \<Rightarrow> Some e
      | None \<Rightarrow> find (\<lambda>x. e_lineItemId x = k) xs)"
    by (simp add: Cons)
  have 2: "map_get k (merge_existing x acc) =
     (case map_get k acc of Some e \<Rightarrow> Some e
      | None \<Rightarrow> if e_lineItemId x = k then Some x else None)"
    by (auto simp: merge_existing_def map_get_map_set split: option.split)
  show ?case unfolding 1 2 by (simp split: option.split)
qed

lemma map_get_merge_new:
  "map_get k (merge_new nc m) =
     (if IdStr (hd (c_lineItemIds nc)) = k
         \<and> (map_get k m = None
             \<or> (c_shippingAddress nc \<noteq> None \<and> c_selectedShippingOption nc \<noteq> None))
      then Some (newConsignmentObj nc) else map_get k m)"
  by (auto simp: merge_new_def Let_def map_get_map_set newConsignmentObj_def)

lemma map_get_merge_new_fold:
  "map_get k (fold merge_new ncs m) =
     (case find (\<lambda>nc. IdStr (hd (c_lineItemIds nc)) = k
                      \<and> c_shippingAddress nc \<noteq> None \<and> c_selectedShippingOption nc \<noteq> None) (rev ncs) of
        Some nc \<Rightarrow> Some (newConsignmentObj nc)
      | None \<Rightarrow>
          (case map_get k m of
             Some e \<Rightarrow> Some e
           | None \<Rightarrow> map_option newConsignmentObj
                       (find (\<lambda>nc. IdStr (hd (c_lineItemIds nc)) = k) ncs)))"
proof (induction ncs arbitrary: m)
  case Nil
  show ?case by (simp split: option.split)
next
  case (Cons nc ncs)
  let ?P = "\<lambda>nc. IdStr (hd (c_lineItemIds nc)) = k
                      \<and> c_shippingAddress nc \<noteq> None \<and> c_selectedShippingOption nc \<noteq> None"
  have 1: "map_get k (fold merge_new (nc # ncs) m) =
     (case find ?P (rev ncs) of
        Some nc \<Rightarrow> Some (newConsignmentObj nc)
      | None \<Rightarrow>
          (case map_get k (merge_new nc m) of
             Some e \<Rightarrow> Some e
           | None \<Rightarrow> map_option newConsignmentObj
                       (find (\<lambda>nc. IdStr (hd (c_lineItemIds nc)) = k) ncs)))"
    unfolding fold_simps by (rule Cons.IH)
  have 2: "find ?P (rev (nc # ncs)) =
     (case find ?P (rev ncs) of Some z \<Rightarrow> Some z | None \<Rightarrow> if ?P nc then Some nc else None)"
    unfolding rev.simps by (rule find_snoc)
  show ?case
  proof (cases "find ?P (rev ncs)")
    case (Some z)
    show ?thesis unfolding 1 2 Some by simp
  next
    case None
    show ?thesis unfolding 1 2 None map_get_merge_new
      by (cases "map_get k m") auto
  qed
qed

lemma mergeConsignments_lookup:
  "find (\<lambda>x. e_lineItemId x = k) (mergeConsignments ex ncs) =
     (case find (\<lambda>nc. IdStr (hd (c_lineItemIds nc)) = k
                      \<and> c_shippingAddress nc \<noteq> None \<and> c_selectedShippingOption nc \<noteq> None) (rev ncs) of
        Some nc \<Rightarrow> Some (newConsignmentObj nc)
      | None \<Rightarrow>
          (case find (\<lambda>x. e_lineItemId x = k) ex of
             Some e \<Rightarrow> Some e
           | None \<Rightarrow> map_option newConsignmentObj
                       (find (\<lambda>nc. IdStr (hd (c_lineItemIds nc)) = k) ncs)))"
proof -
  have a: "map_get k (fold merge_existing ex []) = map_get k ex"
    unfolding map_get_merge_existing by (simp add: map_get_def)
  show ?thesis
    unfolding mergeConsignments_def map_get_def[symmetric] map_get_merge_new_fold a ..
qed

lemma remdups_later:
  "k \<in> set bs \<Longrightarrow> remdups (as @ k # bs) = remdups (as @ bs)"
  by (induction as) auto

lemma first_occ_snoc:
  "rev (remdups (rev (xs @ [k]))) =
     (if k \<in> set xs then rev (remdups (rev xs)) else rev (remdups (rev xs)) @ [k])"
  by simp

lemma first_occ_later:
  "k \<in> set xs \<Longrightarrow> rev (remdups (rev (xs @ k # ys))) = rev (remdups (rev (xs @ ys)))"
  using remdups_later[of k "rev xs" "rev ys"] by simp

lemma first_occ_distinct: "distinct xs \<Longrightarrow> rev (remdups (rev xs)) = xs"
  by (simp add: distinct_remdups_id)

lemma map_set_key_list:
  "map e_lineItemId (map_set c m) =
     (if e_lineItemId c \<in> e_lineItemId ` set m then map e_lineItemId m
      else map e_lineItemId m @ [e_lineItemId c])"
  by (induction m) auto

lemma merge_existing_key_list:
  "map e_lineItemId (merge_existing c m) =
     (if e_lineItemId c \<in> e_lineItemId ` set m then map e_lineItemId m
      else map e_lineItemId m @ [e_lineItemId c])"
  unfolding merge_existing_def map_get_None by (simp add: map_set_key_list)

lemma merge_new_key_list:
  "map e_lineItemId (merge_new nc m) =
     (if IdStr (hd (c_lineItemIds nc)) \<in> e_lineItemId ` set m then map e_lineItemId m
      else map e_lineItemId m @ [IdStr (hd (c_lineItemIds nc))])"
  unfolding merge_new_def Let_def map_get_None by (simp add: map_set_key_list)

lemma merge_existing_fold_key_list:
  "map e_lineItemId (fold merge_existing xs m) =
     rev (remdups (rev (map e_lineItemId m @ map e_lineItemId xs)))"
  if "distinct (map e_lineItemId m)"
  using that
proof (induction xs arbitrary: m)
  case Nil
  then show ?case by (simp add: distinct_remdups_id)
next
  case (Cons x xs)
  have d: "distinct (map e_lineItemId (merge_existing x m))"
    by (rule merge_existing_distinct[OF Cons.prems])
  have 1: "map e_lineItemId (fold merge_existing (x # xs) m) =
        rev (remdups (rev (map e_lineItemId (merge_existing x m) @ map e_lineItemId xs)))"
    unfolding fold_simps by (rule Cons.IH[OF d])
  show ?case
  proof (cases "e_lineItemId x \<in> e_lineItemId ` set m")
    case True
    then have t: "e_lineItemId x \<in> set (map e_lineItemId m)" by simp
    have "map e_lineItemId (merge_existing x m) = map e_lineItemId m"
      unfolding merge_existing_key_list using True by simp
    then show ?thesis unfolding 1 list.map using first_occ_later[OF t, of "map e_lineItemId xs"] by simp
  next
    case False
    have "map e_lineItemId (merge_existing x m) = map e_lineItemId m @ [e_lineItemId x]"
      unfolding merge_existing_key_list using False by simp
    then show ?thesis unfolding 1 by simp
  qed
qed

lemma merge_new_fold_key_list:
  "map e_lineItemId (fold merge_new ncs m) =
     rev (remdups (rev (map e_lineItemId m @ map (\<lambda>nc. IdStr (hd (c_lineItemIds nc))) ncs)))"
  if "distinct (map e_lineItemId m)"
  using that
proof (induction ncs arbitrary: m)
  case Nil
  then show ?case by (simp add: distinct_remdups_id)
next
  case (Cons x xs)
  let ?k = "IdStr (hd (c_lineItemIds x))"
  let ?ks = "map (\<lambda>nc. IdStr (hd (c_lineItemIds nc))) xs"
  have d: "distinct (map e_lineItemId (merge_new x m))"
    by (rule merge_new_distinct[OF Cons.prems])
  have 1: "map e_lineItemId (fold merge_new (x # xs) m) =
        rev (remdups (rev (map e_lineItemId (merge_new x m) @ ?ks)))"
    unfolding fold_simps by (rule Cons.IH[OF d])
  show ?case
  proof (cases "?k \<in> e_lineItemId ` set m")
    case True
    then have t: "?k \<in> set (map e_lineItemId m)" by simp
    have "map e_lineItemId (merge_new x m) = map e_lineItemId m"
      unfolding merge_new_key_list using True by simp
    then show ?thesis unfolding 1 list.map using first_occ_later[OF t, of ?ks] by simp
  next
    case False
    have "map e_lineItemId (merge_new x m) = map e_lineItemId m @ [?k]"
      unfolding merge_new_key_list using False by simp
    then show ?thesis unfolding 1 by simp
  qed
qed

lemma mergeConsignments_key_list:
  "map e_lineItemId (mergeConsignments ex ncs) =
     rev (remdups (rev (map e_lineItemId ex @ map (\<lambda>nc. IdStr (hd (c_lineItemIds nc))) ncs)))"
proof -
  have d: "distinct (map e_lineItemId (fold merge_existing ex []))"
    by (rule merge_existing_fold_distinct) simp
  have e: "map e_lineItemId (fold merge_existing ex []) = rev (remdups (rev (map e_lineItemId ex)))"
    using merge_existing_fold_key_list[of "[]" ex] by simp
  have s: "set (rev (remdups (rev xs))) = set xs" for xs :: "item_id list" by simp
  have c: "rev (remdups (rev (rev (remdups (rev xs)) @ ys))) = rev (remdups (rev (xs @ ys)))"
    for xs ys :: "item_id list"
  proof (induction ys rule: rev_induct)
    case Nil
    show ?case by (simp add: distinct_remdups_id)
  next
    case (snoc y ys)
    show ?case using snoc by (simp flip: append_assoc)
  qed
  show ?thesis
    unfolding mergeConsignments_def merge_new_fold_key_list[OF d] e c ..
qed

lemma map_of_assign_configured:
  "map_of (assign_configured i b m) k =
     (if toString i = k \<and> \<not> (k = ''__proto__'' \<and> map_of m k = None) then Some b else map_of m k)"
  by (auto simp: assign_configured_def update_conv')

lemma split_configured_lookup:
  "map_of (split_configured entries m0) k =
     (if (\<exists>c\<in>set entries. toString (e_lineItemId c) = k
            \<and> (\<not> ((case e_shippingAddress c of None \<Rightarrow> False | Some a \<Rightarrow> length a > 0)
                    \<and> e_selectedShippingOption c \<noteq> None)
                \<or> \<not> (case map_of m0 k of Some b \<Rightarrow> b | None \<Rightarrow> k \<in> set object_prototype_keys)))
         \<and> \<not> (k = ''__proto__'' \<and> map_of m0 k = None)
      then Some False else map_of m0 k)"
proof (induction entries arbitrary: m0)
  case Nil
  show ?case by (simp add: split_configured_def)
next
  case (Cons c cs)
  define full where "full c = ((case e_shippingAddress c of None \<Rightarrow> False | Some a \<Rightarrow> length a > 0)
                    \<and> e_selectedShippingOption c \<noteq> None)" for c :: consignment_with_item
  define conf where "conf v = (case v of Some b \<Rightarrow> b | None \<Rightarrow> k \<in> set object_prototype_keys)"
    for v :: "bool option"
  define P where "P v c = (toString (e_lineItemId c) = k \<and> (\<not> full c \<or> \<not> conf v))"
    for v and c :: consignment_with_item
  define X where "X v = (k = ''__proto__'' \<and> v = None)" for v :: "bool option"
  define m1 where "m1 = (if \<not> full c \<or> \<not> configured m0 (e_lineItemId c)
                         then assign_configured (e_lineItemId c) False m0 else m0)"
  have s: "split_configured (c # cs) m0 = split_configured cs m1"
    unfolding split_configured_def m1_def full_def by (auto simp: Let_def)
  have ih: "map_of (split_configured cs m1) k =
      (if (\<exists>c\<in>set cs. P (map_of m1 k) c) \<and> \<not> X (map_of m1 k) then Some False else map_of m1 k)"
    unfolding P_def X_def conf_def full_def by (rule Cons.IH)
  have cf: "toString (e_lineItemId c) = k \<Longrightarrow> configured m0 (e_lineItemId c) = conf (map_of m0 k)"
    unfolding conf_def by (auto simp: configured_def split: option.split)
  have goal: "map_of (split_configured cs m1) k =
      (if (\<exists>c\<in>set (c # cs). P (map_of m0 k) c) \<and> \<not> X (map_of m0 k) then Some False else map_of m0 k)"
  proof (cases "P (map_of m0 k) c \<and> \<not> X (map_of m0 k)")
    case True
    then have a: "toString (e_lineItemId c) = k" and b: "\<not> full c \<or> \<not> conf (map_of m0 k)"
      and x: "\<not> X (map_of m0 k)"
      unfolding P_def by simp_all
    have m: "m1 = assign_configured (e_lineItemId c) False m0"
      unfolding m1_def using b cf[OF a] by simp
    have l: "map_of m1 k = Some False"
      unfolding m map_of_assign_configured using a x unfolding X_def by simp
    have "map_of (split_configured cs m1) k = Some False"
      unfolding ih l by simp
    moreover have "(\<exists>c\<in>set (c # cs). P (map_of m0 k) c) \<and> \<not> X (map_of m0 k)"
      using True by simp
    ultimately show ?thesis by simp
  next
    case False
    have l: "map_of m1 k = map_of m0 k"
    proof (cases "\<not> full c \<or> \<not> configured m0 (e_lineItemId c)")
      case u: True
      then have m: "m1 = assign_configured (e_lineItemId c) False m0" unfolding m1_def by simp
      show ?thesis
      proof (cases "toString (e_lineItemId c) = k")
        case a: True
        have "P (map_of m0 k) c" unfolding P_def using a u cf[OF a] by simp
        then have "X (map_of m0 k)" using False by simp
        then show ?thesis unfolding m map_of_assign_configured X_def by auto
      next
        case a: False
        show ?thesis unfolding m map_of_assign_configured using a by simp
      qed
    next
      case u: False
      then show ?thesis unfolding m1_def by simp
    qed
    have "(\<exists>c\<in>set (c # cs). P (map_of m0 k) c) \<and> \<not> X (map_of m0 k)
          \<longleftrightarrow> (\<exists>c\<in>set cs. P (map_of m0 k) c) \<and> \<not> X (map_of m0 k)"
      using False by auto
    then show ?thesis unfolding ih l by simp
  qed
  show ?case
    unfolding s using goal unfolding P_def X_def conf_def full_def .
qed

lemma split_restore_item_invariant:
  assumes pf: "\<And>cid oid w. I w \<Longrightarrow> I (snd (fetch (PutShippingOption cid oid) w))"
    and pl: "\<And>w. I w \<Longrightarrow> I (snd (loadCheckout w))"
    and pc: "\<And>m w. I w \<Longrightarrow> I (console_error m w)"
    and i: "I w"
  shows "I (snd (split_restore_item p cs nc w))"
  unfolding split_restore_item_def Let_def
  by (simp add: split_beta restore_invariant[of I, OF pf pl pc i] pc i
        split: option.split sum.split list.split)

lemma split_restore_loop_invariant:
  assumes pf: "\<And>cid oid w. I w \<Longrightarrow> I (snd (fetch (PutShippingOption cid oid) w))"
    and pl: "\<And>w. I w \<Longrightarrow> I (snd (loadCheckout w))"
    and pc: "\<And>m w. I w \<Longrightarrow> I (console_error m w)"
    and i: "I w"
  shows "I (snd (split_restore_loop p cs ncs w))"
  using i
proof (induction ncs arbitrary: w)
  case Nil
  then show ?case by simp
next
  case (Cons nc ncs)
  have 1: "I (snd (split_restore_item p cs nc w))"
    by (rule split_restore_item_invariant[of I, OF pf pl pc Cons.prems])
  show ?case
    using 1 Cons.IH[OF 1]
    by (cases "fst (split_restore_item p cs nc w)") (simp_all add: split_beta)
qed

lemma split_restore_item_total:
  assumes "healthy (storage w) rs" "c_lineItemIds nc \<noteq> []"
  shows "fst (split_restore_item p cs nc w) = None"
  using assms(2)
  unfolding split_restore_item_def Let_def lookup_healthy[OF assms(1)]
  by (simp add: split_beta split: option.split list.split)

lemma split_restore_loop_total:
  assumes "healthy (storage w) rs" "\<forall>nc\<in>set ncs. c_lineItemIds nc \<noteq> []"
  shows "fst (split_restore_loop p cs ncs w) = None"
  using assms
proof (induction ncs arbitrary: w)
  case Nil
  show ?case by simp
next
  case (Cons nc ncs)
  have n: "c_lineItemIds nc \<noteq> []" using Cons.prems(2) by simp
  have r: "\<forall>nc\<in>set ncs. c_lineItemIds nc \<noteq> []" using Cons.prems(2) by simp
  have t: "fst (split_restore_item p cs nc w) = None"
    by (rule split_restore_item_total[OF Cons.prems(1) n])
  have h: "healthy (storage (snd (split_restore_item p cs nc w))) rs"
    by (rule split_restore_item_invariant[of "\<lambda>w. healthy (storage w) rs"]) (simp_all add: Cons.prems(1))
  show ?case
    unfolding split_restore_loop.simps case_loop_None[OF t] by (rule Cons.IH[OF h r])
qed

lemma split_save_loop_total:
  "\<forall>c\<in>set cs. c_lineItemIds c \<noteq> [] \<Longrightarrow> fst (split_save_loop p cs s) = None"
proof (induction cs arbitrary: s)
  case Nil
  show ?case by simp
next
  case (Cons c cs)
  obtain l ls where l: "c_lineItemIds c = l # ls" using Cons.prems by (cases "c_lineItemIds c") simp_all
  have r: "\<forall>c\<in>set cs. c_lineItemIds c \<noteq> []" using Cons.prems by simp
  show ?case unfolding split_save_loop.simps l list.case Let_def by (rule Cons.IH[OF r])
qed

lemma fields_of_set_option [simp]: "fields_of (set_option cid oid c) = fields_of c"
  by (simp add: fields_of_def)

lemma fields_of_map_set_option [simp]:
  "map (fields_of \<circ> set_option cid oid) cs = map fields_of cs"
  by (simp add: comp_def)

lemma split_try_success:
  assumes ck: "sdk w = Some ck"
    and cur: "find (\<lambda>it. li_id it = lid) (physicalItems p) = Some cur"
    and ok: "\<forall>n r. plan w n r = Ok"
    and h: "healthy (storage w) rs"
    and ne: "\<forall>c\<in>set (assign w (PostConsignments (splitConsignments lid qty)) (remote w)).
               c_lineItemIds c \<noteq> []"
  shows "fst (split_try p lid qty st w) = None"
    and "fst (snd (split_try p lid qty st w)) =
           st\<lparr>itemConsignments :=
                 mergeConsignments (itemConsignments st) (remote (snd (snd (split_try p lid qty st w)))),
               configuredItems := split_configured (itemConsignments st) (configuredItems st),
               currentItemIndex := findIndex (\<lambda>it. li_id it = lid) (physicalItems p),
               isEditing := True, selectedAddress := None, selectedShippingOption := None,
               isLoading := False\<rparr>"
    and "map fields_of (remote (snd (snd (split_try p lid qty st w))))
           = map fields_of (assign w (PostConsignments (splitConsignments lid qty)) (remote w))"
    and "unhandled (snd (snd (split_try p lid qty st w))) = unhandled w"
    and "filter is_post (calls (snd (snd (split_try p lid qty st w))))
           = filter is_post (calls w) @ [PostConsignments (splitConsignments lid qty)]"
proof -
  let ?post = "PostConsignments (splitConsignments lid qty)"
  let ?R = "assign w ?post (remote w)"
  define w1 where "w1 = snd (fetch ?post w)"
  have okw: "plan w n r = Ok" for n r using ok by simp
  have e1: "fetch ?post w = (Ok, w1)"
    unfolding w1_def by (rule fetch_ok(1)[OF okw])
  have r1: "remote w1 = ?R" unfolding w1_def using fetch_ok(2)[OF okw, of ?post] by simp
  have p1: "plan w1 = plan w" and s1: "storage w1 = storage w" and u1: "unhandled w1 = unhandled w"
    unfolding w1_def by simp_all
  have q1: "filter is_post (calls w1) = filter is_post (calls w) @ [?post]"
    unfolding w1_def by (simp add: is_post_def)
  define w2 where "w2 = snd (split_restore_loop p (remote w1) (remote w1) w1)"
  have h1: "healthy (storage w1) rs" using h s1 by simp
  have n1: "\<forall>nc\<in>set (remote w1). c_lineItemIds nc \<noteq> []" using ne r1 by simp
  have t2: "fst (split_restore_loop p (remote w1) (remote w1) w1) = None"
    by (rule split_restore_loop_total[OF h1 n1])
  have e2: "split_restore_loop p (remote w1) (remote w1) w1 = (None, w2)"
    unfolding w2_def using t2 by (simp add: prod_eq_iff)
  have p2: "plan w2 = plan w"
    unfolding w2_def
    by (rule split_restore_loop_invariant[of "\<lambda>x. plan x = plan w"]) (simp_all add: p1)
  have u2: "unhandled w2 = unhandled w"
    unfolding w2_def
    by (rule split_restore_loop_invariant[of "\<lambda>x. unhandled x = unhandled w"]) (simp_all add: u1)
  have f2: "map fields_of (remote w2) = map fields_of ?R"
    unfolding w2_def
    by (rule split_restore_loop_invariant[of "\<lambda>x. map fields_of (remote x) = map fields_of ?R"])
       (simp_all add: r1 fetch_remote)
  have q2: "filter is_post (calls w2) = filter is_post (calls w) @ [?post]"
    unfolding w2_def
    by (rule split_restore_loop_invariant[of "\<lambda>x. filter is_post (calls x) = filter is_post (calls w) @ [?post]"])
       (simp_all add: q1 is_post_def)
  define w3 where "w3 = snd (fetch GetCheckout w2)"
  have ok2: "plan w2 n r = Ok" for n r using ok p2 by simp
  have e3: "fetch GetCheckout w2 = (Ok, w3)"
    unfolding w3_def by (rule fetch_ok(1)[OF ok2])
  have r3: "remote w3 = remote w2" unfolding w3_def using fetch_ok(2)[OF ok2, of GetCheckout] by simp
  have p3: "plan w3 = plan w" unfolding w3_def using p2 by simp
  have u3: "unhandled w3 = unhandled w" unfolding w3_def using u2 by simp
  define w4 where "w4 = snd (loadCheckout w3)"
  have ok3: "plan w3 n r = Ok" for n r using ok p3 by simp
  have e4: "loadCheckout w3 = (Ok, w4)"
  proof -
    define wl where "wl = snd (fetch LoadCheckout w3)"
    have el: "fetch LoadCheckout w3 = (Ok, wl)" unfolding wl_def by (rule fetch_ok(1)[OF ok3])
    have "loadCheckout w3 = (Ok, wl\<lparr>sdk := Some (remote wl)\<rparr>)"
      unfolding loadCheckout_def el by simp
    then show ?thesis unfolding w4_def by simp
  qed
  have r4: "remote w4 = remote w2" unfolding w4_def using r3 by simp
  have u4: "unhandled w4 = unhandled w" unfolding w4_def using u3 by simp
  define s5 where "s5 = snd (split_save_loop p (remote w3) (storage w4))"
  have n3: "\<forall>c\<in>set (remote w3). c_lineItemIds c \<noteq> []"
  proof -
    have "map c_lineItemIds (remote w3) = map c_lineItemIds ?R"
      using arg_cong[OF f2, of "map (\<lambda>x. fst (snd x))"] unfolding r3 by (simp add: fields_of_def comp_def)
    then have "c_lineItemIds ` set (remote w3) = c_lineItemIds ` set ?R"
      by (metis set_map)
    then show ?thesis using ne by (metis imageE imageI)
  qed
  have e5: "split_save_loop p (remote w3) (storage w4) = (None, s5)"
    unfolding s5_def using split_save_loop_total[OF n3] by (simp add: prod_eq_iff)
  define w6 where "w6 = refresh_requests (w4\<lparr>storage := s5\<rparr>)"
  have r6: "remote w6 = remote w2" unfolding w6_def using r4 by simp
  have u6: "unhandled w6 = unhandled w" unfolding w6_def using u4 by simp
  have q4: "filter is_post (calls w4) = filter is_post (calls w) @ [?post]"
    unfolding w4_def w3_def using q2 by (simp add: is_post_def)
  have "filter is_post (calls (refresh_requests (w4\<lparr>storage := s5\<rparr>)))
          = filter is_post (calls (w4\<lparr>storage := s5\<rparr>))"
    by (rule refresh_preserves[of "\<lambda>x. filter is_post (calls x)"]) (simp_all add: is_post_def)
  then have q6: "filter is_post (calls w6) = filter is_post (calls w) @ [?post]"
    unfolding w6_def using q4 by simp
  have e: "split_try p lid qty st w =
     (None,
      st\<lparr>itemConsignments := mergeConsignments (itemConsignments st) (remote w3),
          configuredItems := split_configured (itemConsignments st) (configuredItems st),
          currentItemIndex := findIndex (\<lambda>it. li_id it = lid) (physicalItems p),
          isEditing := True, selectedAddress := None, selectedShippingOption := None,
          isLoading := False\<rparr>, w6)"
    unfolding split_try_def ck cur option.case e1 prod.case outcome.case Let_def r1[symmetric] e2 e3 e4 e5
      w6_def
    by (simp add: e5)
  show "fst (split_try p lid qty st w) = None" unfolding e by simp
  show "fst (snd (split_try p lid qty st w)) =
           st\<lparr>itemConsignments :=
                 mergeConsignments (itemConsignments st) (remote (snd (snd (split_try p lid qty st w)))),
               configuredItems := split_configured (itemConsignments st) (configuredItems st),
               currentItemIndex := findIndex (\<lambda>it. li_id it = lid) (physicalItems p),
               isEditing := True, selectedAddress := None, selectedShippingOption := None,
               isLoading := False\<rparr>"
    unfolding e by (simp add: r6 r3)
  show "map fields_of (remote (snd (snd (split_try p lid qty st w)))) = map fields_of ?R"
    unfolding e using f2 r6 by simp
  show "unhandled (snd (snd (split_try p lid qty st w))) = unhandled w"
    unfolding e using u6 by simp
  show "filter is_post (calls (snd (snd (split_try p lid qty st w))))
           = filter is_post (calls w) @ [?post]"
    unfolding e using q6 by simp
qed

lemma findIndex_spec:
  "find P xs \<noteq> None \<Longrightarrow>
     0 \<le> findIndex P xs \<and> nat (findIndex P xs) < length xs \<and> P (xs ! nat (findIndex P xs))
     \<and> (\<forall>j < nat (findIndex P xs). \<not> P (xs ! j))"
proof (induction xs)
  case Nil
  then show ?case by simp
next
  case (Cons x xs)
  show ?case
  proof (cases "P x")
    case True
    then show ?thesis by simp
  next
    case False
    then have f: "find P xs \<noteq> None" using Cons.prems by simp
    note ih = Cons.IH[OF f]
    have n: "\<not> findIndex P xs < 0" using ih by simp
    have e: "findIndex P (x # xs) = findIndex P xs + 1" using False n by (simp add: Let_def)
    have z: "0 \<le> findIndex P xs" using ih by (rule conjunct1)
    have s: "nat (findIndex P xs + 1) = Suc (nat (findIndex P xs))" using z by arith
    have a: "\<forall>j < Suc (nat (findIndex P xs)). \<not> P ((x # xs) ! j)"
    proof (intro allI impI)
      fix j assume j: "j < Suc (nat (findIndex P xs))"
      show "\<not> P ((x # xs) ! j)"
      proof (cases j)
        case 0
        then show ?thesis using False by simp
      next
        case (Suc i)
        then have "i < nat (findIndex P xs)" using j by simp
        then have "\<not> P (xs ! i)" using ih by simp
        then show ?thesis using Suc by simp
      qed
    qed
    show ?thesis unfolding e s using ih a by simp
  qed
qed

lemma handleSplitLineItem_done:
  assumes q: "1 < qty" and t: "fst (split_try p lid qty (st\<lparr>isLoading := True\<rparr>) w) = None"
  shows "handleSplitLineItem p lid qty st w =
           ((fst (snd (split_try p lid qty (st\<lparr>isLoading := True\<rparr>) w)))\<lparr>isLoading := False\<rparr>,
            snd (snd (split_try p lid qty (st\<lparr>isLoading := True\<rparr>) w)))"
proof -
  obtain a b c where T: "split_try p lid qty (st\<lparr>isLoading := True\<rparr>) w = (a, b, c)"
    by (cases "split_try p lid qty (st\<lparr>isLoading := True\<rparr>) w") auto
  have a: "a = None" using t unfolding T by simp
  show ?thesis unfolding handleSplitLineItem_def T a using q by simp
qed

lemma split_try_refused:
  assumes ck: "sdk w = Some ck"
    and cur: "find (\<lambda>it. li_id it = lid) (physicalItems p) = Some cur"
    and no: "plan w (length (calls w)) (PostConsignments (splitConsignments lid qty)) \<noteq> Ok"
  shows "split_try p lid qty st w =
           (Some (case plan w (length (calls w)) (PostConsignments (splitConsignments lid qty)) of
                    Rejected \<Rightarrow> NetworkError
                  | _ \<Rightarrow> Error ''Failed to split line item''),
            st, snd (fetch (PostConsignments (splitConsignments lid qty)) w))"
proof -
  let ?post = "PostConsignments (splitConsignments lid qty)"
  define out where "out = plan w (length (calls w)) ?post"
  define w1 where "w1 = snd (fetch ?post w)"
  have e1: "fetch ?post w = (out, w1)" unfolding out_def w1_def by (simp add: prod_eq_iff)
  have n: "out \<noteq> Ok" using no unfolding out_def .
  show ?thesis
    unfolding split_try_def ck cur option.case e1 prod.case out_def[symmetric] w1_def[symmetric]
    using n by (cases out) simp_all
qed

lemma handleSplitLineItem_refused:
  assumes q: "1 < qty" and ck: "sdk w = Some ck"
    and cur: "find (\<lambda>it. li_id it = lid) (physicalItems p) = Some cur"
    and no: "plan w (length (calls w)) (PostConsignments (splitConsignments lid qty)) \<noteq> Ok"
  shows "fst (handleSplitLineItem p lid qty st w) =
           st\<lparr>error := Some (''Error splitting line item: '' @
                    (case plan w (length (calls w)) (PostConsignments (splitConsignments lid qty)) of
                       Rejected \<Rightarrow> ''Failed to fetch''
                     | _ \<Rightarrow> ''Failed to split line item'')),
              isLoading := False\<rparr>"
    and "remote (snd (handleSplitLineItem p lid qty st w)) = remote w"
    and "calls (snd (handleSplitLineItem p lid qty st w))
           = calls w @ [PostConsignments (splitConsignments lid qty)]"
proof -
  let ?post = "PostConsignments (splitConsignments lid qty)"
  note r = split_try_refused[OF ck cur no, of "st\<lparr>isLoading := True\<rparr>"]
  show "fst (handleSplitLineItem p lid qty st w) =
           st\<lparr>error := Some (''Error splitting line item: '' @
                    (case plan w (length (calls w)) ?post of
                       Rejected \<Rightarrow> ''Failed to fetch''
                     | _ \<Rightarrow> ''Failed to split line item'')),
              isLoading := False\<rparr>"
    unfolding handleSplitLineItem_def r using q
    by (cases "plan w (length (calls w)) ?post") simp_all
  show "remote (snd (handleSplitLineItem p lid qty st w)) = remote w"
    unfolding handleSplitLineItem_def r using q no by (simp add: report_def fetch_remote)
  show "calls (snd (handleSplitLineItem p lid qty st w)) = calls w @ [?post]"
    unfolding handleSplitLineItem_def r using q by (simp add: report_def)
qed

lemma split_try_mw_success:
  assumes ck: "mw_sdk v = Some ck"
    and cur: "find (\<lambda>it. li_id it = lid) (physicalItems p) = Some cur"
    and ok: "\<forall>n r. mw_plan v n r = MwOk"
  shows "split_try_mw p lid qty st v =
     (let R = mw_split v lid qty (mw_remote v);
          flags = newConfiguredItems (ck_consignments R) (ck_physicalItems R)
      in (None,
          st\<lparr>itemConsignments := map (newItemConsignment (ck_consignments R)) (ck_physicalItems R),
             configuredItems := flags,
             currentItemIndex :=
               first_or_zero (findIndex (\<lambda>item. \<not> configured flags (li_id item)) (ck_physicalItems R)),
             originalItemOrder := map (\<lambda>item. toString (li_id item)) (ck_physicalItems R),
             isLoading := False\<rparr>,
          v\<lparr>mw_remote := R, mw_sdk := Some R,
             mw_calls := mw_calls v @ [MwSplit lid qty, MwLoadCheckout, MwGetCheckout, MwLoadCheckout]\<rparr>))"
proof -
  have o: "mw_plan v n r = MwOk" for n r using ok by simp
  show ?thesis
    unfolding split_try_mw_def ck cur option.case
    by (simp add: mw_fetch_def mw_loadCheckout_def refresh_requests_mw_def refreshCheckoutTotals_mw_def
          Let_def o)
qed

text \<open>
  C5. Split. In both revisions of the component \<^verbatim>\<open>handleSplitLineItem\<close> with a quantity
  of at most 1 changes nothing and issues no request.

  In \<^verbatim>\<open>CustomShipping.tsx\<close>, take a quantity \<open>q\<close> above 1, an available checkout, the
  item in the cart, a platform that answers every request successfully, a session
  storage that can be read and written and whose item is absent, empty or an array of
  records, and consignments reported after the split request that each cover at least
  one line item. Then the handler asks the gateway once, as the first request, for \<open>q\<close>
  consignments of one unit each of the line item (together \<open>q\<close> units). The consignments
  the platform holds afterwards are those it made of that request, apart from selected
  shipping options. The entries afterwards are the entries before merged by line item
  id with those consignments, a consignment counting under the first line item it
  covers: no two entries share a line item id (of several entries before with one id
  only the first can remain); the ids are those of the entries before followed by
  those of the consignments, each at its first occurrence; and the entry of
  an id is the last consignment of that id that has both an address and a selected
  shipping option, else the first entry before of that id, else the first consignment
  of that id. The editing pointer is at the first cart item with the id that was split,
  edit mode is on, the transient selections are cleared, the error message and the
  original order stay, and a flag is set to false exactly for the line item ids of
  entries before that were not fully configured or not flagged (\<^verbatim>\<open>__proto__\<close> without an
  own flag apart). If instead the platform does not accept the split request, the
  entries and the platform's consignments are unchanged, no further request is made and
  the error message is set.

  In the earlier revision with the cart middleware, take a quantity \<open>q\<close> above 1, an
  available checkout, the item in the cart and every request answered successfully.
  Then the handler sends the middleware one request for the line item and the quantity
  \<open>q\<close>, followed by the reload of the checkout and the refresh; the platform's checkout
  afterwards is what the middleware made of it; and the entries are replaced by one
  entry per physical item of the reloaded cart, in cart order, each with the first
  consignment that covers the item, or with none.
\<close>

theorem handleSplitLineItem_split:
  "(qty \<le> 1 \<longrightarrow> handleSplitLineItem p lid qty st w = (st, w)
                 \<and> handleSplitLineItem_mw p lid qty st v = (st, v))
   \<and> (let body = replicate (nat qty)
                    \<lparr>rq_address = baseAddress, rq_itemId = IdStr (toString lid), rq_quantity = 1\<rparr>;
           created = assign w (PostConsignments body) (remote w);
           st' = fst (handleSplitLineItem p lid qty st w);
           w' = snd (handleSplitLineItem p lid qty st w);
           key = (\<lambda>nc. IdStr (hd (c_lineItemIds nc)));
           entry = (\<lambda>nc. \<lparr>e_id = Some (c_id nc), e_lineItemId = IdStr (hd (c_lineItemIds nc)),
                            e_shippingAddress = c_shippingAddress nc,
                            e_selectedShippingOption = c_selectedShippingOption nc,
                            e_availableShippingOptions = c_availableShippingOptions nc\<rparr>);
           complete = (\<lambda>nc. c_shippingAddress nc \<noteq> None \<and> c_selectedShippingOption nc \<noteq> None);
           full = (\<lambda>c. (case e_shippingAddress c of None \<Rightarrow> False | Some a \<Rightarrow> length a > 0)
                        \<and> e_selectedShippingOption c \<noteq> None);
           flagged = (\<lambda>k. case map_of (configuredItems st) k of
                              Some b \<Rightarrow> b | None \<Rightarrow> k \<in> set object_prototype_keys)
       in (1 < qty \<and> sdk w \<noteq> None \<and> find (\<lambda>it. li_id it = lid) (physicalItems p) \<noteq> None
             \<and> (\<forall>n r. plan w n r = Ok) \<and> healthy (storage w) rs
             \<and> (\<forall>c\<in>set created. c_lineItemIds c \<noteq> []) \<longrightarrow>
            take (Suc (length (calls w))) (calls w') = calls w @ [PostConsignments body]
            \<and> filter is_post (calls w') = filter is_post (calls w) @ [PostConsignments body]
            \<and> sum_list (map rq_quantity body) = qty
            \<and> map c_id (remote w') = map c_id created
            \<and> map c_lineItemIds (remote w') = map c_lineItemIds created
            \<and> map c_shippingAddress (remote w') = map c_shippingAddress created
            \<and> map c_availableShippingOptions (remote w') = map c_availableShippingOptions created
            \<and> distinct (map e_lineItemId (itemConsignments st'))
            \<and> map e_lineItemId (itemConsignments st')
                 = rev (remdups (rev (map e_lineItemId (itemConsignments st) @ map key (remote w'))))
            \<and> (\<forall>k. find (\<lambda>x. e_lineItemId x = k) (itemConsignments st') =
                      (case find (\<lambda>nc. key nc = k \<and> complete nc) (rev (remote w')) of
                         Some nc \<Rightarrow> Some (entry nc)
                       | None \<Rightarrow>
                           (case find (\<lambda>x. e_lineItemId x = k) (itemConsignments st) of
                              Some e \<Rightarrow> Some e
                            | None \<Rightarrow> map_option entry (find (\<lambda>nc. key nc = k) (remote w')))))
            \<and> 0 \<le> currentItemIndex st' \<and> nat (currentItemIndex st') < length (physicalItems p)
            \<and> li_id (physicalItems p ! nat (currentItemIndex st')) = lid
            \<and> (\<forall>j < nat (currentItemIndex st'). li_id (physicalItems p ! j) \<noteq> lid)
            \<and> isEditing st' \<and> \<not> isLoading st'
            \<and> selectedAddress st' = None \<and> selectedShippingOption st' = None
            \<and> error st' = error st \<and> originalItemOrder st' = originalItemOrder st
            \<and> (\<forall>k. map_of (configuredItems st') k =
                      (if (\<exists>c\<in>set (itemConsignments st).
                              toString (e_lineItemId c) = k \<and> (\<not> full c \<or> \<not> flagged k))
                          \<and> \<not> (k = ''__proto__'' \<and> map_of (configuredItems st) k = None)
                       then Some False else map_of (configuredItems st) k))
            \<and> unhandled w' = unhandled w)
          \<and> (1 < qty \<and> sdk w \<noteq> None \<and> find (\<lambda>it. li_id it = lid) (physicalItems p) \<noteq> None
                \<and> plan w (length (calls w)) (PostConsignments body) \<noteq> Ok \<longrightarrow>
               st' = st\<lparr>error := Some (''Error splitting line item: '' @
                                    (case plan w (length (calls w)) (PostConsignments body) of
                                       Rejected \<Rightarrow> ''Failed to fetch''
                                     | _ \<Rightarrow> ''Failed to split line item'')),
                        isLoading := False\<rparr>
               \<and> remote w' = remote w
               \<and> calls w' = calls w @ [PostConsignments body]))
   \<and> (let st' = fst (handleSplitLineItem_mw p lid qty st v);
           v' = snd (handleSplitLineItem_mw p lid qty st v);
           cart = ck_physicalItems (mw_remote v');
           cons = ck_consignments (mw_remote v')
       in 1 < qty \<and> mw_sdk v \<noteq> None \<and> find (\<lambda>it. li_id it = lid) (physicalItems p) \<noteq> None
            \<and> (\<forall>n r. mw_plan v n r = MwOk) \<longrightarrow>
          mw_calls v' = mw_calls v @ [MwSplit lid qty, MwLoadCheckout, MwGetCheckout, MwLoadCheckout]
          \<and> mw_remote v' = mw_split v lid qty (mw_remote v)
          \<and> mw_sdk v' = Some (mw_remote v')
          \<and> itemConsignments st' =
               map (\<lambda>it. case find (\<lambda>c. toString (li_id it) \<in> set (c_lineItemIds c)) cons of
                            None \<Rightarrow> \<lparr>e_id = None, e_lineItemId = li_id it, e_shippingAddress = None,
                                      e_selectedShippingOption = None, e_availableShippingOptions = []\<rparr>
                          | Some c \<Rightarrow> \<lparr>e_id = Some (c_id c), e_lineItemId = li_id it,
                                        e_shippingAddress = c_shippingAddress c,
                                        e_selectedShippingOption = c_selectedShippingOption c,
                                        e_availableShippingOptions = c_availableShippingOptions c\<rparr>)
                 cart
          \<and> originalItemOrder st' = map (\<lambda>it. toString (li_id it)) cart
          \<and> error st' = error st \<and> \<not> isLoading st'
          \<and> mw_unhandled v' = mw_unhandled v)"
proof -
  let ?body = "replicate (nat qty)
                 \<lparr>rq_address = baseAddress, rq_itemId = IdStr (toString lid), rq_quantity = 1\<rparr>"
  let ?post = "PostConsignments ?body"
  let ?created = "assign w ?post (remote w)"
  let ?st' = "fst (handleSplitLineItem p lid qty st w)"
  let ?w' = "snd (handleSplitLineItem p lid qty st w)"
  let ?st0 = "st\<lparr>isLoading := True\<rparr>"
  let ?T = "split_try p lid qty ?st0 w"
  have b: "splitConsignments lid qty = ?body" by (simp add: splitConsignments_def)
  have A: "handleSplitLineItem p lid qty st w = (st, w) \<and> handleSplitLineItem_mw p lid qty st v = (st, v)"
    if "qty \<le> 1"
    using that by (simp add: handleSplitLineItem_def handleSplitLineItem_mw_def)
  have B: "take (Suc (length (calls w))) (calls ?w') = calls w @ [?post]
            \<and> filter is_post (calls ?w') = filter is_post (calls w) @ [?post]
            \<and> sum_list (map rq_quantity ?body) = qty
            \<and> map c_id (remote ?w') = map c_id ?created
            \<and> map c_lineItemIds (remote ?w') = map c_lineItemIds ?created
            \<and> map c_shippingAddress (remote ?w') = map c_shippingAddress ?created
            \<and> map c_availableShippingOptions (remote ?w') = map c_availableShippingOptions ?created
            \<and> distinct (map e_lineItemId (itemConsignments ?st'))
            \<and> map e_lineItemId (itemConsignments ?st')
                 = rev (remdups (rev (map e_lineItemId (itemConsignments st)
                                       @ map (\<lambda>nc. IdStr (hd (c_lineItemIds nc))) (remote ?w'))))
            \<and> (\<forall>k. find (\<lambda>x. e_lineItemId x = k) (itemConsignments ?st') =
                      (case find (\<lambda>nc. IdStr (hd (c_lineItemIds nc)) = k
                                        \<and> c_shippingAddress nc \<noteq> None \<and> c_selectedShippingOption nc \<noteq> None)
                              (rev (remote ?w')) of
                         Some nc \<Rightarrow> Some \<lparr>e_id = Some (c_id nc), e_lineItemId = IdStr (hd (c_lineItemIds nc)),
                                           e_shippingAddress = c_shippingAddress nc,
                                           e_selectedShippingOption = c_selectedShippingOption nc,
                                           e_availableShippingOptions = c_availableShippingOptions nc\<rparr>
                       | None \<Rightarrow>
                           (case find (\<lambda>x. e_lineItemId x = k) (itemConsignments st) of
                              Some e \<Rightarrow> Some e
                            | None \<Rightarrow> map_option
                                        (\<lambda>nc. \<lparr>e_id = Some (c_id nc), e_lineItemId = IdStr (hd (c_lineItemIds nc)),
                                           e_shippingAddress = c_shippingAddress nc,
                                           e_selectedShippingOption = c_selectedShippingOption nc,
                                           e_availableShippingOptions = c_availableShippingOptions nc\<rparr>)
                                        (find (\<lambda>nc. IdStr (hd (c_lineItemIds nc)) = k) (remote ?w')))))
            \<and> 0 \<le> currentItemIndex ?st' \<and> nat (currentItemIndex ?st') < length (physicalItems p)
            \<and> li_id (physicalItems p ! nat (currentItemIndex ?st')) = lid
            \<and> (\<forall>j < nat (currentItemIndex ?st'). li_id (physicalItems p ! j) \<noteq> lid)
            \<and> isEditing ?st' \<and> \<not> isLoading ?st'
            \<and> selectedAddress ?st' = None \<and> selectedShippingOption ?st' = None
            \<and> error ?st' = error st \<and> originalItemOrder ?st' = originalItemOrder st
            \<and> (\<forall>k. map_of (configuredItems ?st') k =
                      (if (\<exists>c\<in>set (itemConsignments st).
                              toString (e_lineItemId c) = k
                              \<and> (\<not> ((case e_shippingAddress c of None \<Rightarrow> False | Some a \<Rightarrow> length a > 0)
                                      \<and> e_selectedShippingOption c \<noteq> None)
                                  \<or> \<not> (case map_of (configuredItems st) k of
                                          Some b \<Rightarrow> b | None \<Rightarrow> k \<in> set object_prototype_keys)))
                          \<and> \<not> (k = ''__proto__'' \<and> map_of (configuredItems st) k = None)
                       then Some False else map_of (configuredItems st) k))
            \<and> unhandled ?w' = unhandled w"
    if H: "1 < qty \<and> sdk w \<noteq> None \<and> find (\<lambda>it. li_id it = lid) (physicalItems p) \<noteq> None
             \<and> (\<forall>n r. plan w n r = Ok) \<and> healthy (storage w) rs
             \<and> (\<forall>c\<in>set ?created. c_lineItemIds c \<noteq> [])"
  proof -
    from H have q: "1 < qty" and s: "sdk w \<noteq> None"
      and f: "find (\<lambda>it. li_id it = lid) (physicalItems p) \<noteq> None"
      and ok: "\<forall>n r. plan w n r = Ok" and h: "healthy (storage w) rs"
      and ne: "\<forall>c\<in>set (assign w (PostConsignments (splitConsignments lid qty)) (remote w)).
                 c_lineItemIds c \<noteq> []"
      unfolding b by blast+
    obtain ck where ck: "sdk w = Some ck" using s by blast
    obtain cur where cur: "find (\<lambda>it. li_id it = lid) (physicalItems p) = Some cur" using f by blast
    note S = split_try_success[OF ck cur ok h ne, of ?st0, unfolded b]
    have hs: "handleSplitLineItem p lid qty st w = ((fst (snd ?T))\<lparr>isLoading := False\<rparr>, snd (snd ?T))"
      by (rule handleSplitLineItem_done[OF q S(1)])
    have w': "?w' = snd (snd ?T)" unfolding hs by simp
    have st': "?st' = (fst (snd ?T))\<lparr>isLoading := False\<rparr>" unfolding hs by simp
    have ent: "itemConsignments ?st' = mergeConsignments (itemConsignments st) (remote ?w')"
      unfolding st' w' by (subst S(2)) simp
    have flg: "configuredItems ?st' = split_configured (itemConsignments st) (configuredItems st)"
      unfolding st' by (subst S(2)) simp
    have idx: "currentItemIndex ?st' = findIndex (\<lambda>it. li_id it = lid) (physicalItems p)"
      unfolding st' by (subst S(2)) simp
    have rest: "isEditing ?st'" "\<not> isLoading ?st'" "selectedAddress ?st' = None"
      "selectedShippingOption ?st' = None" "error ?st' = error st"
      "originalItemOrder ?st' = originalItemOrder st"
      unfolding st' by (subst S(2), simp)+
    have g: "grows (snd (fetch ?post w)) ?w'"
      unfolding w' using split_try_grows[OF ck cur, of qty ?st0] unfolding b .
    have c1: "take (Suc (length (calls w))) (calls ?w') = calls w @ [?post]"
      by (rule take_grows[OF g]) simp
    have c2: "filter is_post (calls ?w') = filter is_post (calls w) @ [?post]"
      unfolding w' by (rule S(5))
    have c3: "sum_list (map rq_quantity ?body) = qty"
      using q by (simp add: sum_list_replicate)
    have fo: "map fields_of (remote ?w') = map fields_of ?created" unfolding w' by (rule S(3))
    have c4: "map c_id (remote ?w') = map c_id ?created"
      using arg_cong[OF fo, of "map fst"] by (simp add: fields_of_def comp_def)
    have c5: "map c_lineItemIds (remote ?w') = map c_lineItemIds ?created"
      using arg_cong[OF fo, of "map (\<lambda>x. fst (snd x))"] by (simp add: fields_of_def comp_def)
    have c6: "map c_shippingAddress (remote ?w') = map c_shippingAddress ?created"
      using arg_cong[OF fo, of "map (\<lambda>x. fst (snd (snd x)))"] by (simp add: fields_of_def comp_def)
    have c7: "map c_availableShippingOptions (remote ?w') = map c_availableShippingOptions ?created"
      using arg_cong[OF fo, of "map (\<lambda>x. snd (snd (snd x)))"] by (simp add: fields_of_def comp_def)
    have c8: "distinct (map e_lineItemId (itemConsignments ?st'))"
      unfolding ent by (rule mergeConsignments_distinct)
    have c9: "map e_lineItemId (itemConsignments ?st')
                 = rev (remdups (rev (map e_lineItemId (itemConsignments st)
                                       @ map (\<lambda>nc. IdStr (hd (c_lineItemIds nc))) (remote ?w'))))"
      unfolding ent by (rule mergeConsignments_key_list)
    have c10: "find (\<lambda>x. e_lineItemId x = k) (itemConsignments ?st') =
                      (case find (\<lambda>nc. IdStr (hd (c_lineItemIds nc)) = k
                                        \<and> c_shippingAddress nc \<noteq> None \<and> c_selectedShippingOption nc \<noteq> None)
                              (rev (remote ?w')) of
                         Some nc \<Rightarrow> Some \<lparr>e_id = Some (c_id nc), e_lineItemId = IdStr (hd (c_lineItemIds nc)),
                                           e_shippingAddress = c_shippingAddress nc,
                                           e_selectedShippingOption = c_selectedShippingOption nc,
                                           e_availableShippingOptions = c_availableShippingOptions nc\<rparr>
                       | None \<Rightarrow>
                           (case find (\<lambda>x. e_lineItemId x = k) (itemConsignments st) of
                              Some e \<Rightarrow> Some e
                            | None \<Rightarrow> map_option
                                        (\<lambda>nc. \<lparr>e_id = Some (c_id nc), e_lineItemId = IdStr (hd (c_lineItemIds nc)),
                                           e_shippingAddress = c_shippingAddress nc,
                                           e_selectedShippingOption = c_selectedShippingOption nc,
                                           e_availableShippingOptions = c_availableShippingOptions nc\<rparr>)
                                        (find (\<lambda>nc. IdStr (hd (c_lineItemIds nc)) = k) (remote ?w'))))"
      for k
      unfolding ent mergeConsignments_lookup newConsignmentObj_def ..
    note fi = findIndex_spec[of "\<lambda>it. li_id it = lid" "physicalItems p", OF f, folded idx]
    have c11: "0 \<le> currentItemIndex ?st'" "nat (currentItemIndex ?st') < length (physicalItems p)"
      "li_id (physicalItems p ! nat (currentItemIndex ?st')) = lid"
      "\<forall>j < nat (currentItemIndex ?st'). li_id (physicalItems p ! j) \<noteq> lid"
      using fi by blast+
    have c12: "map_of (configuredItems ?st') k =
                      (if (\<exists>c\<in>set (itemConsignments st).
                              toString (e_lineItemId c) = k
                              \<and> (\<not> ((case e_shippingAddress c of None \<Rightarrow> False | Some a \<Rightarrow> length a > 0)
                                      \<and> e_selectedShippingOption c \<noteq> None)
                                  \<or> \<not> (case map_of (configuredItems st) k of
                                          Some b \<Rightarrow> b | None \<Rightarrow> k \<in> set object_prototype_keys)))
                          \<and> \<not> (k = ''__proto__'' \<and> map_of (configuredItems st) k = None)
                       then Some False else map_of (configuredItems st) k)" for k
      unfolding flg by (rule split_configured_lookup)
    have c13: "unhandled ?w' = unhandled w" unfolding w' by (rule S(4))
    show ?thesis
      by (intro conjI allI c1 c2 c3 c4 c5 c6 c7 c8 c9 c10 c11 rest c12 c13)
  qed
  have C: "?st' = st\<lparr>error := Some (''Error splitting line item: '' @
                                    (case plan w (length (calls w)) ?post of
                                       Rejected \<Rightarrow> ''Failed to fetch''
                                     | _ \<Rightarrow> ''Failed to split line item'')),
                        isLoading := False\<rparr>
               \<and> remote ?w' = remote w
               \<and> calls ?w' = calls w @ [?post]"
    if H: "1 < qty \<and> sdk w \<noteq> None \<and> find (\<lambda>it. li_id it = lid) (physicalItems p) \<noteq> None
                \<and> plan w (length (calls w)) ?post \<noteq> Ok"
  proof -
    from H have q: "1 < qty" and s: "sdk w \<noteq> None"
      and f: "find (\<lambda>it. li_id it = lid) (physicalItems p) \<noteq> None"
      and no: "plan w (length (calls w)) (PostConsignments (splitConsignments lid qty)) \<noteq> Ok"
      unfolding b by blast+
    obtain ck where ck: "sdk w = Some ck" using s by blast
    obtain cur where cur: "find (\<lambda>it. li_id it = lid) (physicalItems p) = Some cur" using f by blast
    note R = handleSplitLineItem_refused[OF q ck cur no, of st, unfolded b]
    show ?thesis by (intro conjI R)
  qed
  let ?st2 = "fst (handleSplitLineItem_mw p lid qty st v)"
  let ?v' = "snd (handleSplitLineItem_mw p lid qty st v)"
  have D: "mw_calls ?v' = mw_calls v @ [MwSplit lid qty, MwLoadCheckout, MwGetCheckout, MwLoadCheckout]
          \<and> mw_remote ?v' = mw_split v lid qty (mw_remote v)
          \<and> mw_sdk ?v' = Some (mw_remote ?v')
          \<and> itemConsignments ?st2 =
               map (\<lambda>it. case find (\<lambda>c. toString (li_id it) \<in> set (c_lineItemIds c))
                                  (ck_consignments (mw_remote ?v')) of
                            None \<Rightarrow> \<lparr>e_id = None, e_lineItemId = li_id it, e_shippingAddress = None,
                                      e_selectedShippingOption = None, e_availableShippingOptions = []\<rparr>
                          | Some c \<Rightarrow> \<lparr>e_id = Some (c_id c), e_lineItemId = li_id it,
                                        e_shippingAddress = c_shippingAddress c,
                                        e_selectedShippingOption = c_selectedShippingOption c,
                                        e_availableShippingOptions = c_availableShippingOptions c\<rparr>)
                 (ck_physicalItems (mw_remote ?v'))
          \<and> originalItemOrder ?st2 = map (\<lambda>it. toString (li_id it)) (ck_physicalItems (mw_remote ?v'))
          \<and> error ?st2 = error st \<and> \<not> isLoading ?st2
          \<and> mw_unhandled ?v' = mw_unhandled v"
    if H: "1 < qty \<and> mw_sdk v \<noteq> None \<and> find (\<lambda>it. li_id it = lid) (physicalItems p) \<noteq> None
            \<and> (\<forall>n r. mw_plan v n r = MwOk)"
  proof -
    from H have q: "1 < qty" and s: "mw_sdk v \<noteq> None"
      and f: "find (\<lambda>it. li_id it = lid) (physicalItems p) \<noteq> None"
      and ok: "\<forall>n r. mw_plan v n r = MwOk"
      by blast+
    obtain ck where ck: "mw_sdk v = Some ck" using s by blast
    obtain cur where cur: "find (\<lambda>it. li_id it = lid) (physicalItems p) = Some cur" using f by blast
    note M = split_try_mw_success[OF ck cur ok, of qty "st\<lparr>isLoading := True\<rparr>"]
    have n: "newItemConsignment cs = (\<lambda>it. case find (\<lambda>c. toString (li_id it) \<in> set (c_lineItemIds c)) cs of
                            None \<Rightarrow> \<lparr>e_id = None, e_lineItemId = li_id it, e_shippingAddress = None,
                                      e_selectedShippingOption = None, e_availableShippingOptions = []\<rparr>
                          | Some c \<Rightarrow> \<lparr>e_id = Some (c_id c), e_lineItemId = li_id it,
                                        e_shippingAddress = c_shippingAddress c,
                                        e_selectedShippingOption = c_selectedShippingOption c,
                                        e_availableShippingOptions = c_availableShippingOptions c\<rparr>)" for cs
      by (rule ext) (simp add: newItemConsignment_def Let_def split: option.split)
    show ?thesis
      unfolding handleSplitLineItem_mw_def M Let_def n using q by simp
  qed
  show ?thesis
    unfolding Let_def using A B C D by blast
qed

theorem handleSplitLineItem_split_witness:
  "handleSplitLineItem ex_props (IdStr ''B'') 1 split_state (split_world []) = (split_state, split_world [])
   \<and> handleSplitLineItem_mw ex_props (IdStr ''B'') 1 split_state middleware_world
        = (split_state, middleware_world)
   \<and> healthy (storage (split_world [(''c1'', ''B1''), (''c2'', ''B2'')])) []
   \<and> take 1 (calls (snd (handleSplitLineItem ex_props (IdStr ''B'') 2 split_state
                          (split_world [(''c1'', ''B1''), (''c2'', ''B2'')]))))
        = [PostConsignments
             [\<lparr>rq_address = baseAddress, rq_itemId = IdStr ''B'', rq_quantity = 1\<rparr>,
              \<lparr>rq_address = baseAddress, rq_itemId = IdStr ''B'', rq_quantity = 1\<rparr>]]
   \<and> map e_lineItemId
         (itemConsignments (fst (handleSplitLineItem ex_props (IdStr ''B'') 2 split_state
                                   (split_world [(''c1'', ''B1''), (''c2'', ''B2'')]))))
        = [IdStr ''A'', IdStr ''B'', IdStr ''B1'', IdStr ''B2'']
   \<and> map_get (IdStr ''B1'')
         (itemConsignments (fst (handleSplitLineItem ex_props (IdStr ''B'') 2 split_state
                                   (split_world [(''c1'', ''B1''), (''c2'', ''B2'')]))))
        = Some \<lparr>e_id = Some ''c1'', e_lineItemId = IdStr ''B1'', e_shippingAddress = Some baseAddress,
                e_selectedShippingOption = None, e_availableShippingOptions = [ground]\<rparr>
   \<and> map_get (IdStr ''B'')
         (itemConsignments (fst (handleSplitLineItem ex_props (IdStr ''B'') 2 split_state
                                   (split_world [(''c1'', ''B1''), (''c2'', ''B2'')]))))
        = Some \<lparr>e_id = None, e_lineItemId = IdStr ''B'', e_shippingAddress = None,
                e_selectedShippingOption = None, e_availableShippingOptions = []\<rparr>
   \<and> fst (handleSplitLineItem ex_props (IdStr ''B'') 2 split_state split_refused_world)
        = split_state\<lparr>error := Some ''Error splitting line item: Failed to split line item''\<rparr>
   \<and> calls (snd (handleSplitLineItem ex_props (IdStr ''B'') 2 split_state split_refused_world))
        = [PostConsignments
             [\<lparr>rq_address = baseAddress, rq_itemId = IdStr ''B'', rq_quantity = 1\<rparr>,
              \<lparr>rq_address = baseAddress, rq_itemId = IdStr ''B'', rq_quantity = 1\<rparr>]]
   \<and> mw_calls (snd (handleSplitLineItem_mw ex_props (IdStr ''B'') 2 split_state middleware_world))
        = [MwSplit (IdStr ''B'') 2, MwLoadCheckout, MwGetCheckout, MwLoadCheckout]
   \<and> itemConsignments (fst (handleSplitLineItem_mw ex_props (IdStr ''B'') 2 split_state middleware_world))
        = [\<lparr>e_id = Some ''c-a'', e_lineItemId = IdStr ''A'', e_shippingAddress = Some home,
             e_selectedShippingOption = Some ground, e_availableShippingOptions = [ground]\<rparr>,
           \<lparr>e_id = None, e_lineItemId = IdStr ''B1'', e_shippingAddress = None,
             e_selectedShippingOption = None, e_availableShippingOptions = []\<rparr>,
           \<lparr>e_id = None, e_lineItemId = IdStr ''B2'', e_shippingAddress = None,
             e_selectedShippingOption = None, e_availableShippingOptions = []\<rparr>]"
proof -
  let ?W = "split_world [(''c1'', ''B1''), (''c2'', ''B2'')]"
  let ?X = "handleSplitLineItem ex_props (IdStr ''B'') 2 split_state ?W"
  let ?Y = "handleSplitLineItem ex_props (IdStr ''B'') 2 split_state split_refused_world"
  let ?Z = "handleSplitLineItem_mw ex_props (IdStr ''B'') 2 split_state middleware_world"
  let ?body = "replicate (nat 2)
                 \<lparr>rq_address = baseAddress, rq_itemId = IdStr (toString (IdStr ''B'')), rq_quantity = 1\<rparr>"
  let ?key = "\<lambda>nc. IdStr (hd (c_lineItemIds nc))"
  let ?entry = "\<lambda>nc. \<lparr>e_id = Some (c_id nc), e_lineItemId = IdStr (hd (c_lineItemIds nc)),
                            e_shippingAddress = c_shippingAddress nc,
                            e_selectedShippingOption = c_selectedShippingOption nc,
                            e_availableShippingOptions = c_availableShippingOptions nc\<rparr>"
  have h: "healthy (storage ?W) []"
    by (simp add: split_world_def healthy_def fresh_storage_def)
  have H1: "(1::int) \<le> 1" by simp
  have H2: "(1::int) < 2 \<and> sdk ?W \<noteq> None
             \<and> find (\<lambda>it. li_id it = IdStr ''B'') (physicalItems ex_props) \<noteq> None
             \<and> (\<forall>n r. plan ?W n r = Ok) \<and> healthy (storage ?W) []
             \<and> (\<forall>c\<in>set (assign ?W (PostConsignments ?body) (remote ?W)). c_lineItemIds c \<noteq> [])"
    using h
    by (simp add: split_world_def ex_props_def item_A_def item_B_def consignment_A_def
          split_consignment_def)
  have H3: "(1::int) < 2 \<and> sdk split_refused_world \<noteq> None
             \<and> find (\<lambda>it. li_id it = IdStr ''B'') (physicalItems ex_props) \<noteq> None
             \<and> plan split_refused_world (length (calls split_refused_world)) (PostConsignments ?body) \<noteq> Ok"
    by (simp add: split_refused_world_def split_world_def ex_props_def item_A_def item_B_def)
  have H4: "(1::int) < 2 \<and> mw_sdk middleware_world \<noteq> None
             \<and> find (\<lambda>it. li_id it = IdStr ''B'') (physicalItems ex_props) \<noteq> None
             \<and> (\<forall>n r. mw_plan middleware_world n r = MwOk)"
    by (simp add: middleware_world_def ex_props_def item_A_def item_B_def)
  note T1 = handleSplitLineItem_split[where qty = 1 and p = ex_props and lid = "IdStr ''B''"
      and st = split_state and w = "split_world []" and v = middleware_world and rs = "[]"]
  note T2 = handleSplitLineItem_split[where qty = 2 and p = ex_props and lid = "IdStr ''B''"
      and st = split_state and w = ?W and v = middleware_world and rs = "[]", unfolded Let_def]
  note T3 = handleSplitLineItem_split[where qty = 2 and p = ex_props and lid = "IdStr ''B''"
      and st = split_state and w = split_refused_world and v = middleware_world and rs = "[]",
      unfolded Let_def]
  have a: "handleSplitLineItem ex_props (IdStr ''B'') 1 split_state (split_world [])
             = (split_state, split_world [])
           \<and> handleSplitLineItem_mw ex_props (IdStr ''B'') 1 split_state middleware_world
             = (split_state, middleware_world)"
    using T1 H1 by blast
  have rw: "remote (snd ?X) = [consignment_A, split_consignment ''c1'' ''B1'', split_consignment ''c2'' ''B2'']"
    by code_simp
  have cw: "calls ?W = []" by (simp add: split_world_def)
  have b1: "take (Suc (length (calls ?W))) (calls (snd ?X)) = calls ?W @ [PostConsignments ?body]"
    using T2 H2 by blast
  have b2: "map e_lineItemId (itemConsignments (fst ?X))
             = rev (remdups (rev (map e_lineItemId (itemConsignments split_state) @ map ?key (remote (snd ?X)))))"
    using T2 H2 by blast
  have b3: "find (\<lambda>x. e_lineItemId x = k) (itemConsignments (fst ?X)) =
              (case find (\<lambda>nc. ?key nc = k \<and> (c_shippingAddress nc \<noteq> None \<and> c_selectedShippingOption nc \<noteq> None))
                      (rev (remote (snd ?X))) of
                 Some nc \<Rightarrow> Some (?entry nc)
               | None \<Rightarrow>
                   (case find (\<lambda>x. e_lineItemId x = k) (itemConsignments split_state) of
                      Some e \<Rightarrow> Some e
                    | None \<Rightarrow> map_option ?entry (find (\<lambda>nc. ?key nc = k) (remote (snd ?X)))))" for k
    using T2 H2 by blast
  have c1: "take 1 (calls (snd ?X))
        = [PostConsignments
             [\<lparr>rq_address = baseAddress, rq_itemId = IdStr ''B'', rq_quantity = 1\<rparr>,
              \<lparr>rq_address = baseAddress, rq_itemId = IdStr ''B'', rq_quantity = 1\<rparr>]]"
    using b1 unfolding cw by (simp add: numeral_2_eq_2)
  have c2: "map e_lineItemId (itemConsignments (fst ?X)) = [IdStr ''A'', IdStr ''B'', IdStr ''B1'', IdStr ''B2'']"
    unfolding b2 rw
    by (simp add: split_state_def newConsignmentObj_def fresh_entry_def consignment_A_def
          split_consignment_def item_B_def)
  have c3: "map_get (IdStr ''B1'') (itemConsignments (fst ?X))
        = Some \<lparr>e_id = Some ''c1'', e_lineItemId = IdStr ''B1'', e_shippingAddress = Some baseAddress,
                e_selectedShippingOption = None, e_availableShippingOptions = [ground]\<rparr>"
    unfolding map_get_def b3 rw
    by (simp add: split_state_def newConsignmentObj_def fresh_entry_def consignment_A_def
          split_consignment_def item_B_def)
  have c4: "map_get (IdStr ''B'') (itemConsignments (fst ?X))
        = Some \<lparr>e_id = None, e_lineItemId = IdStr ''B'', e_shippingAddress = None,
                e_selectedShippingOption = None, e_availableShippingOptions = []\<rparr>"
    unfolding map_get_def b3 rw
    by (simp add: split_state_def newConsignmentObj_def fresh_entry_def consignment_A_def
          split_consignment_def item_B_def)
  have d1: "fst ?Y = split_state\<lparr>error := Some (''Error splitting line item: '' @
                (case plan split_refused_world (length (calls split_refused_world)) (PostConsignments ?body) of
                   Rejected \<Rightarrow> ''Failed to fetch'' | _ \<Rightarrow> ''Failed to split line item'')),
              isLoading := False\<rparr>"
    using T3 H3 by blast
  have d2: "calls (snd ?Y) = calls split_refused_world @ [PostConsignments ?body]"
    using T3 H3 by blast
  have c5: "fst ?Y = split_state\<lparr>error := Some ''Error splitting line item: Failed to split line item''\<rparr>"
    unfolding d1 by (simp add: split_refused_world_def split_state_def)
  have c6: "calls (snd ?Y) = [PostConsignments
             [\<lparr>rq_address = baseAddress, rq_itemId = IdStr ''B'', rq_quantity = 1\<rparr>,
              \<lparr>rq_address = baseAddress, rq_itemId = IdStr ''B'', rq_quantity = 1\<rparr>]]"
    unfolding d2 by (simp add: split_refused_world_def split_world_def numeral_2_eq_2)
  have e1: "mw_calls (snd ?Z) = mw_calls middleware_world @ [MwSplit (IdStr ''B'') 2, MwLoadCheckout, MwGetCheckout, MwLoadCheckout]"
    using T2 H4 by blast
  have e2: "mw_remote (snd ?Z) = mw_split middleware_world (IdStr ''B'') 2 (mw_remote middleware_world)"
    using T2 H4 by blast
  have e3: "itemConsignments (fst ?Z) =
               map (\<lambda>it. case find (\<lambda>c. toString (li_id it) \<in> set (c_lineItemIds c))
                                  (ck_consignments (mw_remote (snd ?Z))) of
                            None \<Rightarrow> \<lparr>e_id = None, e_lineItemId = li_id it, e_shippingAddress = None,
                                      e_selectedShippingOption = None, e_availableShippingOptions = []\<rparr>
                          | Some c \<Rightarrow> \<lparr>e_id = Some (c_id c), e_lineItemId = li_id it,
                                        e_shippingAddress = c_shippingAddress c,
                                        e_selectedShippingOption = c_selectedShippingOption c,
                                        e_availableShippingOptions = c_availableShippingOptions c\<rparr>)
                 (ck_physicalItems (mw_remote (snd ?Z)))"
    using T2 H4 by blast
  have c7: "mw_calls (snd ?Z) = [MwSplit (IdStr ''B'') 2, MwLoadCheckout, MwGetCheckout, MwLoadCheckout]"
    unfolding e1 by (simp add: middleware_world_def)
  have c8: "itemConsignments (fst ?Z)
        = [\<lparr>e_id = Some ''c-a'', e_lineItemId = IdStr ''A'', e_shippingAddress = Some home,
             e_selectedShippingOption = Some ground, e_availableShippingOptions = [ground]\<rparr>,
           \<lparr>e_id = None, e_lineItemId = IdStr ''B1'', e_shippingAddress = None,
             e_selectedShippingOption = None, e_availableShippingOptions = []\<rparr>,
           \<lparr>e_id = None, e_lineItemId = IdStr ''B2'', e_shippingAddress = None,
             e_selectedShippingOption = None, e_availableShippingOptions = []\<rparr>]"
    unfolding e3 e2
    by (simp add: middleware_world_def cart_checkout_def item_A_def item_B1_def item_B2_def
          consignment_A_def)
  show ?thesis
    by (intro conjI a[THEN conjunct1] a[THEN conjunct2] h c1 c2 c3 c4 c5 c6 c7 c8)
qed

text \<open>
  The claim as stated fails on the entries. Splitting item B (quantity 2), with the
  platform reporting the two new consignments under new line item ids, leaves the entry
  of B in place, unchanged and without a consignment, next to the two new entries. With
  the platform reporting them under the id of B, the entries are the two there were
  before the split: the one entry of B, still without a consignment.
\<close>

theorem handleSplitLineItem_entries_counterexample:
  "itemConsignments (fst (handleSplitLineItem ex_props (IdStr ''B'') 2 split_state
       (split_world [(''c1'', ''B1''), (''c2'', ''B2'')])))
     = [newConsignmentObj consignment_A, fresh_entry item_B,
        newConsignmentObj (split_consignment ''c1'' ''B1''),
        newConsignmentObj (split_consignment ''c2'' ''B2'')]
   \<and> itemConsignments (fst (handleSplitLineItem ex_props (IdStr ''B'') 2 split_state
       (split_world [(''c1'', ''B''), (''c2'', ''B'')])))
     = [newConsignmentObj consignment_A, fresh_entry item_B]"
  by code_simp

end
